theory Spec2Isabelle
  imports Main "HOL-Library.Char_ord" "HOL-Library.List_Lexorder"
begin

section \<open>MCPedia: the entry store and the protocol dispatcher\<close>

text \<open>
  A shallow embedding of the store (package \<open>db\<close>: the file that declares
  \<open>func (d *DB) CreateEntry(e *Entry) error\<close>, together with \<open>internal/db/schema.sql\<close>)
  and of the dispatcher (\<open>internal/mcp/mcp.go\<close>), which calls that store.

  The SQLite database is a record of tables, each table a list of rows in insertion
  order. The constraints of \<open>schema.sql\<close> (PRIMARY KEY, UNIQUE, CHECK, NOT NULL,
  REFERENCES ... ON DELETE CASCADE, AUTOINCREMENT) are written into the statements that
  the Go code executes. The structures follow the Go source; strings are byte strings.

  What the program takes from libraries is a parameter, collected in the record \<open>env\<close>:
  \<open>strings.TrimSpace\<close>, SHA-256 with hex encoding, SQLite's \<open>length()\<close>, the FTS5 engine
  (query syntax, MATCH, rank, snippet), the text of a driver error, JSON decoding of
  request parameters, the base64 cursor codec and the random session identifiers. The clock (\<open>datetime('now')\<close>, \<open>time.Now()\<close>) is the argument
  \<open>now\<close> of each operation.

  A statement that writes (BEGIN, INSERT, UPDATE, DELETE, COMMIT) can be refused by the
  storage engine (busy timeout, full disk), and it runs on a connection of the pool of
  \<open>database/sql\<close>. \<open>Open\<close> executes \<open>PRAGMA foreign_keys=ON\<close> once, on the connection that
  serves that statement; a connection that the pool opens later has SQLite's default,
  foreign keys not enforced. The argument \<open>flt\<close> of an operation is the connection that
  serves the call: \<open>refused flt n\<close> says that its write statement \<open>n\<close>, counted from 0 in
  execution order, is refused, and \<open>foreign_keys flt\<close> that the connection enforces
  foreign keys. A transaction runs on one connection; of a call without a transaction
  only \<open>DELETE FROM entries\<close> depends on the setting, and \<open>foreign_keys flt\<close> is then the
  setting of the connection that serves this statement. Reads are taken to succeed.
  \<open>no_faults\<close> is the connection of \<open>Open\<close> when nothing is refused.
\<close>

subsection \<open>Values, errors, library parameters\<close>

datatype json = JNull | JBool bool | JNum int | JStr string | JArr "json list"
  | JObj "(string \<times> json) list"

text \<open>\<open>JNum n\<close> stands for a decoded JSON number whose conversion \<open>int(n)\<close> is \<open>n\<close>.\<close>

datatype sqlerr = UniqueViolation | CheckViolation | NotNullViolation
  | ForeignKeyViolation | BindError | StorageFault | FtsSyntaxError | NoRows

text \<open>
  A Go \<open>error\<close>: \<open>Errorf s\<close> is \<open>fmt.Errorf\<close> with the text \<open>s\<close>; \<open>Wrapf p c\<close> is
  \<open>fmt.Errorf(p + ": %w", err)\<close> around a storage error \<open>c\<close>; \<open>Raw c\<close> is a storage
  error returned as it is.
\<close>

datatype error = Errorf string | Wrapf string sqlerr | Raw sqlerr

record conn =
  foreign_keys :: bool
  refused :: "nat \<Rightarrow> bool"

definition no_faults :: conn where
  "no_faults = \<lparr>foreign_keys = True, refused = (\<lambda>n. False)\<rparr>"

text \<open>The connection of \<open>Open\<close> when write statement \<open>k\<close> is refused.\<close>

definition fault_at :: "nat \<Rightarrow> conn" where
  "fault_at k = \<lparr>foreign_keys = True, refused = (\<lambda>n. n = k)\<rparr>"

text \<open>A connection that the pool opened after \<open>Open\<close>, when nothing is refused.\<close>

definition second_conn :: conn where
  "second_conn = \<lparr>foreign_keys = False, refused = (\<lambda>n. False)\<rparr>"

record env =
  trimSpace :: "string \<Rightarrow> string"
  sha256hex :: "string \<Rightarrow> string"
  sql_length :: "string \<Rightarrow> nat"
  sql_text_of :: "json \<Rightarrow> string"
  fts_valid :: "string \<Rightarrow> bool"
  fts_match :: "string \<Rightarrow> string \<Rightarrow> string \<Rightarrow> string \<Rightarrow> bool"
  fts_rank :: "string \<Rightarrow> (string \<times> string \<times> string) list \<Rightarrow> string \<times> string \<times> string \<Rightarrow> int"
  fts_snippet :: "string \<Rightarrow> string \<Rightarrow> string"
  unmarshal_call :: "json option \<Rightarrow> string + (string \<times> (string \<rightharpoonup> json))"
  unmarshal_cursor :: "json option \<Rightarrow> string"
  unmarshal_uri :: "json option \<Rightarrow> string option"
  unmarshal_prompt :: "json option \<Rightarrow> (string \<times> (string \<rightharpoonup> string)) option"
  cursor_offset :: "string \<Rightarrow> int"
  cursor_encode :: "int \<Rightarrow> string"
  session_id :: "nat \<Rightarrow> string"
  sqlerr_text :: "sqlerr \<Rightarrow> string"

subsection \<open>The Go structures of package db\<close>

record Entry =
  ID :: int
  Slug :: string
  Title :: string
  Description :: string
  Content :: string
  Kind :: string
  Language :: string
  Domain :: string
  Project :: string
  Version :: int
  CreatedAt :: string
  UpdatedAt :: string
  Tags :: "string list option"
  Snippet :: string

text \<open>\<open>Tags = None\<close> is the nil slice, \<open>Some []\<close> the empty, non-nil slice.\<close>

record EntryStats =
  Reads :: int
  Searches :: int
  Updates :: int
  LastReadAt :: "string option"
  LastSearchAt :: "string option"
  LastUpdateAt :: "string option"

record Tag =
  Name :: string
  Count :: int

record Filter =
  fKind :: string
  fLanguage :: string
  fDomain :: string
  fProject :: string
  fTag :: string
  fTags :: "string list"

subsection \<open>The tables of schema.sql\<close>

record entry_row =
  e_id :: int
  e_slug :: string
  e_title :: string
  e_description :: string
  e_content :: string
  e_kind :: string
  e_language :: string
  e_domain :: string
  e_project :: string
  e_version :: int
  e_created_at :: string
  e_updated_at :: string

record tag_row =
  t_id :: int
  t_name :: string

record et_row =
  et_entry_id :: int
  et_tag_id :: int

record stats_row =
  es_entry_id :: int
  es_reads :: int
  es_searches :: int
  es_updates :: int
  es_last_read_at :: "string option"
  es_last_search_at :: "string option"
  es_last_update_at :: "string option"

record fts_row =
  fts_rowid :: int
  fts_title :: string
  fts_description :: string
  fts_content :: string

record lock_row =
  lock_active :: int
  lock_token :: string

text \<open>
  \<open>entries_seq\<close> and \<open>tags_seq\<close> are the AUTOINCREMENT counters that SQLite keeps in
  \<open>sqlite_sequence\<close>; \<open>lock\<close> is the single row \<open>id = 1\<close> of table \<open>lock\<close>.
\<close>

record db =
  entries :: "entry_row list"
  entries_seq :: int
  tags :: "tag_row list"
  tags_seq :: int
  entry_tags :: "et_row list"
  entry_stats :: "stats_row list"
  entries_fts :: "fts_row list"
  lock :: lock_row

text \<open>The database after \<open>Open\<close> on a new file.\<close>

definition empty_db :: db where
  "empty_db = \<lparr>entries = [], entries_seq = 0, tags = [], tags_seq = 0, entry_tags = [],
     entry_stats = [], entries_fts = [], lock = \<lparr>lock_active = 0, lock_token = []\<rparr>\<rparr>"

subsection \<open>Helpers of package db\<close>

definition defaultStr :: "string \<Rightarrow> string \<Rightarrow> string" where
  "defaultStr s def = (if s = [] then def else s)"

definition hashToken :: "env \<Rightarrow> string \<Rightarrow> string" where
  "hashToken env token = sha256hex env token"

text \<open>Ranging over a nil slice runs no iteration.\<close>

definition slice_items :: "'a list option \<Rightarrow> 'a list" where
  "slice_items s = (case s of None \<Rightarrow> [] | Some xs \<Rightarrow> xs)"

subsection \<open>Statements\<close>

text \<open>A write statement at position \<open>n\<close> of the call: refused when \<open>refused flt n\<close>.\<close>

definition exec :: "conn \<Rightarrow> nat \<Rightarrow> (sqlerr + 'a) \<Rightarrow> (sqlerr + 'a)" where
  "exec flt n r = (if refused flt n then Inl StorageFault else r)"

text \<open>AUTOINCREMENT: one more than the largest rowid ever in the table.\<close>

definition next_rowid :: "int \<Rightarrow> int list \<Rightarrow> int" where
  "next_rowid seq ids = foldr max ids seq + 1"

definition find_entry_by_slug :: "db \<Rightarrow> string \<Rightarrow> entry_row option" where
  "find_entry_by_slug d s = find (\<lambda>r. e_slug r = s) (entries d)"

definition find_entry_by_id :: "db \<Rightarrow> int \<Rightarrow> entry_row option" where
  "find_entry_by_id d i = find (\<lambda>r. e_id r = i) (entries d)"

text \<open>
  \<open>INSERT INTO entries (slug, title, description, content, kind, language, domain,
  project)\<close>: slug is UNIQUE, content has \<open>CHECK(length(content) <= 32768)\<close>; version and
  the two timestamps take their defaults.
\<close>

definition insert_entries :: "env \<Rightarrow> string \<Rightarrow> Entry \<Rightarrow> db \<Rightarrow> sqlerr + (int \<times> db)" where
  "insert_entries env now e d =
     (if Slug e \<in> set (map e_slug (entries d)) then Inl UniqueViolation
      else if sql_length env (Content e) > 32768 then Inl CheckViolation
      else
        let i = next_rowid (entries_seq d) (map e_id (entries d)) in
        Inr (i, d\<lparr>entries := entries d @
                 [\<lparr>e_id = i, e_slug = Slug e, e_title = Title e,
                   e_description = Description e, e_content = Content e,
                   e_kind = defaultStr (Kind e) ''skill'', e_language = Language e,
                   e_domain = Domain e, e_project = Project e, e_version = 1,
                   e_created_at = now, e_updated_at = now\<rparr>],
               entries_seq := i\<rparr>))"

text \<open>\<open>INSERT INTO entries_fts(rowid, title, description, content)\<close>: rowid is the key.\<close>

definition insert_fts :: "int \<Rightarrow> string \<Rightarrow> string \<Rightarrow> string \<Rightarrow> db \<Rightarrow> sqlerr + db" where
  "insert_fts i t ds c d =
     (if i \<in> set (map fts_rowid (entries_fts d)) then Inl UniqueViolation
      else Inr (d\<lparr>entries_fts := entries_fts d @
                 [\<lparr>fts_rowid = i, fts_title = t, fts_description = ds, fts_content = c\<rparr>]\<rparr>))"

definition delete_fts :: "int \<Rightarrow> db \<Rightarrow> db" where
  "delete_fts i d = d\<lparr>entries_fts := filter (\<lambda>r. fts_rowid r \<noteq> i) (entries_fts d)\<rparr>"

text \<open>
  \<open>INSERT INTO entry_stats (entry_id)\<close>: a primary key that references entries(id); the
  reference is checked on a connection that enforces foreign keys (\<open>fk\<close>).
\<close>

definition insert_stats :: "bool \<Rightarrow> int \<Rightarrow> db \<Rightarrow> sqlerr + db" where
  "insert_stats fk i d =
     (if i \<in> set (map es_entry_id (entry_stats d)) then Inl UniqueViolation
      else if fk \<and> i \<notin> set (map e_id (entries d)) then Inl ForeignKeyViolation
      else Inr (d\<lparr>entry_stats := entry_stats d @
                 [\<lparr>es_entry_id = i, es_reads = 0, es_searches = 0, es_updates = 0,
                   es_last_read_at = None, es_last_search_at = None,
                   es_last_update_at = None\<rparr>]\<rparr>))"

definition delete_entry_tags :: "int \<Rightarrow> db \<Rightarrow> db" where
  "delete_entry_tags i d = d\<lparr>entry_tags := filter (\<lambda>r. et_entry_id r \<noteq> i) (entry_tags d)\<rparr>"

text \<open>
  \<open>INSERT OR IGNORE INTO tags (name)\<close>: name is UNIQUE, id is AUTOINCREMENT. The new
  rowid is taken, and the counter of \<open>sqlite_sequence\<close> advanced to it, before the
  UNIQUE constraint is checked: an insert that is ignored adds no row and still uses up
  the id.
\<close>

definition upsert_tag :: "string \<Rightarrow> db \<Rightarrow> db" where
  "upsert_tag nm d =
     (let i = next_rowid (tags_seq d) (map t_id (tags d)) in
      if nm \<in> set (map t_name (tags d)) then d\<lparr>tags_seq := i\<rparr>
      else d\<lparr>tags := tags d @ [\<lparr>t_id = i, t_name = nm\<rparr>], tags_seq := i\<rparr>)"

definition select_tag_id :: "string \<Rightarrow> db \<Rightarrow> int option" where
  "select_tag_id nm d = map_option t_id (find (\<lambda>t. t_name t = nm) (tags d))"

text \<open>
  \<open>INSERT OR IGNORE INTO entry_tags (entry_id, tag_id)\<close>: the pair is the primary key
  (a conflict skips the row); both columns are foreign keys, checked on a connection
  that enforces them (\<open>fk\<close>).
\<close>

definition insert_entry_tag :: "bool \<Rightarrow> int \<Rightarrow> int \<Rightarrow> db \<Rightarrow> sqlerr + db" where
  "insert_entry_tag fk i tid d =
     (if \<lparr>et_entry_id = i, et_tag_id = tid\<rparr> \<in> set (entry_tags d) then Inr d
      else if fk \<and> (i \<notin> set (map e_id (entries d)) \<or> tid \<notin> set (map t_id (tags d)))
        then Inl ForeignKeyViolation
      else Inr (d\<lparr>entry_tags := entry_tags d @ [\<lparr>et_entry_id = i, et_tag_id = tid\<rparr>]\<rparr>))"

text \<open>
  \<open>DELETE FROM entries WHERE id = ?\<close>: entry_tags.entry_id and entry_stats.entry_id
  are declared ON DELETE CASCADE, an action of the foreign key: it runs on a connection
  that enforces foreign keys (\<open>fk\<close>); on another connection only the entry row goes.
\<close>

definition delete_entries :: "bool \<Rightarrow> int \<Rightarrow> db \<Rightarrow> db" where
  "delete_entries fk i d =
     (if fk
      then d\<lparr>entries := filter (\<lambda>r. e_id r \<noteq> i) (entries d),
             entry_tags := filter (\<lambda>r. et_entry_id r \<noteq> i) (entry_tags d),
             entry_stats := filter (\<lambda>r. es_entry_id r \<noteq> i) (entry_stats d)\<rparr>
      else d\<lparr>entries := filter (\<lambda>r. e_id r \<noteq> i) (entries d)\<rparr>)"

definition bump_reads :: "string \<Rightarrow> int \<Rightarrow> db \<Rightarrow> db" where
  "bump_reads now i d =
     d\<lparr>entry_stats := map (\<lambda>r. if es_entry_id r = i
          then r\<lparr>es_reads := es_reads r + 1, es_last_read_at := Some now\<rparr> else r)
        (entry_stats d)\<rparr>"

definition bump_searches :: "string \<Rightarrow> int \<Rightarrow> db \<Rightarrow> db" where
  "bump_searches now i d =
     d\<lparr>entry_stats := map (\<lambda>r. if es_entry_id r = i
          then r\<lparr>es_searches := es_searches r + 1, es_last_search_at := Some now\<rparr> else r)
        (entry_stats d)\<rparr>"

definition bump_updates :: "string \<Rightarrow> int \<Rightarrow> db \<Rightarrow> db" where
  "bump_updates now i d =
     d\<lparr>entry_stats := map (\<lambda>r. if es_entry_id r = i
          then r\<lparr>es_updates := es_updates r + 1, es_last_update_at := Some now\<rparr> else r)
        (entry_stats d)\<rparr>"

subsection \<open>setTags and getTagsForEntry\<close>

text \<open>
  The loop of \<open>setTags\<close>: trim, skip a blank name, upsert the tag, read its id, insert
  the association. The position \<open>n\<close> of the next write statement is threaded through.
\<close>

fun setTags_loop :: "env \<Rightarrow> conn \<Rightarrow> nat \<Rightarrow> int \<Rightarrow> string list \<Rightarrow> db \<Rightarrow> sqlerr + (nat \<times> db)" where
  "setTags_loop env flt n i [] d = Inr (n, d)"
| "setTags_loop env flt n i (raw # rest) d =
     (if trimSpace env raw = [] then setTags_loop env flt n i rest d
      else
        (case exec flt n (Inr (upsert_tag (trimSpace env raw) d)) of
           Inl c \<Rightarrow> Inl c
         | Inr d1 \<Rightarrow>
             (case select_tag_id (trimSpace env raw) d1 of
                None \<Rightarrow> Inl NoRows
              | Some tid \<Rightarrow>
                  (case exec flt (n + 1) (insert_entry_tag (foreign_keys flt) i tid d1) of
                     Inl c \<Rightarrow> Inl c
                   | Inr d2 \<Rightarrow> setTags_loop env flt (n + 2) i rest d2))))"

definition setTags :: "env \<Rightarrow> conn \<Rightarrow> nat \<Rightarrow> int \<Rightarrow> string list \<Rightarrow> db \<Rightarrow> sqlerr + (nat \<times> db)" where
  "setTags env flt n i tgs d =
     (case exec flt n (Inr (delete_entry_tags i d)) of
        Inl c \<Rightarrow> Inl c
      | Inr d0 \<Rightarrow> setTags_loop env flt (n + 1) i tgs d0)"

text \<open>
  \<open>SELECT t.name FROM tags t JOIN entry_tags et ON et.tag_id = t.id WHERE et.entry_id = ?
  ORDER BY t.name\<close>; the names are appended to a nil slice, and a slice that is still
  nil after the loop is replaced by the empty slice.
\<close>

definition tag_names_of :: "db \<Rightarrow> int \<Rightarrow> string list" where
  "tag_names_of d i =
     sort (concat (map (\<lambda>t. map (\<lambda>et. t_name t)
       (filter (\<lambda>et. et_tag_id et = t_id t \<and> et_entry_id et = i) (entry_tags d))) (tags d)))"

definition getTagsForEntry :: "db \<Rightarrow> int \<Rightarrow> string list option" where
  "getTagsForEntry d i =
     (let names = tag_names_of d i;
          tgs = (if names = [] then None else Some names)
      in (case tgs of None \<Rightarrow> Some [] | Some ns \<Rightarrow> Some ns))"

subsection \<open>CreateEntry, GetEntry\<close>

text \<open>
  The transaction of \<open>CreateEntry\<close>, from \<open>d.db.Begin()\<close> to \<open>tx.Commit()\<close>. Write
  statements: 0 BEGIN, 1 INSERT entries, 2 INSERT entries_fts, 3 INSERT entry_stats,
  4 onwards \<open>setTags\<close>, then COMMIT. (\<open>LastInsertId\<close> does not fail on SQLite.)
\<close>

definition CreateEntry_tx :: "env \<Rightarrow> conn \<Rightarrow> string \<Rightarrow> Entry \<Rightarrow> db \<Rightarrow> error + (int \<times> db)" where
  "CreateEntry_tx env flt now e d =
     (if refused flt 0 then Inl (Wrapf ''begin'' StorageFault)
      else
        (case exec flt 1 (insert_entries env now e d) of
           Inl c \<Rightarrow> Inl (Wrapf ''insert entry'' c)
         | Inr (i, d1) \<Rightarrow>
             (case exec flt 2 (insert_fts i (Title e) (Description e) (Content e) d1) of
                Inl c \<Rightarrow> Inl (Wrapf ''insert fts'' c)
              | Inr d2 \<Rightarrow>
                  (case exec flt 3 (insert_stats (foreign_keys flt) i d2) of
                     Inl c \<Rightarrow> Inl (Wrapf ''insert stats'' c)
                   | Inr d3 \<Rightarrow>
                       (case setTags env flt 4 i (slice_items (Tags e)) d3 of
                          Inl c \<Rightarrow> Inl (Wrapf ''set tags'' c)
                        | Inr (n, d4) \<Rightarrow>
                            if refused flt n then Inl (Wrapf ''commit'' StorageFault)
                            else Inr (i, d4))))))"

text \<open>
  \<open>CreateEntry\<close>: an error inside the transaction runs the deferred \<open>tx.Rollback()\<close>,
  which restores the database; after the commit, version and timestamps are read back
  into the entry.
\<close>

definition CreateEntry :: "env \<Rightarrow> conn \<Rightarrow> string \<Rightarrow> Entry \<Rightarrow> db \<Rightarrow> (error + Entry) \<times> db" where
  "CreateEntry env flt now e d =
     (case CreateEntry_tx env flt now e d of
        Inl err \<Rightarrow> (Inl err, d)
      | Inr (i, d') \<Rightarrow>
          (case find_entry_by_id d' i of
             None \<Rightarrow> (Inl (Raw NoRows), d')
           | Some r \<Rightarrow>
               (Inr (e\<lparr>ID := i, Version := e_version r, CreatedAt := e_created_at r,
                       UpdatedAt := e_updated_at r\<rparr>), d')))"

definition entry_of_row :: "entry_row \<Rightarrow> string list option \<Rightarrow> Entry" where
  "entry_of_row r tgs =
     \<lparr>ID = e_id r, Slug = e_slug r, Title = e_title r, Description = e_description r,
      Content = e_content r, Kind = e_kind r, Language = e_language r, Domain = e_domain r,
      Project = e_project r, Version = e_version r, CreatedAt = e_created_at r,
      UpdatedAt = e_updated_at r, Tags = tgs, Snippet = []\<rparr>"

text \<open>
  \<open>GetEntry\<close>: the row by slug, its tags, then the read counter is bumped (write
  statement 0); the result of that \<open>Exec\<close> is dropped.
\<close>

definition GetEntry :: "conn \<Rightarrow> string \<Rightarrow> string \<Rightarrow> db \<Rightarrow> (error + Entry) \<times> db" where
  "GetEntry flt now s d =
     (case find_entry_by_slug d s of
        None \<Rightarrow> (Inl (Errorf (''entry not found: '' @ s)), d)
      | Some r \<Rightarrow>
          (Inr (entry_of_row r (getTagsForEntry d (e_id r))),
           (if refused flt 0 then d else bump_reads now (e_id r) d)))"

subsection \<open>UpdateEntry\<close>

text \<open>
  A value of the map \<open>fields\<close> (here \<open>flds\<close>) bound as a statement argument: a string is TEXT, nil is
  NULL (\<open>None\<close>), a number or boolean is kept as the text \<open>sql_text_of\<close> gives, a slice or
  map is refused by the driver.
\<close>

definition bind_text :: "env \<Rightarrow> json \<Rightarrow> sqlerr + string option" where
  "bind_text env v =
     (case v of
        JStr s \<Rightarrow> Inr (Some s)
      | JNull \<Rightarrow> Inr None
      | JNum n \<Rightarrow> Inr (Some (sql_text_of env v))
      | JBool b \<Rightarrow> Inr (Some (sql_text_of env v))
      | JArr xs \<Rightarrow> Inl BindError
      | JObj kvs \<Rightarrow> Inl BindError)"

definition update_cols :: "string list" where
  "update_cols = [''title'', ''description'', ''content'', ''kind'', ''language'',
     ''domain'', ''project'']"

text \<open>The value a column has after \<open>SET col = ?\<close>, when the key is in the map.\<close>

definition col_val :: "env \<Rightarrow> (string \<rightharpoonup> json) \<Rightarrow> string \<Rightarrow> string \<Rightarrow> string" where
  "col_val env flds col old =
     (case flds col of
        None \<Rightarrow> old
      | Some v \<Rightarrow> (case bind_text env v of Inr (Some s) \<Rightarrow> s | _ \<Rightarrow> old))"

definition col_unbindable :: "env \<Rightarrow> (string \<rightharpoonup> json) \<Rightarrow> string \<Rightarrow> bool" where
  "col_unbindable env flds col =
     (case flds col of None \<Rightarrow> False
      | Some v \<Rightarrow> (case bind_text env v of Inl c \<Rightarrow> True | Inr x \<Rightarrow> False))"

definition col_null :: "env \<Rightarrow> (string \<rightharpoonup> json) \<Rightarrow> string \<Rightarrow> bool" where
  "col_null env flds col =
     (case flds col of None \<Rightarrow> False
      | Some v \<Rightarrow> (case bind_text env v of Inr None \<Rightarrow> True | _ \<Rightarrow> False))"

definition set_row :: "env \<Rightarrow> string \<Rightarrow> (string \<rightharpoonup> json) \<Rightarrow> entry_row \<Rightarrow> entry_row" where
  "set_row env now flds r =
     r\<lparr>e_title := col_val env flds ''title'' (e_title r),
       e_description := col_val env flds ''description'' (e_description r),
       e_content := col_val env flds ''content'' (e_content r),
       e_kind := col_val env flds ''kind'' (e_kind r),
       e_language := col_val env flds ''language'' (e_language r),
       e_domain := col_val env flds ''domain'' (e_domain r),
       e_project := col_val env flds ''project'' (e_project r),
       e_version := e_version r + 1,
       e_updated_at := now\<rparr>"

text \<open>
  \<open>UPDATE entries SET <col = ? for each key present>, version = version + 1,
  updated_at = datetime('now') WHERE id = ?\<close>. All seven columns are NOT NULL and
  content keeps its CHECK.
\<close>

definition update_entries :: "env \<Rightarrow> string \<Rightarrow> (string \<rightharpoonup> json) \<Rightarrow> int \<Rightarrow> db \<Rightarrow> sqlerr + db" where
  "update_entries env now flds i d =
     (if list_ex (col_unbindable env flds) update_cols then Inl BindError
      else if list_ex (\<lambda>r. e_id r = i) (entries d) \<and> list_ex (col_null env flds) update_cols
        then Inl NotNullViolation
      else if list_ex (\<lambda>r. e_id r = i \<and>
                 sql_length env (e_content (set_row env now flds r)) > 32768) (entries d)
        then Inl CheckViolation
      else Inr (d\<lparr>entries := map (\<lambda>r. if e_id r = i then set_row env now flds r else r)
                    (entries d)\<rparr>))"

text \<open>The type switch on the value of the key tags: a slice keeps its strings, anything else is no tag.\<close>

definition tag_list_of :: "json \<Rightarrow> string list" where
  "tag_list_of v =
     (case v of
        JArr xs \<Rightarrow> concat (map (\<lambda>t. case t of JStr s \<Rightarrow> [s] | _ \<Rightarrow> []) xs)
      | _ \<Rightarrow> [])"

text \<open>
  Write statements of \<open>UpdateEntry\<close>: 0 BEGIN, 1 UPDATE entries, 2 DELETE entries_fts,
  3 INSERT entries_fts, then \<open>setTags\<close> from 4 when the key tags is present, then
  UPDATE entry_stats, then COMMIT.
\<close>

definition UpdateEntry_tags :: "env \<Rightarrow> conn \<Rightarrow> (string \<rightharpoonup> json) \<Rightarrow> int \<Rightarrow> db \<Rightarrow> sqlerr + (nat \<times> db)" where
  "UpdateEntry_tags env flt flds i d =
     (case flds ''tags'' of
        None \<Rightarrow> Inr (4, d)
      | Some v \<Rightarrow> setTags env flt 4 i (tag_list_of v) d)"

definition UpdateEntry_tx :: "env \<Rightarrow> conn \<Rightarrow> string \<Rightarrow> string \<Rightarrow> (string \<rightharpoonup> json) \<Rightarrow> db \<Rightarrow> error + db" where
  "UpdateEntry_tx env flt now s flds d =
     (if refused flt 0 then Inl (Wrapf ''begin'' StorageFault)
      else
        (case find_entry_by_slug d s of
           None \<Rightarrow> Inl (Errorf (''entry not found: '' @ s))
         | Some r0 \<Rightarrow>
             (let i = e_id r0 in
              case exec flt 1 (update_entries env now flds i d) of
                Inl c \<Rightarrow> Inl (Wrapf ''update entry'' c)
              | Inr d1 \<Rightarrow>
                  (case exec flt 2 (Inr (delete_fts i d1)) of
                     Inl c \<Rightarrow> Inl (Wrapf ''fts delete'' c)
                   | Inr d2 \<Rightarrow>
                       (case find_entry_by_id d2 i of
                          None \<Rightarrow> Inl (Wrapf ''fts read'' NoRows)
                        | Some r \<Rightarrow>
                            (case exec flt 3 (insert_fts i (e_title r) (e_description r)
                                     (e_content r) d2) of
                               Inl c \<Rightarrow> Inl (Wrapf ''fts insert'' c)
                             | Inr d3 \<Rightarrow>
                                 (case UpdateEntry_tags env flt flds i d3 of
                                    Inl c \<Rightarrow> Inl (Wrapf ''update tags'' c)
                                  | Inr (n, d4) \<Rightarrow>
                                      (case exec flt n (Inr (bump_updates now i d4)) of
                                         Inl c \<Rightarrow> Inl (Wrapf ''update stats'' c)
                                       | Inr d5 \<Rightarrow>
                                           if refused flt (n + 1) then Inl (Raw StorageFault)
                                           else Inr d5))))))))"

definition UpdateEntry :: "env \<Rightarrow> conn \<Rightarrow> string \<Rightarrow> string \<Rightarrow> (string \<rightharpoonup> json) \<Rightarrow> db \<Rightarrow> error option \<times> db" where
  "UpdateEntry env flt now s flds d =
     (case UpdateEntry_tx env flt now s flds d of
        Inl err \<Rightarrow> (Some err, d)
      | Inr d' \<Rightarrow> (None, d'))"

subsection \<open>DeleteEntry\<close>

text \<open>
  \<open>DeleteEntry(slug string)\<close>: the id is read, then \<open>DELETE FROM entries_fts\<close> (write
  statement 0) and \<open>DELETE FROM entries\<close> (write statement 1) are executed on \<open>d.db\<close>,
  each on its own, with no transaction around them.
\<close>

definition DeleteEntry :: "conn \<Rightarrow> string \<Rightarrow> db \<Rightarrow> error option \<times> db" where
  "DeleteEntry flt s d =
     (case find_entry_by_slug d s of
        None \<Rightarrow> (Some (Errorf (''entry not found: '' @ s)), d)
      | Some r \<Rightarrow>
          (case exec flt 0 (Inr (delete_fts (e_id r) d)) of
             Inl c \<Rightarrow> (Some (Wrapf ''delete fts'' c), d)
           | Inr d1 \<Rightarrow>
               (case exec flt 1 (Inr (delete_entries (foreign_keys flt) (e_id r) d1)) of
                  Inl c \<Rightarrow> (Some (Wrapf ''delete entry'' c), d1)
                | Inr d2 \<Rightarrow> (None, d2))))"

text \<open>
  \<open>DeleteEntry(ctx context.Context, slug string)\<close>, the variant of the file that
  declares \<open>ErrNotFound\<close>: "FTS and entry deletion are done in a single transaction for
  consistency". Write statements: 0 BEGIN, 1 DELETE entries_fts, 2 DELETE entries,
  3 COMMIT.
\<close>

definition DeleteEntry_ctx :: "conn \<Rightarrow> string \<Rightarrow> db \<Rightarrow> error option \<times> db" where
  "DeleteEntry_ctx flt s d =
     (if refused flt 0 then (Some (Wrapf ''begin'' StorageFault), d)
      else
        (case find_entry_by_slug d s of
           None \<Rightarrow> (Some (Errorf (''entry not found: '' @ s @ '': entry not found'')), d)
         | Some r \<Rightarrow>
             (case exec flt 1 (Inr (delete_fts (e_id r) d)) of
                Inl c \<Rightarrow> (Some (Wrapf ''delete fts'' c), d)
              | Inr d1 \<Rightarrow>
                  (case exec flt 2 (Inr (delete_entries (foreign_keys flt) (e_id r) d1)) of
                     Inl c \<Rightarrow> (Some (Wrapf ''delete entry'' c), d)
                   | Inr d2 \<Rightarrow>
                       if refused flt 3 then (Some (Raw StorageFault), d) else (None, d2)))))"

subsection \<open>Queries: list, search, context, tags, statistics\<close>

text \<open>The WHERE clauses that the four optional filters add.\<close>

definition filter_ok :: "Filter \<Rightarrow> entry_row \<Rightarrow> bool" where
  "filter_ok f r =
     ((fKind f = [] \<or> e_kind r = fKind f) \<and>
      (fLanguage f = [] \<or> e_language r = fLanguage f) \<and>
      (fDomain f = [] \<or> e_domain r = fDomain f) \<and>
      (fProject f = [] \<or> e_project r = fProject f))"

text \<open>
  \<open>JOIN entry_tags et ON et.entry_id = e.id JOIN tags t ON t.id = et.tag_id WHERE
  t.name = ?\<close>: one element for each pair \<open>(et, t)\<close> that joins with the entry.
\<close>

definition tag_joins :: "db \<Rightarrow> string \<Rightarrow> int \<Rightarrow> unit list" where
  "tag_joins d nm i =
     concat (map (\<lambda>et. map (\<lambda>t. ())
         (filter (\<lambda>t. t_id t = et_tag_id et \<and> t_name t = nm) (tags d)))
       (filter (\<lambda>et. et_entry_id et = i) (entry_tags d)))"

text \<open>The join is repeated once for each tag of \<open>f.Tags\<close> (aliases et0, t0, et1, t1, ...).\<close>

definition tags_joins :: "db \<Rightarrow> string list \<Rightarrow> int \<Rightarrow> unit list" where
  "tags_joins d tgs i = foldr (\<lambda>nm acc. concat (map (\<lambda>u. acc) (tag_joins d nm i))) tgs [()]"

definition list_rows :: "db \<Rightarrow> Filter \<Rightarrow> entry_row list" where
  "list_rows d f =
     concat (map (\<lambda>r. if filter_ok f r
                      then (if fTag f = [] then [r]
                            else map (\<lambda>u. r) (tag_joins d (fTag f) (e_id r)))
                      else [])
       (entries d))"

text \<open>\<open>ListEntries\<close>: no content column is selected; ORDER BY e.title.\<close>

definition ListEntries :: "db \<Rightarrow> Filter \<Rightarrow> Entry list" where
  "ListEntries d f =
     map (\<lambda>r. (entry_of_row r (getTagsForEntry d (e_id r)))\<lparr>Content := []\<rparr>)
       (sort_key e_title (list_rows d f))"

text \<open>\<open>AllEntries\<close>: every row with its content, ORDER BY slug.\<close>

definition AllEntries :: "db \<Rightarrow> Entry list" where
  "AllEntries d =
     map (\<lambda>r. entry_of_row r (getTagsForEntry d (e_id r))) (sort_key e_slug (entries d))"

text \<open>
  The counter updates inside the row loops of \<open>SearchEntries\<close> and
  \<open>GetEntriesByContext\<close>: one \<open>Exec\<close> for each returned row (write statement \<open>n\<close>,
  \<open>n + 1\<close>, ...), its error dropped.
\<close>

fun bump_each :: "(int \<Rightarrow> db \<Rightarrow> db) \<Rightarrow> conn \<Rightarrow> nat \<Rightarrow> int list \<Rightarrow> db \<Rightarrow> db" where
  "bump_each upd flt n [] d = d"
| "bump_each upd flt n (i # rest) d =
     bump_each upd flt (Suc n) rest (if refused flt n then d else upd i d)"

definition search_limit :: "int \<Rightarrow> int" where
  "search_limit limit = (if limit \<le> 0 \<or> limit > 50 then 10 else limit)"

definition fts_cols :: "fts_row \<Rightarrow> string \<times> string \<times> string" where
  "fts_cols fr = (fts_title fr, fts_description fr, fts_content fr)"

text \<open>
  \<open>FROM entries_fts fts JOIN entries e ON e.id = fts.rowid [JOIN entry_tags ... JOIN
  tags ...] WHERE fts.entries_fts MATCH ? AND ...\<close>.
\<close>

definition search_rows :: "env \<Rightarrow> string \<Rightarrow> db \<Rightarrow> Filter \<Rightarrow> (fts_row \<times> entry_row) list" where
  "search_rows env q d f =
     concat (map (\<lambda>fr.
         if fts_match env q (fts_title fr) (fts_description fr) (fts_content fr)
         then concat (map (\<lambda>r. if e_id r = fts_rowid fr \<and> filter_ok f r
                                then (if fTag f = [] then [(fr, r)]
                                      else map (\<lambda>u. (fr, r)) (tag_joins d (fTag f) (e_id r)))
                                else [])
                (entries d))
         else [])
       (entries_fts d))"

text \<open>\<open>ORDER BY rank\<close>, before \<open>LIMIT\<close>.\<close>

definition search_hits :: "env \<Rightarrow> string \<Rightarrow> db \<Rightarrow> Filter \<Rightarrow> (fts_row \<times> entry_row) list" where
  "search_hits env q d f =
     sort_key (\<lambda>p. fts_rank env q (map fts_cols (entries_fts d)) (fts_cols (fst p)))
       (search_rows env q d f)"

definition search_entry :: "env \<Rightarrow> string \<Rightarrow> db \<Rightarrow> fts_row \<times> entry_row \<Rightarrow> Entry" where
  "search_entry env q d p =
     (entry_of_row (snd p) (getTagsForEntry d (e_id (snd p))))
       \<lparr>Content := [], Snippet := fts_snippet env q (fts_content (fst p))\<rparr>"

definition SearchEntries :: "env \<Rightarrow> conn \<Rightarrow> string \<Rightarrow> string \<Rightarrow> Filter \<Rightarrow> int \<Rightarrow> db \<Rightarrow> (error + Entry list) \<times> db" where
  "SearchEntries env flt now q f limit d =
     (if \<not> fts_valid env q then (Inl (Wrapf ''search'' FtsSyntaxError), d)
      else
        let page = take (nat (search_limit limit)) (search_hits env q d f) in
        (Inr (map (search_entry env q d) page),
         bump_each (bump_searches now) flt 0 (map (\<lambda>p. e_id (snd p)) page) d))"

definition context_limit :: "int \<Rightarrow> int" where
  "context_limit limit = (if limit \<le> 0 \<or> limit > 50 then 20 else limit)"

definition context_rows :: "db \<Rightarrow> Filter \<Rightarrow> entry_row list" where
  "context_rows d f =
     concat (map (\<lambda>r. if filter_ok f r
                      then (if fTags f \<noteq> [] then map (\<lambda>u. r) (tags_joins d (fTags f) (e_id r))
                            else if fTag f \<noteq> [] then map (\<lambda>u. r) (tag_joins d (fTag f) (e_id r))
                            else [r])
                      else [])
       (entries d))"

definition GetEntriesByContext :: "conn \<Rightarrow> string \<Rightarrow> Filter \<Rightarrow> int \<Rightarrow> db \<Rightarrow> Entry list \<times> db" where
  "GetEntriesByContext flt now f limit d =
     (let page = take (nat (context_limit limit)) (sort_key e_title (context_rows d f)) in
      (map (\<lambda>r. entry_of_row r (getTagsForEntry d (e_id r))) page,
       bump_each (bump_reads now) flt 0 (map e_id page) d))"

text \<open>
  \<open>ListTags\<close>: \<open>SELECT t.name, COUNT(et.entry_id) FROM tags t JOIN entry_tags et ON
  et.tag_id = t.id GROUP BY t.id ORDER BY cnt DESC, t.name\<close>. A tag without an
  association joins with nothing and forms no group.
\<close>

definition ListTags :: "db \<Rightarrow> Tag list" where
  "ListTags d =
     sort_key (\<lambda>t. - Count t) (sort_key Name
       (filter (\<lambda>t. Count t > 0)
         (map (\<lambda>t. \<lparr>Name = t_name t,
                     Count = int (length (filter (\<lambda>et. et_tag_id et = t_id t) (entry_tags d)))\<rparr>)
           (tags d))))"

definition GetStats :: "db \<Rightarrow> string \<Rightarrow> error + EntryStats" where
  "GetStats d s =
     (case find_entry_by_slug d s of
        None \<Rightarrow> Inl (Errorf (''entry not found: '' @ s))
      | Some r \<Rightarrow>
          (case find (\<lambda>st. es_entry_id st = e_id r) (entry_stats d) of
             None \<Rightarrow> Inl (Errorf (''entry not found: '' @ s))
           | Some st \<Rightarrow>
               Inr \<lparr>Reads = es_reads st, Searches = es_searches st, Updates = es_updates st,
                    LastReadAt = es_last_read_at st, LastSearchAt = es_last_search_at st,
                    LastUpdateAt = es_last_update_at st\<rparr>))"

subsection \<open>The write lock\<close>

definition IsLocked :: "db \<Rightarrow> bool" where
  "IsLocked d = (lock_active (lock d) = 1)"

text \<open>\<open>Lock\<close> and \<open>Unlock\<close>: one write statement each, the UPDATE of the lock row.\<close>

definition Lock :: "env \<Rightarrow> conn \<Rightarrow> string \<Rightarrow> db \<Rightarrow> error option \<times> db" where
  "Lock env flt token d =
     (if token = [] then (Some (Errorf ''token must not be empty''), d)
      else if IsLocked d then (Some (Errorf ''database is already locked''), d)
      else if refused flt 0 then (Some (Raw StorageFault), d)
      else (None, d\<lparr>lock := \<lparr>lock_active = 1, lock_token = hashToken env token\<rparr>\<rparr>))"

definition Unlock :: "env \<Rightarrow> conn \<Rightarrow> string \<Rightarrow> db \<Rightarrow> error option \<times> db" where
  "Unlock env flt token d =
     (if token = [] then (Some (Errorf ''token must not be empty''), d)
      else if \<not> IsLocked d then (Some (Errorf ''database is not locked''), d)
      else if lock_token (lock d) \<noteq> hashToken env token then (Some (Errorf ''invalid token''), d)
      else if refused flt 0 then (Some (Raw StorageFault), d)
      else (None, d\<lparr>lock := \<lparr>lock_active = 0, lock_token = []\<rparr>\<rparr>))"

section \<open>The dispatcher (internal/mcp/mcp.go)\<close>

subsection \<open>JSON-RPC types\<close>

record jsonrpcRequest =
  ReqID :: "json option"
  Method :: string
  Params :: "json option"

record rpcError =
  Code :: int
  Message :: string

text \<open>
  What \<open>toolResult\<close> marshals into the text of its content, and the fixed prompt
  templates, are kept as data: the entries, tags or slug a text is made from.
\<close>

datatype tool_data = DEntries "Entry list" | DEntry Entry | DTags "Tag list"
  | DDeleted string

datatype prompt_text = ApplyText string string | ReviewText string string
  | SaveLearningsText

record resource =
  res_uri :: string
  res_name :: string
  res_title :: string
  res_description :: string

text \<open>
  The \<open>result\<close> of a response. \<open>ToolResult\<close> is the map built by \<open>toolResult\<close>
  (\<open>"isError": false\<close>), \<open>ToolError\<close> the map built by \<open>toolError\<close>
  (\<open>"isError": true\<close>, the message as text).
\<close>

datatype result =
    ToolResult tool_data
  | ToolError string
  | PingResult
  | InitializeResult string
  | ToolsListResult "string list"
  | ResourcesListResult "resource list" "string option"
  | ResourceContents string string
  | TemplatesResult "string list"
  | PromptsListResult "string list"
  | PromptResult string prompt_text

record jsonrpcResponse =
  RespID :: "json option"
  Result :: "result option"
  Error :: "rpcError option"

definition rpcResult :: "json option \<Rightarrow> result \<Rightarrow> jsonrpcResponse" where
  "rpcResult i r = \<lparr>RespID = i, Result = Some r, Error = None\<rparr>"

definition rpcErr :: "json option \<Rightarrow> int \<Rightarrow> string \<Rightarrow> jsonrpcResponse" where
  "rpcErr i c m = \<lparr>RespID = i, Result = None, Error = Some \<lparr>Code = c, Message = m\<rparr>\<rparr>"

definition toolResult :: "json option \<Rightarrow> tool_data \<Rightarrow> jsonrpcResponse" where
  "toolResult i dat = rpcResult i (ToolResult dat)"

definition toolError :: "json option \<Rightarrow> string \<Rightarrow> jsonrpcResponse" where
  "toolError i m = rpcResult i (ToolError m)"

text \<open>\<open>err.Error()\<close>.\<close>

definition error_text :: "env \<Rightarrow> error \<Rightarrow> string" where
  "error_text env err =
     (case err of
        Errorf s \<Rightarrow> s
      | Wrapf p c \<Rightarrow> p @ '': '' @ sqlerr_text env c
      | Raw c \<Rightarrow> sqlerr_text env c)"

text \<open>The server: the store and the session registry (a \<open>sync.Map\<close>).\<close>

record server =
  DB :: db
  sessions :: "string list"

subsection \<open>Argument helpers\<close>

definition str :: "(string \<rightharpoonup> json) \<Rightarrow> string \<Rightarrow> string" where
  "str m k = (case m k of Some (JStr s) \<Rightarrow> s | _ \<Rightarrow> [])"

definition intVal :: "(string \<rightharpoonup> json) \<Rightarrow> string \<Rightarrow> int \<Rightarrow> int" where
  "intVal m k def = (case m k of Some (JNum n) \<Rightarrow> n | _ \<Rightarrow> def)"

definition strSlice :: "(string \<rightharpoonup> json) \<Rightarrow> string \<Rightarrow> string list option" where
  "strSlice m k =
     (case m k of
        Some (JArr xs) \<Rightarrow> Some (concat (map (\<lambda>t. case t of JStr s \<Rightarrow> [s] | _ \<Rightarrow> []) xs))
      | _ \<Rightarrow> None)"

definition trimPrefix :: "string \<Rightarrow> string \<Rightarrow> string" where
  "trimPrefix s p = (if take (length p) s = p then drop (length p) s else s)"

subsection \<open>Tools\<close>

text \<open>
  A handler that calls the store more than once takes the refusals of its \<open>k\<close>-th call
  as \<open>fl k\<close>.
\<close>

definition checkLock :: "db \<Rightarrow> error option" where
  "checkLock d =
     (if IsLocked d then Some (Errorf ''database is locked. Write operations are disabled'')
      else None)"

definition toolSearchEntries :: "env \<Rightarrow> (nat \<Rightarrow> conn) \<Rightarrow> string \<Rightarrow> json option \<Rightarrow> (string \<rightharpoonup> json) \<Rightarrow> db \<Rightarrow> jsonrpcResponse \<times> db" where
  "toolSearchEntries env fl now i args d =
     (if str args ''query'' = [] then (toolError i ''query is required'', d)
      else
        (case SearchEntries env (fl 0) now (str args ''query'')
                \<lparr>fKind = str args ''kind'', fLanguage = str args ''language'',
                 fDomain = str args ''domain'', fProject = str args ''project'',
                 fTag = str args ''tag'', fTags = []\<rparr>
                (intVal args ''limit'' 10) d of
           (Inl err, d') \<Rightarrow> (toolError i (error_text env err), d')
         | (Inr es, d') \<Rightarrow> (toolResult i (DEntries es), d')))"

definition toolGetEntry :: "env \<Rightarrow> (nat \<Rightarrow> conn) \<Rightarrow> string \<Rightarrow> json option \<Rightarrow> (string \<rightharpoonup> json) \<Rightarrow> db \<Rightarrow> jsonrpcResponse \<times> db" where
  "toolGetEntry env fl now i args d =
     (if str args ''slug'' = [] then (toolError i ''slug is required'', d)
      else
        (case GetEntry (fl 0) now (str args ''slug'') d of
           (Inl err, d') \<Rightarrow> (toolError i (error_text env err), d')
         | (Inr e, d') \<Rightarrow> (toolResult i (DEntry e), d')))"

definition toolGetEntriesByContext :: "env \<Rightarrow> (nat \<Rightarrow> conn) \<Rightarrow> string \<Rightarrow> json option \<Rightarrow> (string \<rightharpoonup> json) \<Rightarrow> db \<Rightarrow> jsonrpcResponse \<times> db" where
  "toolGetEntriesByContext env fl now i args d =
     (case GetEntriesByContext (fl 0) now
             \<lparr>fKind = str args ''kind'', fLanguage = str args ''language'',
              fDomain = str args ''domain'', fProject = str args ''project'',
              fTag = [], fTags = slice_items (strSlice args ''tags'')\<rparr>
             (intVal args ''limit'' 20) d of
        (es, d') \<Rightarrow> (toolResult i (DEntries es), d'))"

definition toolListEntries :: "json option \<Rightarrow> (string \<rightharpoonup> json) \<Rightarrow> db \<Rightarrow> jsonrpcResponse" where
  "toolListEntries i args d =
     toolResult i (DEntries (ListEntries d
       \<lparr>fKind = str args ''kind'', fLanguage = str args ''language'',
        fDomain = str args ''domain'', fProject = str args ''project'',
        fTag = [], fTags = []\<rparr>))"

definition toolListTags :: "json option \<Rightarrow> db \<Rightarrow> jsonrpcResponse" where
  "toolListTags i d = toolResult i (DTags (ListTags d))"

definition toolCreateEntry :: "env \<Rightarrow> (nat \<Rightarrow> conn) \<Rightarrow> string \<Rightarrow> json option \<Rightarrow> (string \<rightharpoonup> json) \<Rightarrow> db \<Rightarrow> jsonrpcResponse \<times> db" where
  "toolCreateEntry env fl now i args d =
     (case checkLock d of
        Some err \<Rightarrow> (toolError i (error_text env err), d)
      | None \<Rightarrow>
          if str args ''slug'' = [] \<or> str args ''title'' = [] \<or> str args ''content'' = []
          then (toolError i ''slug, title, and content are required'', d)
          else
            (case CreateEntry env (fl 0) now
                    \<lparr>ID = 0, Slug = str args ''slug'', Title = str args ''title'',
                     Description = str args ''description'', Content = str args ''content'',
                     Kind = str args ''kind'', Language = str args ''language'',
                     Domain = str args ''domain'', Project = str args ''project'',
                     Version = 0, CreatedAt = [], UpdatedAt = [],
                     Tags = strSlice args ''tags'', Snippet = []\<rparr> d of
               (Inl err, d') \<Rightarrow> (toolError i (error_text env err), d')
             | (Inr e, d') \<Rightarrow> (toolResult i (DEntry e), d')))"

text \<open>The keys that \<open>toolUpdateEntry\<close> copies from the arguments into \<open>fields\<close>.\<close>

definition update_fields :: "(string \<rightharpoonup> json) \<Rightarrow> (string \<rightharpoonup> json)" where
  "update_fields args = (\<lambda>k. if k \<in> set update_cols \<or> k = ''tags'' then args k else None)"

definition toolUpdateEntry :: "env \<Rightarrow> (nat \<Rightarrow> conn) \<Rightarrow> string \<Rightarrow> json option \<Rightarrow> (string \<rightharpoonup> json) \<Rightarrow> db \<Rightarrow> jsonrpcResponse \<times> db" where
  "toolUpdateEntry env fl now i args d =
     (case checkLock d of
        Some err \<Rightarrow> (toolError i (error_text env err), d)
      | None \<Rightarrow>
          if str args ''slug'' = [] then (toolError i ''slug is required'', d)
          else
            (case UpdateEntry env (fl 0) now (str args ''slug'') (update_fields args) d of
               (Some err, d') \<Rightarrow> (toolError i (error_text env err), d')
             | (None, d') \<Rightarrow>
                 (case GetEntry (fl 1) now (str args ''slug'') d' of
                    (Inl err, d'') \<Rightarrow> (toolError i (error_text env err), d'')
                  | (Inr e, d'') \<Rightarrow> (toolResult i (DEntry e), d''))))"

definition toolDeleteEntry :: "env \<Rightarrow> (nat \<Rightarrow> conn) \<Rightarrow> json option \<Rightarrow> (string \<rightharpoonup> json) \<Rightarrow> db \<Rightarrow> jsonrpcResponse \<times> db" where
  "toolDeleteEntry env fl i args d =
     (case checkLock d of
        Some err \<Rightarrow> (toolError i (error_text env err), d)
      | None \<Rightarrow>
          if str args ''slug'' = [] then (toolError i ''slug is required'', d)
          else
            (case DeleteEntry (fl 0) (str args ''slug'') d of
               (Some err, d') \<Rightarrow> (toolError i (error_text env err), d')
             | (None, d') \<Rightarrow> (toolResult i (DDeleted (str args ''slug'')), d')))"

definition handleToolsCall :: "env \<Rightarrow> (nat \<Rightarrow> conn) \<Rightarrow> string \<Rightarrow> jsonrpcRequest \<Rightarrow> db \<Rightarrow> jsonrpcResponse \<times> db" where
  "handleToolsCall env fl now req d =
     (case unmarshal_call env (Params req) of
        Inl m \<Rightarrow> (rpcErr (ReqID req) (- 32602) (''Invalid params: '' @ m), d)
      | Inr (nm, args) \<Rightarrow>
          if nm = ''search_entries'' then toolSearchEntries env fl now (ReqID req) args d
          else if nm = ''get_entry'' then toolGetEntry env fl now (ReqID req) args d
          else if nm = ''get_entries_by_context''
            then toolGetEntriesByContext env fl now (ReqID req) args d
          else if nm = ''list_entries'' then (toolListEntries (ReqID req) args d, d)
          else if nm = ''list_tags'' then (toolListTags (ReqID req) d, d)
          else if nm = ''create_entry'' then toolCreateEntry env fl now (ReqID req) args d
          else if nm = ''update_entry'' then toolUpdateEntry env fl now (ReqID req) args d
          else if nm = ''delete_entry'' then toolDeleteEntry env fl (ReqID req) args d
          else (rpcErr (ReqID req) (- 32602) (''Unknown tool: '' @ nm), d))"

subsection \<open>Initialize, tool list, resources, prompts\<close>

definition handleInitialize :: "env \<Rightarrow> jsonrpcRequest \<Rightarrow> server \<Rightarrow> jsonrpcResponse \<times> server" where
  "handleInitialize env req sv =
     (let sid = session_id env (length (sessions sv)) in
      (rpcResult (ReqID req) (InitializeResult sid), sv\<lparr>sessions := sessions sv @ [sid]\<rparr>))"

text \<open>The names of \<open>toolDefinitions()\<close>, in its order.\<close>

definition toolDefinitions :: "string list" where
  "toolDefinitions = [''search_entries'', ''get_entry'', ''get_entries_by_context'',
     ''list_entries'', ''list_tags'', ''create_entry'', ''update_entry'', ''delete_entry'']"

definition handleToolsList :: "jsonrpcRequest \<Rightarrow> jsonrpcResponse" where
  "handleToolsList req = rpcResult (ReqID req) (ToolsListResult toolDefinitions)"

definition resourcesPerPage :: int where
  "resourcesPerPage = 50"

definition resource_of :: "Entry \<Rightarrow> resource" where
  "resource_of e = \<lparr>res_uri = ''mcpedia://entries/'' @ Slug e, res_name = Slug e,
     res_title = Title e, res_description = Description e\<rparr>"

text \<open>A Go \<open>int\<close> has 64 bits: the value of an arithmetic result, wrapped around.\<close>

definition int64 :: "int \<Rightarrow> int" where
  "int64 x = (x + 2 ^ 63) mod 2 ^ 64 - 2 ^ 63"

text \<open>
  \<open>handleResourcesList\<close>: the cursor of the parameters, decoded to an offset (0 for no
  cursor or one that does not decode; \<open>cursor_offset\<close> is \<open>strconv.Atoi\<close> after the
  base64 decoding, an \<open>int\<close>); \<open>offset + resourcesPerPage\<close> wraps around for an offset
  near the largest \<open>int\<close>; the page is \<open>entries[offset:end]\<close>, a slice expression that
  panics (\<open>None\<close>) unless \<open>0 <= offset <= end\<close>.
\<close>

definition handleResourcesList :: "env \<Rightarrow> jsonrpcRequest \<Rightarrow> db \<Rightarrow> jsonrpcResponse option" where
  "handleResourcesList env req d =
     (let cursor = (if Params req \<noteq> None then unmarshal_cursor env (Params req) else []);
          offset = (if cursor \<noteq> [] then int64 (cursor_offset env cursor) else 0);
          es = ListEntries d \<lparr>fKind = [], fLanguage = [], fDomain = [], fProject = [],
                 fTag = [], fTags = []\<rparr>;
          n = int (length es);
          end0 = int64 (offset + resourcesPerPage);
          end1 = (if end0 > n then n else end0)
      in if offset < n \<and> (offset < 0 \<or> end1 < offset) then None
         else
           let page = (if offset < n then take (nat (end1 - offset)) (drop (nat offset) es)
                       else [])
           in Some (rpcResult (ReqID req)
                (ResourcesListResult (map resource_of page)
                   (if end1 < n then Some (cursor_encode env end1) else None))))"

definition handleResourcesRead :: "env \<Rightarrow> (nat \<Rightarrow> conn) \<Rightarrow> string \<Rightarrow> jsonrpcRequest \<Rightarrow> db \<Rightarrow> jsonrpcResponse \<times> db" where
  "handleResourcesRead env fl now req d =
     (case unmarshal_uri env (Params req) of
        None \<Rightarrow> (rpcErr (ReqID req) (- 32602) ''Invalid params'', d)
      | Some uri \<Rightarrow>
          (let slug = trimPrefix uri ''mcpedia://entries/'' in
           if slug = [] \<or> slug = uri
           then (rpcErr (ReqID req) (- 32002) (''Invalid resource URI: '' @ uri), d)
           else
             (case GetEntry (fl 0) now slug d of
                (Inl err, d') \<Rightarrow> (rpcErr (ReqID req) (- 32002) (error_text env err), d')
              | (Inr e, d') \<Rightarrow>
                  (rpcResult (ReqID req) (ResourceContents uri (Content e)), d'))))"

definition handleResourcesTemplatesList :: "jsonrpcRequest \<Rightarrow> jsonrpcResponse" where
  "handleResourcesTemplatesList req =
     rpcResult (ReqID req) (TemplatesResult [''mcpedia://entries/{slug}''])"

definition handlePromptsList :: "jsonrpcRequest \<Rightarrow> jsonrpcResponse" where
  "handlePromptsList req =
     rpcResult (ReqID req)
       (PromptsListResult [''apply-entry'', ''review-with-entry'', ''save-learnings''])"

definition handlePromptsGet :: "env \<Rightarrow> (nat \<Rightarrow> conn) \<Rightarrow> string \<Rightarrow> jsonrpcRequest \<Rightarrow> db \<Rightarrow> jsonrpcResponse \<times> db" where
  "handlePromptsGet env fl now req d =
     (case unmarshal_prompt env (Params req) of
        None \<Rightarrow> (rpcErr (ReqID req) (- 32602) ''Invalid params'', d)
      | Some (nm, args) \<Rightarrow>
          (let slug = (case args ''slug'' of None \<Rightarrow> [] | Some s \<Rightarrow> s) in
           if nm = ''apply-entry'' then
             (if slug = [] then (rpcErr (ReqID req) (- 32602) ''slug argument is required'', d)
              else
                (case GetEntry (fl 0) now slug d of
                   (Inl err, d') \<Rightarrow> (rpcErr (ReqID req) (- 32602) (error_text env err), d')
                 | (Inr e, d') \<Rightarrow>
                     (rpcResult (ReqID req)
                        (PromptResult (''Apply entry: '' @ Title e)
                           (ApplyText (Title e) (Content e))), d')))
           else if nm = ''review-with-entry'' then
             (if slug = [] then (rpcErr (ReqID req) (- 32602) ''slug argument is required'', d)
              else
                (case GetEntry (fl 0) now slug d of
                   (Inl err, d') \<Rightarrow> (rpcErr (ReqID req) (- 32602) (error_text env err), d')
                 | (Inr e, d') \<Rightarrow>
                     (rpcResult (ReqID req)
                        (PromptResult (''Review with entry: '' @ Title e)
                           (ReviewText (Title e) (Content e))), d')))
           else if nm = ''save-learnings'' then
             (rpcResult (ReqID req)
                (PromptResult ''Save learnings from the current task'' SaveLearningsText), d)
           else (rpcErr (ReqID req) (- 32602) (''Unknown prompt: '' @ nm), d)))"

subsection \<open>dispatch\<close>

definition method_table :: "string list" where
  "method_table = [''initialize'', ''ping'', ''tools/list'', ''tools/call'',
     ''resources/list'', ''resources/read'', ''resources/templates/list'', ''prompts/list'',
     ''prompts/get'']"

definition with_db :: "server \<Rightarrow> jsonrpcResponse \<times> db \<Rightarrow> jsonrpcResponse option \<times> server" where
  "with_db sv p = (Some (fst p), sv\<lparr>DB := snd p\<rparr>)"

definition dispatch :: "env \<Rightarrow> (nat \<Rightarrow> conn) \<Rightarrow> string \<Rightarrow> jsonrpcRequest \<Rightarrow> server \<Rightarrow> jsonrpcResponse option \<times> server" where
  "dispatch env fl now req sv =
     (if Method req = ''initialize'' then
        (case handleInitialize env req sv of (r, sv') \<Rightarrow> (Some r, sv'))
      else if Method req = ''ping'' then (Some (rpcResult (ReqID req) PingResult), sv)
      else if Method req = ''tools/list'' then (Some (handleToolsList req), sv)
      else if Method req = ''tools/call'' then
        with_db sv (handleToolsCall env fl now req (DB sv))
      else if Method req = ''resources/list'' then (handleResourcesList env req (DB sv), sv)
      else if Method req = ''resources/read'' then
        with_db sv (handleResourcesRead env fl now req (DB sv))
      else if Method req = ''resources/templates/list'' then
        (Some (handleResourcesTemplatesList req), sv)
      else if Method req = ''prompts/list'' then (Some (handlePromptsList req), sv)
      else if Method req = ''prompts/get'' then
        with_db sv (handlePromptsGet env fl now req (DB sv))
      else (Some (rpcErr (ReqID req) (- 32601) (''Method not found: '' @ Method req)), sv))"

section \<open>A sample instance of the library parameters\<close>

text \<open>
  For running the model on concrete inputs: trimming of blanks, a tagging function in
  place of the hash, byte length, substring search in place of the FTS5 engine, and
  decoders that read the parameters from a JSON object. The theorems below hold for every
  instance of \<open>env\<close>; this one only instantiates them.
\<close>

definition trim_blanks :: "string \<Rightarrow> string" where
  "trim_blanks s =
     rev (dropWhile (\<lambda>c. c = CHR '' '') (rev (dropWhile (\<lambda>c. c = CHR '' '') s)))"

fun contains :: "string \<Rightarrow> string \<Rightarrow> bool" where
  "contains q [] = (q = [])"
| "contains q (c # cs) = (take (length q) (c # cs) = q \<or> contains q cs)"

definition decode_call :: "json option \<Rightarrow> string + (string \<times> (string \<rightharpoonup> json))" where
  "decode_call p =
     (case p of
        Some (JObj kvs) \<Rightarrow>
          Inr ((case map_of kvs ''name'' of Some (JStr n) \<Rightarrow> n | _ \<Rightarrow> []),
               (case map_of kvs ''arguments'' of Some (JObj as) \<Rightarrow> map_of as | _ \<Rightarrow> Map.empty))
      | _ \<Rightarrow> Inl ''unexpected end of JSON input'')"

definition decode_str :: "string \<Rightarrow> json option \<Rightarrow> string option" where
  "decode_str k p =
     (case p of
        Some (JObj kvs) \<Rightarrow> (case map_of kvs k of Some (JStr s) \<Rightarrow> Some s | _ \<Rightarrow> Some [])
      | _ \<Rightarrow> None)"

definition decode_prompt :: "json option \<Rightarrow> (string \<times> (string \<rightharpoonup> string)) option" where
  "decode_prompt p =
     (case p of
        Some (JObj kvs) \<Rightarrow>
          Some ((case map_of kvs ''name'' of Some (JStr n) \<Rightarrow> n | _ \<Rightarrow> []),
                (case map_of kvs ''arguments'' of
                   Some (JObj as) \<Rightarrow>
                     (\<lambda>k. case map_of as k of Some (JStr s) \<Rightarrow> Some s | _ \<Rightarrow> None)
                 | _ \<Rightarrow> Map.empty))
      | _ \<Rightarrow> None)"

definition sample_env :: env where
  "sample_env =
     \<lparr>trimSpace = trim_blanks,
      sha256hex = (\<lambda>s. ''#'' @ s),
      sql_length = length,
      sql_text_of = (\<lambda>v. ''0''),
      fts_valid = (\<lambda>q. q \<noteq> []),
      fts_match = (\<lambda>q t ds c. contains q t \<or> contains q ds \<or> contains q c),
      fts_rank = (\<lambda>q idx r. 0),
      fts_snippet = (\<lambda>q c. c),
      unmarshal_call = decode_call,
      unmarshal_cursor = (\<lambda>p. case decode_str ''cursor'' p of None \<Rightarrow> [] | Some s \<Rightarrow> s),
      unmarshal_uri = decode_str ''uri'',
      unmarshal_prompt = decode_prompt,
      cursor_offset = (\<lambda>s. int (length s)),
      cursor_encode = (\<lambda>n. replicate (nat n) CHR ''c''),
      session_id = (\<lambda>n. replicate (Suc n) CHR ''s''),
      sqlerr_text = (\<lambda>c. ''storage error'')\<rparr>"

text \<open>An entry as a caller of \<open>CreateEntry\<close> fills it.\<close>

definition new_entry :: "string \<Rightarrow> string \<Rightarrow> string \<Rightarrow> string list \<Rightarrow> Entry" where
  "new_entry s t c tgs =
     \<lparr>ID = 0, Slug = s, Title = t, Description = [], Content = c, Kind = [], Language = [],
      Domain = [], Project = [], Version = 0, CreatedAt = [], UpdatedAt = [],
      Tags = Some tgs, Snippet = []\<rparr>"

definition no_filter :: Filter where
  "no_filter = \<lparr>fKind = [], fLanguage = [], fDomain = [], fProject = [], fTag = [], fTags = []\<rparr>"

text \<open>
  The store after creating one entry on the empty database, with the tag list \<open>zoo\<close>, a
  blank name, \<open>egg\<close> and \<open>zoo\<close> again (the ignored insert of the second \<open>zoo\<close> used up
  the tag id 3).
\<close>

definition db_a :: db where
  "db_a = \<lparr>entries =
       [\<lparr>e_id = 1, e_slug = ''a'', e_title = ''Animal Guide'', e_description = [],
         e_content = ''monotreme'', e_kind = ''skill'', e_language = [], e_domain = [],
         e_project = [], e_version = 1, e_created_at = ''t0'', e_updated_at = ''t0''\<rparr>],
     entries_seq = 1,
     tags = [\<lparr>t_id = 1, t_name = ''zoo''\<rparr>, \<lparr>t_id = 2, t_name = ''egg''\<rparr>],
     tags_seq = 3,
     entry_tags = [\<lparr>et_entry_id = 1, et_tag_id = 1\<rparr>, \<lparr>et_entry_id = 1, et_tag_id = 2\<rparr>],
     entry_stats =
       [\<lparr>es_entry_id = 1, es_reads = 0, es_searches = 0, es_updates = 0,
         es_last_read_at = None, es_last_search_at = None, es_last_update_at = None\<rparr>],
     entries_fts =
       [\<lparr>fts_rowid = 1, fts_title = ''Animal Guide'', fts_description = [],
         fts_content = ''monotreme''\<rparr>],
     lock = \<lparr>lock_active = 0, lock_token = []\<rparr>\<rparr>"

subsection \<open>Reading a tool response\<close>

definition tool_entries :: "jsonrpcResponse \<Rightarrow> Entry list" where
  "tool_entries r = (case Result r of Some (ToolResult (DEntries es)) \<Rightarrow> es | _ \<Rightarrow> [])"

definition prompt_names :: "string list" where
  "prompt_names = [''apply-entry'', ''review-with-entry'', ''save-learnings'']"

text \<open>The limit as the specification words it: the requested value clamped to [1,50].\<close>

definition spec_clamp_limit :: "int \<Rightarrow> int" where
  "spec_clamp_limit limit = max 1 (min 50 limit)"

section \<open>Notions used to state the properties\<close>

text \<open>
  The key constraints of \<open>schema.sql\<close>, which every connection enforces: primary keys
  and UNIQUE columns hold distinct values; and every association points at a tag row
  (no statement of the program deletes a tag, and \<open>setTags\<close> inserts an association with
  the id that it has just read from \<open>tags\<close>). The references to \<open>entries\<close> are no part of
  it: a connection that does not enforce foreign keys leaves the rows of entry_tags and
  entry_stats behind when it deletes an entry.
\<close>

definition db_ok :: "db \<Rightarrow> bool" where
  "db_ok d =
     (distinct (map e_id (entries d)) \<and> distinct (map e_slug (entries d)) \<and>
      distinct (map t_id (tags d)) \<and> distinct (map t_name (tags d)) \<and>
      distinct (entry_tags d) \<and> distinct (map es_entry_id (entry_stats d)) \<and>
      distinct (map fts_rowid (entries_fts d)) \<and>
      (\<forall>x \<in> set (entry_tags d). et_tag_id x \<in> set (map t_id (tags d))))"

text \<open>
  The stores that the operations can produce from a new database, whatever the storage
  engine refuses on the way.
\<close>

inductive reach :: "env \<Rightarrow> db \<Rightarrow> bool" for env :: env where
  reach_open: "reach env empty_db"
| reach_create: "reach env d \<Longrightarrow> reach env (snd (CreateEntry env flt now e d))"
| reach_get: "reach env d \<Longrightarrow> reach env (snd (GetEntry flt now s d))"
| reach_update: "reach env d \<Longrightarrow> reach env (snd (UpdateEntry env flt now s flds d))"
| reach_delete: "reach env d \<Longrightarrow> reach env (snd (DeleteEntry flt s d))"
| reach_delete_ctx: "reach env d \<Longrightarrow> reach env (snd (DeleteEntry_ctx flt s d))"
| reach_search: "reach env d \<Longrightarrow> reach env (snd (SearchEntries env flt now q f limit d))"
| reach_context: "reach env d \<Longrightarrow> reach env (snd (GetEntriesByContext flt now f limit d))"
| reach_lock: "reach env d \<Longrightarrow> reach env (snd (Lock env flt token d))"
| reach_unlock: "reach env d \<Longrightarrow> reach env (snd (Unlock env flt token d))"

text \<open>The names of the tags associated with entry \<open>i\<close>.\<close>

definition assoc :: "db \<Rightarrow> int \<Rightarrow> string set" where
  "assoc d i =
     set (map t_name (filter (\<lambda>t. \<lparr>et_entry_id = i, et_tag_id = t_id t\<rparr> \<in> set (entry_tags d))
       (tags d)))"

text \<open>The names a tag list asks for: each name trimmed, blank names left out.\<close>

definition wanted :: "env \<Rightarrow> string list \<Rightarrow> string set" where
  "wanted env tgs = set (filter (\<lambda>nm. nm \<noteq> []) (map (trimSpace env) tgs))"

text \<open>The row, the index row and the statistics row of a new entry.\<close>

definition created_row :: "string \<Rightarrow> Entry \<Rightarrow> int \<Rightarrow> entry_row" where
  "created_row now e i =
     \<lparr>e_id = i, e_slug = Slug e, e_title = Title e, e_description = Description e,
      e_content = Content e, e_kind = defaultStr (Kind e) ''skill'', e_language = Language e,
      e_domain = Domain e, e_project = Project e, e_version = 1, e_created_at = now,
      e_updated_at = now\<rparr>"

definition zero_stats :: "int \<Rightarrow> stats_row" where
  "zero_stats i = \<lparr>es_entry_id = i, es_reads = 0, es_searches = 0, es_updates = 0,
     es_last_read_at = None, es_last_search_at = None, es_last_update_at = None\<rparr>"

text \<open>The index row that mirrors an entry row.\<close>

definition fts_of :: "entry_row \<Rightarrow> fts_row" where
  "fts_of r = \<lparr>fts_rowid = e_id r, fts_title = e_title r, fts_description = e_description r,
     fts_content = e_content r\<rparr>"

text \<open>
  Two stores that differ at most in the tag table and its counter: \<open>e\<close> has the tag rows
  of \<open>fin\<close> and, the counter of tag ids apart, everything else of \<open>d\<close>.
\<close>

definition same_but_tags :: "db \<Rightarrow> db \<Rightarrow> db \<Rightarrow> bool" where
  "same_but_tags d e fin =
     (entries e = entries d \<and> entries_seq e = entries_seq d \<and>
      entry_stats e = entry_stats d \<and> entries_fts e = entries_fts d \<and> lock e = lock d \<and>
      entry_tags e = entry_tags d \<and> tags e = tags fin)"

text \<open>
  A returned entry lists its tags: a non-nil slice, sorted ascending, without duplicates,
  holding the names associated with the entry.
\<close>

definition tags_listed :: "db \<Rightarrow> Entry \<Rightarrow> bool" where
  "tags_listed d e =
     (case Tags e of
        None \<Rightarrow> False
      | Some ns \<Rightarrow> sorted ns \<and> distinct ns \<and> set ns = assoc d (ID e))"

text \<open>The result of a successful \<open>setTags\<close>.\<close>

definition the_tags :: "sqlerr + (nat \<times> db) \<Rightarrow> nat \<times> db" where
  "the_tags r = (case r of Inr p \<Rightarrow> p | Inl c \<Rightarrow> (0, empty_db))"



text \<open>
  The index rows of handle \<open>i\<close>, and the index mirroring the entry: exactly one index row
  with the entry's current title, description and content, or none when there is no entry.
\<close>

definition index_rows :: "db \<Rightarrow> int \<Rightarrow> fts_row list" where
  "index_rows d i = filter (\<lambda>f. fts_rowid f = i) (entries_fts d)"

definition mirrored :: "db \<Rightarrow> int \<Rightarrow> bool" where
  "mirrored d i =
     (index_rows d i = (case find_entry_by_id d i of None \<Rightarrow> [] | Some r \<Rightarrow> [fts_of r]))"

text \<open>The store \<open>db_a\<close> after the content of its entry was updated.\<close>

definition db_b :: db where
  "db_b = \<lparr>entries =
       [\<lparr>e_id = 1, e_slug = ''a'', e_title = ''Animal Guide'', e_description = [],
         e_content = ''echidna'', e_kind = ''skill'', e_language = [], e_domain = [],
         e_project = [], e_version = 2, e_created_at = ''t0'', e_updated_at = ''t2''\<rparr>],
     entries_seq = 1,
     tags = [\<lparr>t_id = 1, t_name = ''zoo''\<rparr>, \<lparr>t_id = 2, t_name = ''egg''\<rparr>],
     tags_seq = 3,
     entry_tags = [\<lparr>et_entry_id = 1, et_tag_id = 1\<rparr>, \<lparr>et_entry_id = 1, et_tag_id = 2\<rparr>],
     entry_stats =
       [\<lparr>es_entry_id = 1, es_reads = 0, es_searches = 0, es_updates = 1,
         es_last_read_at = None, es_last_search_at = None, es_last_update_at = Some ''t2''\<rparr>],
     entries_fts =
       [\<lparr>fts_rowid = 1, fts_title = ''Animal Guide'', fts_description = [],
         fts_content = ''echidna''\<rparr>],
     lock = \<lparr>lock_active = 0, lock_token = []\<rparr>\<rparr>"

text \<open>
  The store \<open>db_a\<close> after the tags of its entry were replaced by \<open>new\<close>, a blank name,
  \<open>egg\<close> and \<open>new\<close> again: the new tag has the id 4, and the two ignored inserts used up
  the ids 5 and 6.
\<close>

definition db_c :: db where
  "db_c = db_a\<lparr>tags := [\<lparr>t_id = 1, t_name = ''zoo''\<rparr>, \<lparr>t_id = 2, t_name = ''egg''\<rparr>,
                        \<lparr>t_id = 4, t_name = ''new''\<rparr>],
               tags_seq := 6,
               entry_tags := [\<lparr>et_entry_id = 1, et_tag_id = 4\<rparr>,
                              \<lparr>et_entry_id = 1, et_tag_id = 2\<rparr>]\<rparr>"

text \<open>
  The store with the lock row set by \<open>Lock\<close> for a secret, the store with the lock row
  cleared by \<open>Unlock\<close>, and the answer of a write tool that \<open>checkLock\<close> stops.
\<close>

definition locked_by :: "env \<Rightarrow> string \<Rightarrow> db \<Rightarrow> db" where
  "locked_by env token d = d\<lparr>lock := \<lparr>lock_active = 1, lock_token = hashToken env token\<rparr>\<rparr>"

definition unlocked :: "db \<Rightarrow> db" where
  "unlocked d = d\<lparr>lock := \<lparr>lock_active = 0, lock_token = []\<rparr>\<rparr>"

definition locked_error :: "json option \<Rightarrow> jsonrpcResponse" where
  "locked_error i = toolError i ''database is locked. Write operations are disabled''"

section \<open>Evaluation rules\<close>

lemmas stmt_defs = exec_def next_rowid_def find_entry_by_slug_def find_entry_by_id_def
  insert_entries_def insert_fts_def delete_fts_def insert_stats_def delete_entry_tags_def
  upsert_tag_def select_tag_id_def insert_entry_tag_def delete_entries_def bump_reads_def
  bump_searches_def bump_updates_def defaultStr_def slice_items_def no_faults_def
  fault_at_def second_conn_def

lemmas op_defs = setTags_def tag_names_of_def getTagsForEntry_def CreateEntry_tx_def
  CreateEntry_def entry_of_row_def GetEntry_def bind_text_def update_cols_def col_val_def
  col_unbindable_def col_null_def set_row_def update_entries_def tag_list_of_def
  UpdateEntry_tags_def UpdateEntry_tx_def UpdateEntry_def DeleteEntry_def DeleteEntry_ctx_def
  filter_ok_def tag_joins_def tags_joins_def list_rows_def ListEntries_def AllEntries_def
  search_limit_def fts_cols_def search_rows_def search_hits_def search_entry_def
  SearchEntries_def context_limit_def context_rows_def GetEntriesByContext_def ListTags_def
  GetStats_def IsLocked_def Lock_def Unlock_def hashToken_def

lemmas mcp_defs = rpcResult_def rpcErr_def toolResult_def toolError_def error_text_def
  str_def intVal_def strSlice_def trimPrefix_def checkLock_def toolSearchEntries_def
  toolGetEntry_def toolGetEntriesByContext_def toolListEntries_def toolListTags_def
  toolCreateEntry_def update_fields_def toolUpdateEntry_def toolDeleteEntry_def
  handleToolsCall_def handleInitialize_def toolDefinitions_def handleToolsList_def
  resourcesPerPage_def int64_def resource_of_def handleResourcesList_def handleResourcesRead_def
  handleResourcesTemplatesList_def handlePromptsList_def handlePromptsGet_def
  method_table_def with_db_def dispatch_def tool_entries_def prompt_names_def

lemmas sample_defs = sample_env_def trim_blanks_def decode_call_def decode_str_def
  decode_prompt_def new_entry_def no_filter_def db_a_def empty_db_def

section \<open>The statements keep the key constraints\<close>


lemma foldr_max_ge: "x \<in> set ids \<Longrightarrow> x \<le> foldr max ids (s::int)"
  by (induction ids) auto

lemma next_rowid_fresh: "x \<in> set ids \<Longrightarrow> x < next_rowid s ids"
  using foldr_max_ge [of x ids s] by (simp add: next_rowid_def)

lemma next_rowid_notin: "next_rowid s ids \<notin> set ids"
  using next_rowid_fresh [of "next_rowid s ids" ids s] by auto

lemma next_rowid_neq: "x \<in> set xs \<Longrightarrow> next_rowid s (map f xs) \<noteq> f x"
  using next_rowid_notin [of s "map f xs"] by auto

lemma exec_Inr: "exec flt n r = Inr x \<longleftrightarrow> \<not> refused flt n \<and> r = Inr x"
  by (simp add: exec_def)

lemma select_tag_id_in:
  "select_tag_id nm d = Some tid \<Longrightarrow> tid \<in> set (map t_id (tags d))"
  by (auto simp: select_tag_id_def find_Some_iff)

lemma insert_entries_ok:
  "insert_entries env now e d = Inr (i, d') \<Longrightarrow> db_ok d \<Longrightarrow> db_ok d'"
  by (auto simp: insert_entries_def db_ok_def Let_def next_rowid_notin next_rowid_neq split: if_splits)

lemma insert_fts_ok: "insert_fts i t ds c d = Inr d' \<Longrightarrow> db_ok d \<Longrightarrow> db_ok d'"
  by (auto simp: insert_fts_def db_ok_def split: if_splits)

lemma insert_stats_ok: "insert_stats fk i d = Inr d' \<Longrightarrow> db_ok d \<Longrightarrow> db_ok d'"
  by (auto simp: insert_stats_def db_ok_def split: if_splits)

lemma delete_fts_ok: "db_ok d \<Longrightarrow> db_ok (delete_fts i d)"
  by (auto simp: delete_fts_def db_ok_def distinct_map_filter)

lemma delete_entry_tags_ok: "db_ok d \<Longrightarrow> db_ok (delete_entry_tags i d)"
  by (auto simp: delete_entry_tags_def db_ok_def)

lemma upsert_tag_ok: "db_ok d \<Longrightarrow> db_ok (upsert_tag nm d)"
  by (auto simp: upsert_tag_def db_ok_def Let_def next_rowid_notin next_rowid_neq)

lemma insert_entry_tag_ok:
  "insert_entry_tag fk i tid d = Inr d' \<Longrightarrow> tid \<in> set (map t_id (tags d)) \<Longrightarrow> db_ok d
     \<Longrightarrow> db_ok d'"
  by (auto simp: insert_entry_tag_def db_ok_def split: if_splits)

lemma delete_entries_ok: "db_ok d \<Longrightarrow> db_ok (delete_entries fk i d)"
  by (auto simp: delete_entries_def db_ok_def distinct_map_filter)

lemma delete_entries_frame:
  "entries (delete_entries fk i d) = filter (\<lambda>r. e_id r \<noteq> i) (entries d)"
  "entries_seq (delete_entries fk i d) = entries_seq d"
  "tags (delete_entries fk i d) = tags d" "tags_seq (delete_entries fk i d) = tags_seq d"
  "entries_fts (delete_entries fk i d) = entries_fts d" "lock (delete_entries fk i d) = lock d"
  by (simp_all add: delete_entries_def)

lemma bump_keys:
  "map es_entry_id (entry_stats (bump_reads now i d)) = map es_entry_id (entry_stats d)"
  "map es_entry_id (entry_stats (bump_searches now i d)) = map es_entry_id (entry_stats d)"
  "map es_entry_id (entry_stats (bump_updates now i d)) = map es_entry_id (entry_stats d)"
  by (simp_all add: bump_reads_def bump_searches_def bump_updates_def o_def
      if_distrib [of es_entry_id] cong: if_cong)

lemma bump_frame:
  "entries (bump_reads now i d) = entries d" "tags (bump_reads now i d) = tags d"
  "entry_tags (bump_reads now i d) = entry_tags d" "entries_fts (bump_reads now i d) = entries_fts d"
  "lock (bump_reads now i d) = lock d"
  "entries (bump_searches now i d) = entries d" "tags (bump_searches now i d) = tags d"
  "entry_tags (bump_searches now i d) = entry_tags d"
  "entries_fts (bump_searches now i d) = entries_fts d"
  "lock (bump_searches now i d) = lock d"
  "entries (bump_updates now i d) = entries d" "tags (bump_updates now i d) = tags d"
  "entry_tags (bump_updates now i d) = entry_tags d"
  "entries_fts (bump_updates now i d) = entries_fts d"
  "lock (bump_updates now i d) = lock d"
  by (simp_all add: bump_reads_def bump_searches_def bump_updates_def)

lemma db_ok_keys:
  "db_ok d =
     (distinct (map e_id (entries d)) \<and> distinct (map e_slug (entries d)) \<and>
      distinct (map t_id (tags d)) \<and> distinct (map t_name (tags d)) \<and>
      distinct (entry_tags d) \<and> distinct (map es_entry_id (entry_stats d)) \<and>
      distinct (map fts_rowid (entries_fts d)) \<and>
      (\<forall>x \<in> set (entry_tags d). et_tag_id x \<in> set (map t_id (tags d))))"
  by (simp add: db_ok_def)

lemma bump_ok:
  "db_ok d \<Longrightarrow> db_ok (bump_reads now i d)"
  "db_ok d \<Longrightarrow> db_ok (bump_searches now i d)"
  "db_ok d \<Longrightarrow> db_ok (bump_updates now i d)"
  by (simp_all only: db_ok_keys bump_keys bump_frame) blast+

lemma setTags_loop_ok:
  "setTags_loop env flt n i tgs d = Inr (m, d') \<Longrightarrow> db_ok d \<Longrightarrow> db_ok d'"
proof (induction tgs arbitrary: n d)
  case Nil
  then show ?case by simp
next
  case (Cons raw rest)
  show ?case
  proof (cases "trimSpace env raw = []")
    case True
    with Cons show ?thesis by simp
  next
    case False
    with Cons.prems obtain tid d2 where
      a: "\<not> refused flt n" and b: "select_tag_id (trimSpace env raw) (upsert_tag (trimSpace env raw) d) = Some tid"
      and c: "insert_entry_tag (foreign_keys flt) i tid (upsert_tag (trimSpace env raw) d) = Inr d2"
      and e: "setTags_loop env flt (n + 2) i rest d2 = Inr (m, d')"
      by (auto simp: exec_def split: if_splits option.splits sum.splits)
    have "db_ok d2"
      using insert_entry_tag_ok [OF c select_tag_id_in [OF b]] Cons.prems(2)
      by (auto intro: upsert_tag_ok)
    then show ?thesis using Cons.IH [OF e] by simp
  qed
qed

lemma setTags_ok: "setTags env flt n i tgs d = Inr (m, d') \<Longrightarrow> db_ok d \<Longrightarrow> db_ok d'"
  by (auto simp: setTags_def exec_def split: if_splits
      intro: setTags_loop_ok delete_entry_tags_ok)

lemma upsert_tag_frame:
  "entries (upsert_tag nm d) = entries d" "entries_seq (upsert_tag nm d) = entries_seq d"
  "entry_tags (upsert_tag nm d) = entry_tags d" "entry_stats (upsert_tag nm d) = entry_stats d"
  "entries_fts (upsert_tag nm d) = entries_fts d" "lock (upsert_tag nm d) = lock d"
  by (simp_all add: upsert_tag_def Let_def)

lemma insert_entry_tag_frame:
  assumes "insert_entry_tag fk i tid d = Inr d'"
  shows "entries d' = entries d" "entries_seq d' = entries_seq d" "tags d' = tags d"
    "tags_seq d' = tags_seq d" "entry_stats d' = entry_stats d"
    "entries_fts d' = entries_fts d" "lock d' = lock d"
  using assms by (auto simp: insert_entry_tag_def split: if_splits)

lemma setTags_loop_frame:
  "setTags_loop env flt n i tgs d = Inr (m, d') \<Longrightarrow>
     entries d' = entries d \<and> entries_seq d' = entries_seq d \<and>
     entry_stats d' = entry_stats d \<and> entries_fts d' = entries_fts d \<and> lock d' = lock d"
proof (induction tgs arbitrary: n d)
  case Nil
  then show ?case by simp
next
  case (Cons raw rest)
  show ?case
  proof (cases "trimSpace env raw = []")
    case True
    with Cons show ?thesis by simp
  next
    case False
    with Cons.prems obtain tid d2 where
      c: "insert_entry_tag (foreign_keys flt) i tid (upsert_tag (trimSpace env raw) d) = Inr d2"
      and e: "setTags_loop env flt (n + 2) i rest d2 = Inr (m, d')"
      by (auto simp: exec_def split: if_splits option.splits sum.splits)
    show ?thesis
      using Cons.IH [OF e] insert_entry_tag_frame [OF c] by (simp add: upsert_tag_frame)
  qed
qed

lemma setTags_frame:
  "setTags env flt n i tgs d = Inr (m, d') \<Longrightarrow>
     entries d' = entries d \<and> entries_seq d' = entries_seq d \<and>
     entry_stats d' = entry_stats d \<and> entries_fts d' = entries_fts d \<and> lock d' = lock d"
  by (auto simp: setTags_def exec_def delete_entry_tags_def split: if_splits
      dest!: setTags_loop_frame)

lemma CreateEntry_tx_Inr:
  assumes "CreateEntry_tx env flt now e d = Inr (i, d')"
  shows "Slug e \<notin> set (map e_slug (entries d))"
    and "sql_length env (Content e) \<le> 32768"
    and "i = next_rowid (entries_seq d) (map e_id (entries d))"
    and "i \<notin> set (map fts_rowid (entries_fts d))"
    and "i \<notin> set (map es_entry_id (entry_stats d))"
    and "\<exists>m. setTags env flt 4 i (slice_items (Tags e))
           (d\<lparr>entries := entries d @ [created_row now e i], entries_seq := i,
              entries_fts := entries_fts d @ [fts_of (created_row now e i)],
              entry_stats := entry_stats d @ [zero_stats i]\<rparr>) = Inr (m, d')"
  using assms
  by (auto simp: CreateEntry_tx_def exec_def insert_entries_def insert_fts_def
      insert_stats_def Let_def created_row_def zero_stats_def fts_of_def
      split: if_splits sum.splits prod.splits)

lemma CreateEntry_tx_tables:
  assumes "CreateEntry_tx env flt now e d = Inr (i, d')"
  shows "entries d' = entries d @ [created_row now e i]"
    and "entries_seq d' = i"
    and "entries_fts d' = entries_fts d @ [fts_of (created_row now e i)]"
    and "entry_stats d' = entry_stats d @ [zero_stats i]"
    and "lock d' = lock d"
  using CreateEntry_tx_Inr(6) [OF assms] by (auto dest!: setTags_frame)

lemma et_eq: "(et_tag_id et = a \<and> et_entry_id et = b) \<longleftrightarrow> et = \<lparr>et_entry_id = b, et_tag_id = a\<rparr>"
  by (cases et) auto

lemma set_tag_names_of: "set (tag_names_of d i) = assoc d i"
  by (auto simp: tag_names_of_def assoc_def et_eq)

lemma select_tag_id_Some:
  "select_tag_id nm d = Some tid \<Longrightarrow> \<exists>t \<in> set (tags d). t_name t = nm \<and> t_id t = tid"
  by (auto simp: select_tag_id_def find_Some_iff)

lemma assoc_upsert: "db_ok d \<Longrightarrow> assoc (upsert_tag nm d) j = assoc d j"
  by (auto simp: assoc_def upsert_tag_def Let_def db_ok_def next_rowid_neq
      dest!: bspec)

lemma tag_by_id: "db_ok d \<Longrightarrow> t \<in> set (tags d) \<Longrightarrow> t' \<in> set (tags d) \<Longrightarrow> t_id t = t_id t'
   \<Longrightarrow> t = t'"
  by (auto simp: db_ok_def distinct_map inj_on_def)

lemma assoc_insert:
  assumes "db_ok d" and "select_tag_id nm d = Some tid" and "insert_entry_tag (foreign_keys flt) i tid d = Inr d2"
  shows "assoc d2 j = (if j = i then insert nm (assoc d i) else assoc d j)"
proof -
  obtain t where t: "t \<in> set (tags d)" "t_name t = nm" "t_id t = tid"
    using select_tag_id_Some [OF assms(2)] by auto
  show ?thesis
  proof (cases "\<lparr>et_entry_id = i, et_tag_id = tid\<rparr> \<in> set (entry_tags d)")
    case True
    then have "d2 = d" using assms(3) by (simp add: insert_entry_tag_def)
    moreover have "nm \<in> assoc d i" using True t by (auto simp: assoc_def)
    ultimately show ?thesis by auto
  next
    case False
    then have d2: "tags d2 = tags d"
      "entry_tags d2 = entry_tags d @ [\<lparr>et_entry_id = i, et_tag_id = tid\<rparr>]"
      using assms(3) by (auto simp: insert_entry_tag_def split: if_splits)
    show ?thesis
      using t tag_by_id [OF assms(1)] by (auto simp: assoc_def d2)
  qed
qed

lemma setTags_loop_assoc:
  "setTags_loop env flt n i tgs d = Inr (m, d') \<Longrightarrow> db_ok d \<Longrightarrow>
     assoc d' j = (if j = i then assoc d i \<union> wanted env tgs else assoc d j)"
proof (induction tgs arbitrary: n d)
  case Nil
  then show ?case by (simp add: wanted_def)
next
  case (Cons raw rest)
  show ?case
  proof (cases "trimSpace env raw = []")
    case True
    with Cons show ?thesis by (auto simp: wanted_def)
  next
    case False
    with Cons.prems obtain tid d2 where
      b: "select_tag_id (trimSpace env raw) (upsert_tag (trimSpace env raw) d) = Some tid"
      and c: "insert_entry_tag (foreign_keys flt) i tid (upsert_tag (trimSpace env raw) d) = Inr d2"
      and e: "setTags_loop env flt (n + 2) i rest d2 = Inr (m, d')"
      by (auto simp: exec_def split: if_splits option.splits sum.splits)
    have ok1: "db_ok (upsert_tag (trimSpace env raw) d)" using Cons.prems(2) by (rule upsert_tag_ok)
    have ok2: "db_ok d2" using insert_entry_tag_ok [OF c select_tag_id_in [OF b] ok1] .
    have s: "assoc d2 j = (if j = i then insert (trimSpace env raw) (assoc d i) else assoc d j)"
      using assoc_insert [OF ok1 b c] assoc_upsert [OF Cons.prems(2)] by simp
    have w: "wanted env (raw # rest) = insert (trimSpace env raw) (wanted env rest)"
      using False by (auto simp: wanted_def)
    show ?thesis using Cons.IH [OF e ok2] s assoc_insert [OF ok1 b c, of i]
        assoc_upsert [OF Cons.prems(2), of _ i] by (auto simp: w)
  qed
qed

lemma assoc_delete: "assoc (delete_entry_tags i d) j = (if j = i then {} else assoc d j)"
  by (auto simp: assoc_def delete_entry_tags_def)

lemma setTags_assoc:
  "setTags env flt n i tgs d = Inr (m, d') \<Longrightarrow> db_ok d \<Longrightarrow>
     assoc d' j = (if j = i then wanted env tgs else assoc d j)"
  using setTags_loop_assoc [of env flt "n + 1" i tgs "delete_entry_tags i d" m d' j]
  by (auto simp: setTags_def exec_def assoc_delete delete_entry_tags_ok split: if_splits)

lemma upsert_tag_tags:
  "\<exists>ys. tags (upsert_tag nm d) = tags d @ ys"
  by (simp add: upsert_tag_def Let_def)

lemma upsert_tag_has: "nm \<in> set (map t_name (tags (upsert_tag nm d)))"
  by (simp add: upsert_tag_def Let_def)

lemma upsert_tag_ignored:
  "nm \<in> set (map t_name (tags d)) \<Longrightarrow>
     upsert_tag nm d = d\<lparr>tags_seq := next_rowid (tags_seq d) (map t_id (tags d))\<rparr>"
  by (simp add: upsert_tag_def Let_def)

lemma select_tag_id_upsert:
  "\<exists>tid. select_tag_id nm (upsert_tag nm d) = Some tid"
proof -
  have "nm \<in> set (map t_name (tags (upsert_tag nm d)))" by (rule upsert_tag_has)
  then have "find (\<lambda>t. t_name t = nm) (tags (upsert_tag nm d)) \<noteq> None"
    by (auto simp: find_None_iff)
  then show ?thesis by (auto simp: select_tag_id_def)
qed

lemma setTags_loop_tags_prefix:
  "setTags_loop env flt n i tgs d = Inr (m, d') \<Longrightarrow> \<exists>ys. tags d' = tags d @ ys"
proof (induction tgs arbitrary: n d)
  case Nil
  then show ?case by simp
next
  case (Cons raw rest)
  show ?case
  proof (cases "trimSpace env raw = []")
    case True
    with Cons show ?thesis by simp
  next
    case False
    with Cons.prems obtain tid d2 where
      c: "insert_entry_tag (foreign_keys flt) i tid (upsert_tag (trimSpace env raw) d) = Inr d2"
      and e: "setTags_loop env flt (n + 2) i rest d2 = Inr (m, d')"
      by (auto simp: exec_def split: if_splits option.splits sum.splits)
    obtain ys where "tags d' = tags d2 @ ys" using Cons.IH [OF e] by auto
    moreover obtain zs where "tags (upsert_tag (trimSpace env raw) d) = tags d @ zs"
      using upsert_tag_tags by blast
    ultimately show ?thesis using insert_entry_tag_frame(3) [OF c] by simp
  qed
qed

lemma setTags_loop_others:
  "setTags_loop env flt n i tgs d = Inr (m, d') \<Longrightarrow>
     filter (\<lambda>r. et_entry_id r \<noteq> i) (entry_tags d') = filter (\<lambda>r. et_entry_id r \<noteq> i) (entry_tags d)"
proof (induction tgs arbitrary: n d)
  case Nil
  then show ?case by simp
next
  case (Cons raw rest)
  show ?case
  proof (cases "trimSpace env raw = []")
    case True
    with Cons show ?thesis by simp
  next
    case False
    with Cons.prems obtain tid d2 where
      c: "insert_entry_tag (foreign_keys flt) i tid (upsert_tag (trimSpace env raw) d) = Inr d2"
      and e: "setTags_loop env flt (n + 2) i rest d2 = Inr (m, d')"
      by (auto simp: exec_def split: if_splits option.splits sum.splits)
    have "filter (\<lambda>r. et_entry_id r \<noteq> i) (entry_tags d2)
        = filter (\<lambda>r. et_entry_id r \<noteq> i) (entry_tags d)"
      using c by (auto simp: insert_entry_tag_def upsert_tag_frame split: if_splits)
    then show ?thesis using Cons.IH [OF e] by simp
  qed
qed

lemma find_append_left: "find P xs = Some x \<Longrightarrow> find P (xs @ ys) = Some x"
  by (induction xs) auto

lemma select_tag_id_prefix:
  "select_tag_id nm d = Some tid \<Longrightarrow> tags e = tags d @ ys \<Longrightarrow> select_tag_id nm e = Some tid"
  by (auto simp: select_tag_id_def dest: find_append_left)

lemma setTags_loop_idem:
  "setTags_loop env flt n i tgs d = Inr (m, fin) \<Longrightarrow> same_but_tags d e fin \<Longrightarrow>
   setTags_loop env flt' n' i tgs e = Inr (m', e') \<Longrightarrow> e' = fin\<lparr>tags_seq := tags_seq e'\<rparr>"
proof (induction tgs arbitrary: n d e n')
  case Nil
  then show ?case by (auto simp: same_but_tags_def intro: db.equality)
next
  case (Cons raw rest)
  let ?nm = "trimSpace env raw"
  show ?case
  proof (cases "?nm = []")
    case True
    with Cons show ?thesis by simp
  next
    case False
    with Cons.prems(1) obtain tid d2 where
      b: "select_tag_id ?nm (upsert_tag ?nm d) = Some tid"
      and c: "insert_entry_tag (foreign_keys flt) i tid (upsert_tag ?nm d) = Inr d2"
      and e: "setTags_loop env flt (n + 2) i rest d2 = Inr (m, fin)"
      by (auto simp: exec_def split: if_splits option.splits sum.splits)
    from False Cons.prems(3) obtain tid' e2 where
      b': "select_tag_id ?nm (upsert_tag ?nm e) = Some tid'"
      and c': "insert_entry_tag (foreign_keys flt') i tid' (upsert_tag ?nm e) = Inr e2"
      and e': "setTags_loop env flt' (n' + 2) i rest e2 = Inr (m', e')"
      by (auto simp: exec_def split: if_splits option.splits sum.splits)
    obtain ys where ys: "tags fin = tags d2 @ ys" using setTags_loop_tags_prefix [OF e] by auto
    have t2: "tags d2 = tags (upsert_tag ?nm d)" using insert_entry_tag_frame(3) [OF c] .
    have te: "tags e = tags (upsert_tag ?nm d) @ ys"
      using Cons.prems(2) ys t2 by (simp add: same_but_tags_def)
    have "?nm \<in> set (map t_name (tags e))"
      using upsert_tag_has [of ?nm d] te by auto
    then have ue: "upsert_tag ?nm e = e\<lparr>tags_seq := next_rowid (tags_seq e) (map t_id (tags e))\<rparr>"
      by (rule upsert_tag_ignored)
    have "select_tag_id ?nm (upsert_tag ?nm e) = select_tag_id ?nm e"
      by (simp add: ue select_tag_id_def)
    then have tid: "tid' = tid" using select_tag_id_prefix [OF b te] b' by simp
    have "same_but_tags d2 e2 fin"
      using c c' Cons.prems(2) unfolding ue tid
      by (auto simp: same_but_tags_def insert_entry_tag_def upsert_tag_frame split: if_splits)
    then show ?thesis using Cons.IH [OF e _ e'] by simp
  qed
qed

lemma filter_filter_same: "filter P (filter P xs) = filter P xs"
  by simp

lemma setTags_idem:
  assumes "setTags env flt n i tgs d = Inr (m, d1)"
    and "setTags env flt' n' i tgs d1 = Inr (m', d2)"
  shows "d2 = d1\<lparr>tags_seq := tags_seq d2\<rparr>"
proof -
  let ?d0 = "delete_entry_tags i d" and ?e0 = "delete_entry_tags i d1"
  have r1: "setTags_loop env flt (n + 1) i tgs ?d0 = Inr (m, d1)"
    using assms(1) by (auto simp: setTags_def exec_def split: if_splits)
  have r2: "setTags_loop env flt' (n' + 1) i tgs ?e0 = Inr (m', d2)"
    using assms(2) by (auto simp: setTags_def exec_def split: if_splits)
  have "filter (\<lambda>r. et_entry_id r \<noteq> i) (entry_tags d1) = entry_tags ?d0"
    using setTags_loop_others [OF r1] by (simp add: delete_entry_tags_def)
  then have "same_but_tags ?d0 ?e0 d1"
    using setTags_loop_frame [OF r1] by (simp add: same_but_tags_def delete_entry_tags_def)
  then show ?thesis using setTags_loop_idem [OF r1 _ r2] by simp
qed

lemma setTags_loop_blank:
  "setTags_loop env flt n i tgs d
     = setTags_loop env flt n i (filter (\<lambda>t. trimSpace env t \<noteq> []) tgs) d"
  by (induction tgs arbitrary: n d) (auto split: sum.splits option.splits)

lemma setTags_blank:
  "setTags env flt n i tgs d = setTags env flt n i (filter (\<lambda>t. trimSpace env t \<noteq> []) tgs) d"
  using setTags_loop_blank [of env flt "n + 1" i tgs]
  by (simp add: setTags_def split: sum.splits)

lemma insert_entry_tag_succeeds:
  "tid \<in> set (map t_id (tags d)) \<Longrightarrow> fk \<longrightarrow> i \<in> set (map e_id (entries d)) \<Longrightarrow>
     \<exists>d2. insert_entry_tag fk i tid d = Inr d2"
  by (auto simp: insert_entry_tag_def)

lemma setTags_loop_succeeds:
  "\<forall>k. \<not> refused flt k \<Longrightarrow> foreign_keys flt \<longrightarrow> i \<in> set (map e_id (entries d)) \<Longrightarrow>
     \<exists>m d'. setTags_loop env flt n i tgs d = Inr (m, d')"
proof (induction tgs arbitrary: n d)
  case Nil
  then show ?case by simp
next
  case (Cons raw rest)
  let ?nm = "trimSpace env raw"
  show ?case
  proof (cases "?nm = []")
    case True
    with Cons show ?thesis by simp
  next
    case False
    obtain tid where b: "select_tag_id ?nm (upsert_tag ?nm d) = Some tid"
      using select_tag_id_upsert by blast
    have tin: "tid \<in> set (map t_id (tags (upsert_tag ?nm d)))"
      using b by (rule select_tag_id_in)
    obtain d2 where c: "insert_entry_tag (foreign_keys flt) i tid (upsert_tag ?nm d) = Inr d2"
      using insert_entry_tag_succeeds [OF tin, of "foreign_keys flt" i] Cons.prems(2)
      by (auto simp: upsert_tag_frame)
    have "entries d2 = entries d"
      using insert_entry_tag_frame(1) [OF c] by (simp add: upsert_tag_frame)
    then obtain m d' where "setTags_loop env flt (n + 2) i rest d2 = Inr (m, d')"
      using Cons.IH [OF Cons.prems(1), of d2 "n + 2"] Cons.prems(2) by auto
    then show ?thesis using False b c Cons.prems(1) by (simp add: exec_def)
  qed
qed

lemma setTags_succeeds:
  "\<forall>k. \<not> refused flt k \<Longrightarrow> foreign_keys flt \<longrightarrow> i \<in> set (map e_id (entries d)) \<Longrightarrow>
     \<exists>m d'. setTags env flt n i tgs d = Inr (m, d')"
  using setTags_loop_succeeds [of flt i "delete_entry_tags i d" env "n + 1" tgs]
  by (simp add: setTags_def exec_def delete_entry_tags_def)

lemma upsert_tag_names:
  "set (map t_name (tags (upsert_tag nm d))) = insert nm (set (map t_name (tags d)))"
  by (auto simp: upsert_tag_def Let_def)

lemma setTags_loop_names:
  "setTags_loop env flt n i tgs d = Inr (m, d') \<Longrightarrow>
     set (map t_name (tags d')) = set (map t_name (tags d)) \<union> wanted env tgs"
proof (induction tgs arbitrary: n d)
  case Nil
  then show ?case by (simp add: wanted_def)
next
  case (Cons raw rest)
  show ?case
  proof (cases "trimSpace env raw = []")
    case True
    with Cons show ?thesis by (auto simp: wanted_def)
  next
    case False
    with Cons.prems obtain tid d2 where
      c: "insert_entry_tag (foreign_keys flt) i tid (upsert_tag (trimSpace env raw) d) = Inr d2"
      and e: "setTags_loop env flt (n + 2) i rest d2 = Inr (m, d')"
      by (auto simp: exec_def split: if_splits option.splits sum.splits)
    have "tags d2 = tags (upsert_tag (trimSpace env raw) d)"
      using insert_entry_tag_frame(3) [OF c] .
    then have "set (map t_name (tags d2))
        = insert (trimSpace env raw) (set (map t_name (tags d)))"
      using upsert_tag_names [of "trimSpace env raw" d] by simp
    moreover have "wanted env (raw # rest) = insert (trimSpace env raw) (wanted env rest)"
      using False by (auto simp: wanted_def)
    ultimately show ?thesis using Cons.IH [OF e] by auto
  qed
qed

lemma setTags_names:
  "setTags env flt n i tgs d = Inr (m, d') \<Longrightarrow>
     set (map t_name (tags d')) = set (map t_name (tags d)) \<union> wanted env tgs"
  using setTags_loop_names [of env flt "n + 1" i tgs "delete_entry_tags i d" m d']
  by (auto simp: setTags_def exec_def delete_entry_tags_def split: if_splits)

lemma filter_eq_distinct:
  "distinct xs \<Longrightarrow> filter (\<lambda>x. x = v) xs = (if v \<in> set xs then [v] else [])"
  by (induction xs) auto

lemma pair_rows_distinct:
  assumes "distinct (ets :: et_row list)"
  shows "distinct (map (\<lambda>et. c) (filter (\<lambda>et. et_tag_id et = a \<and> et_entry_id et = b) ets))"
proof -
  have "filter (\<lambda>et. et_tag_id et = a \<and> et_entry_id et = b) ets
      = filter (\<lambda>et. et = \<lparr>et_entry_id = b, et_tag_id = a\<rparr>) ets"
    by (rule filter_cong) (auto simp: et_eq)
  then show ?thesis using assms by (simp add: filter_eq_distinct)
qed

lemma tag_concat_distinct:
  "distinct (map t_name (ts :: tag_row list)) \<Longrightarrow> distinct (ets :: et_row list) \<Longrightarrow>
   distinct (concat (map (\<lambda>t. map (\<lambda>et. t_name t)
       (filter (\<lambda>et. et_tag_id et = t_id t \<and> et_entry_id et = i) ets)) ts))"
  by (induction ts) (auto simp: pair_rows_distinct)

lemma tag_names_of_sorted: "sorted (tag_names_of d i)"
  by (simp add: tag_names_of_def)

lemma tag_names_of_distinct: "db_ok d \<Longrightarrow> distinct (tag_names_of d i)"
  by (simp add: tag_names_of_def db_ok_def tag_concat_distinct)

lemma getTagsForEntry_eq: "getTagsForEntry d i = Some (tag_names_of d i)"
  by (simp add: getTagsForEntry_def Let_def)

lemma update_keys:
  assumes "update_entries env now flds i d = Inr d'"
  shows "map e_id (entries d') = map e_id (entries d)"
    and "map e_slug (entries d') = map e_slug (entries d)"
    and "entries_seq d' = entries_seq d" and "tags d' = tags d" and "tags_seq d' = tags_seq d"
    and "entry_tags d' = entry_tags d" and "entry_stats d' = entry_stats d"
    and "entries_fts d' = entries_fts d" and "lock d' = lock d"
  using assms
  by (auto simp: update_entries_def set_row_def o_def if_distrib [of e_id]
      if_distrib [of e_slug] split: if_splits cong: if_cong)

lemma update_entries_ok:
  assumes "update_entries env now flds i d = Inr d'" and "db_ok d"
  shows "db_ok d'"
  using assms(2) unfolding db_ok_keys update_keys [OF assms(1)] by blast

lemma CreateEntry_tx_ok:
  assumes "CreateEntry_tx env flt now e d = Inr (i, d')" and "db_ok d"
  shows "db_ok d'"
proof -
  obtain m where s: "setTags env flt 4 i (slice_items (Tags e))
           (d\<lparr>entries := entries d @ [created_row now e i], entries_seq := i,
              entries_fts := entries_fts d @ [fts_of (created_row now e i)],
              entry_stats := entry_stats d @ [zero_stats i]\<rparr>) = Inr (m, d')"
    using CreateEntry_tx_Inr(6) [OF assms(1)] by blast
  have "db_ok (d\<lparr>entries := entries d @ [created_row now e i], entries_seq := i,
              entries_fts := entries_fts d @ [fts_of (created_row now e i)],
              entry_stats := entry_stats d @ [zero_stats i]\<rparr>)"
    using assms(2) CreateEntry_tx_Inr(1,3,4,5) [OF assms(1)]
    by (auto simp: db_ok_def created_row_def fts_of_def zero_stats_def next_rowid_notin
        next_rowid_neq)
  then show ?thesis using setTags_ok [OF s] by simp
qed

lemma CreateEntry_ok:
  assumes "db_ok d"
  shows "db_ok (snd (CreateEntry env flt now e d))"
  using assms
  by (auto simp: CreateEntry_def split: sum.splits option.splits dest: CreateEntry_tx_ok)




lemma UpdateEntry_tx_Inr:
  assumes "UpdateEntry_tx env flt now s flds d = Inr d'"
  shows "\<exists>r0 d1 r d3 n d4.
      find_entry_by_slug d s = Some r0 \<and>
      update_entries env now flds (e_id r0) d = Inr d1 \<and>
      find_entry_by_id (delete_fts (e_id r0) d1) (e_id r0) = Some r \<and>
      insert_fts (e_id r0) (e_title r) (e_description r) (e_content r)
        (delete_fts (e_id r0) d1) = Inr d3 \<and>
      UpdateEntry_tags env flt flds (e_id r0) d3 = Inr (n, d4) \<and>
      d' = bump_updates now (e_id r0) d4"
  using assms
  by (auto simp: UpdateEntry_tx_def exec_def Let_def
      split: if_splits option.splits sum.splits)

lemma UpdateEntry_tx_ok:
  assumes "UpdateEntry_tx env flt now s flds d = Inr d'" and "db_ok d"
  shows "db_ok d'"
proof -
  from UpdateEntry_tx_Inr [OF assms(1)] obtain r0 r :: entry_row and d1 d3 n d4 where
    u: "update_entries env now flds (e_id r0) d = Inr d1"
    and f: "insert_fts (e_id r0) (e_title r) (e_description r) (e_content r)
              (delete_fts (e_id r0) d1) = Inr d3"
    and t: "UpdateEntry_tags env flt flds (e_id r0) d3 = Inr (n, d4)"
    and b: "d' = bump_updates now (e_id r0) d4"
    by blast
  have 1: "db_ok d3"
    using update_entries_ok [OF u assms(2)] insert_fts_ok [OF f] delete_fts_ok by blast
  have "db_ok d4"
    using t 1 by (auto simp: UpdateEntry_tags_def split: option.splits dest: setTags_ok)
  then show ?thesis using b by (simp add: bump_ok)
qed

lemma UpdateEntry_ok: "db_ok d \<Longrightarrow> db_ok (snd (UpdateEntry env flt now s flds d))"
  by (auto simp: UpdateEntry_def split: sum.splits dest: UpdateEntry_tx_ok)

lemma DeleteEntry_ok: "db_ok d \<Longrightarrow> db_ok (snd (DeleteEntry flt s d))"
  by (auto simp: DeleteEntry_def exec_def delete_fts_ok delete_entries_ok
      split: option.splits)

lemma DeleteEntry_ctx_ok: "db_ok d \<Longrightarrow> db_ok (snd (DeleteEntry_ctx flt s d))"
  by (auto simp: DeleteEntry_ctx_def exec_def delete_fts_ok delete_entries_ok
      split: option.splits)

lemma GetEntry_ok: "db_ok d \<Longrightarrow> db_ok (snd (GetEntry flt now s d))"
  by (auto simp: GetEntry_def bump_ok split: option.splits)

lemma bump_each_ok:
  "(\<And>i x. db_ok x \<Longrightarrow> db_ok (upd i x)) \<Longrightarrow> db_ok d \<Longrightarrow> db_ok (bump_each upd flt n is d)"
  by (induction "is" arbitrary: n d) auto

lemma SearchEntries_ok: "db_ok d \<Longrightarrow> db_ok (snd (SearchEntries env flt now q f limit d))"
  by (auto simp: SearchEntries_def Let_def intro!: bump_each_ok bump_ok)

lemma GetEntriesByContext_ok: "db_ok d \<Longrightarrow> db_ok (snd (GetEntriesByContext flt now f limit d))"
  by (auto simp: GetEntriesByContext_def Let_def intro!: bump_each_ok bump_ok)

lemma Lock_ok: "db_ok d \<Longrightarrow> db_ok (snd (Lock env flt token d))"
  by (auto simp: Lock_def db_ok_def)

lemma Unlock_ok: "db_ok d \<Longrightarrow> db_ok (snd (Unlock env flt token d))"
  by (auto simp: Unlock_def db_ok_def)

lemma empty_db_ok: "db_ok empty_db"
  by (simp add: db_ok_def empty_db_def)

lemma reach_ok: "reach env d \<Longrightarrow> db_ok d"
  by (induction rule: reach.induct)
    (simp_all add: empty_db_ok CreateEntry_ok GetEntry_ok UpdateEntry_ok DeleteEntry_ok
      DeleteEntry_ctx_ok SearchEntries_ok GetEntriesByContext_ok Lock_ok Unlock_ok)

lemma tags_listed_row:
  "db_ok d \<Longrightarrow> tags_listed d (entry_of_row r (getTagsForEntry d (e_id r)))"
  by (simp add: tags_listed_def getTagsForEntry_eq entry_of_row_def tag_names_of_sorted
      tag_names_of_distinct set_tag_names_of)

lemma tags_listed_upd:
  "tags_listed d (e\<lparr>Content := c\<rparr>) = tags_listed d e"
  "tags_listed d (e\<lparr>Content := c, Snippet := sn\<rparr>) = tags_listed d e"
  by (simp_all add: tags_listed_def split: option.splits)

lemma no_assoc_empty: "tags_listed d e \<Longrightarrow> assoc d (ID e) = {} \<Longrightarrow> Tags e = Some []"
  by (auto simp: tags_listed_def split: option.splits)

lemma find_append_right: "find P xs = None \<Longrightarrow> find P (xs @ ys) = find P ys"
  by (induction xs) (auto split: if_splits)

lemma CreateEntry_tx_found:
  assumes "CreateEntry_tx env flt now e d = Inr (i, d')"
  shows "find_entry_by_id d' i = Some (created_row now e i)"
proof -
  have "e_id x \<noteq> i" if "x \<in> set (entries d)" for x
    using CreateEntry_tx_Inr(3) [OF assms] next_rowid_neq [OF that, of "entries_seq d" e_id]
    by simp
  then have "find (\<lambda>r. e_id r = i) (entries d) = None"
    by (auto simp: find_None_iff)
  then show ?thesis
    using CreateEntry_tx_tables(1) [OF assms]
    by (simp add: find_entry_by_id_def find_append_right created_row_def)
qed

lemma CreateEntry_Inl: "CreateEntry env flt now e d = (Inl err, d') \<Longrightarrow> d' = d"
  by (auto simp: CreateEntry_def split: sum.splits option.splits prod.splits
      dest: CreateEntry_tx_found)

lemma CreateEntry_Inr:
  assumes "CreateEntry env flt now e d = (Inr e', d')"
  shows "CreateEntry_tx env flt now e d = Inr (ID e', d')"
    and "e' = e\<lparr>ID := ID e', Version := 1, CreatedAt := now, UpdatedAt := now\<rparr>"
proof -
  from assms obtain i r where t: "CreateEntry_tx env flt now e d = Inr (i, d')"
    and f: "find_entry_by_id d' i = Some r"
    and e': "e' = e\<lparr>ID := i, Version := e_version r, CreatedAt := e_created_at r,
                     UpdatedAt := e_updated_at r\<rparr>"
    by (auto simp: CreateEntry_def split: sum.splits option.splits prod.splits)
  have r: "r = created_row now e i" using CreateEntry_tx_found [OF t] f by simp
  show "CreateEntry_tx env flt now e d = Inr (ID e', d')" using t e' by simp
  show "e' = e\<lparr>ID := ID e', Version := 1, CreatedAt := now, UpdatedAt := now\<rparr>"
    using e' r by (simp add: created_row_def)
qed

lemma assoc_cong: "tags d' = tags d \<Longrightarrow> entry_tags d' = entry_tags d \<Longrightarrow> assoc d' j = assoc d j"
  by (simp add: assoc_def)

lemma CreateEntry_tx_assoc:
  assumes "CreateEntry_tx env flt now e d = Inr (i, d')" and "db_ok d"
  shows "assoc d' j = (if j = i then wanted env (slice_items (Tags e)) else assoc d j)"
proof -
  let ?d3 = "d\<lparr>entries := entries d @ [created_row now e i], entries_seq := i,
              entries_fts := entries_fts d @ [fts_of (created_row now e i)],
              entry_stats := entry_stats d @ [zero_stats i]\<rparr>"
  obtain m where s: "setTags env flt 4 i (slice_items (Tags e)) ?d3 = Inr (m, d')"
    using CreateEntry_tx_Inr(6) [OF assms(1)] by blast
  have ok: "db_ok ?d3"
    using assms(2) CreateEntry_tx_Inr(1,3,4,5) [OF assms(1)]
    by (auto simp: db_ok_def created_row_def fts_of_def zero_stats_def next_rowid_notin
        next_rowid_neq)
  show ?thesis using setTags_assoc [OF s ok, of j] by (simp add: assoc_def)
qed


section \<open>What a successful update and a search do\<close>

lemma find_member: "find P xs = Some r \<Longrightarrow> r \<in> set xs \<and> P r"
  by (auto simp: find_Some_iff)

lemma find_by_id_member:
  "distinct (map e_id xs) \<Longrightarrow> r \<in> set xs \<Longrightarrow> find (\<lambda>x. e_id x = e_id r) xs = Some r"
  by (induction xs) (auto simp: image_iff)

lemma same_id_same_row:
  "db_ok d \<Longrightarrow> x \<in> set (entries d) \<Longrightarrow> r \<in> set (entries d) \<Longrightarrow> e_id x = e_id r \<Longrightarrow> x = r"
  by (auto simp: db_ok_def distinct_map inj_on_def)

lemma find_map_key:
  "(\<And>x. k (g x) = k x) \<Longrightarrow> find (\<lambda>x. k x = a) (map g xs) = map_option g (find (\<lambda>x. k x = a) xs)"
  by (induction xs) auto

lemma set_row_keys [simp]:
  "e_id (set_row env now flds r) = e_id r" "e_slug (set_row env now flds r) = e_slug r"
  "e_created_at (set_row env now flds r) = e_created_at r"
  "e_version (set_row env now flds r) = e_version r + 1"
  "e_updated_at (set_row env now flds r) = now"
  by (simp_all add: set_row_def)

lemma update_entries_Inr:
  assumes "update_entries env now flds i d = Inr d1"
  shows "entries d1 = map (\<lambda>x. if e_id x = i then set_row env now flds x else x) (entries d)"
    and "\<not> list_ex (col_unbindable env flds) update_cols"
    and "list_ex (\<lambda>r. e_id r = i) (entries d) \<Longrightarrow> \<not> list_ex (col_null env flds) update_cols"
  using assms by (auto simp: update_entries_def split: if_splits)



lemma UpdateEntry_tx_tables:
  assumes "UpdateEntry_tx env flt now s flds d = Inr d'" and "db_ok d"
    and "find_entry_by_slug d s = Some r0"
  shows "entries d' = map (\<lambda>x. if x = r0 then set_row env now flds r0 else x) (entries d)"
    and "entries_fts d' = filter (\<lambda>f. fts_rowid f \<noteq> e_id r0) (entries_fts d)
           @ [fts_of (set_row env now flds r0)]"
    and "entry_stats d' = entry_stats (bump_updates now (e_id r0) d)"
    and "lock d' = lock d" and "entries_seq d' = entries_seq d"
    and "\<not> list_ex (col_unbindable env flds) update_cols"
    and "\<not> list_ex (col_null env flds) update_cols"
    and "flds ''tags'' = None \<Longrightarrow> tags d' = tags d \<and> entry_tags d' = entry_tags d"
    and "flds ''tags'' = Some v \<Longrightarrow>
           assoc d' j = (if j = e_id r0 then wanted env (tag_list_of v) else assoc d j)"
proof -
  from UpdateEntry_tx_Inr [OF assms(1)] assms(3) obtain r :: entry_row and d1 d3 n d4 where
    u: "update_entries env now flds (e_id r0) d = Inr d1"
    and fr: "find_entry_by_id (delete_fts (e_id r0) d1) (e_id r0) = Some r"
    and f: "insert_fts (e_id r0) (e_title r) (e_description r) (e_content r)
              (delete_fts (e_id r0) d1) = Inr d3"
    and t: "UpdateEntry_tags env flt flds (e_id r0) d3 = Inr (n, d4)"
    and b: "d' = bump_updates now (e_id r0) d4"
    by auto
  have mem: "r0 \<in> set (entries d)"
    using assms(3) by (auto simp: find_entry_by_slug_def dest: find_member)
  have e1: "entries d1 = map (\<lambda>x. if x = r0 then set_row env now flds r0 else x) (entries d)"
    unfolding update_entries_Inr(1) [OF u]
    using same_id_same_row [OF assms(2) _ mem] by (auto intro!: map_cong)
  have r: "r = set_row env now flds r0"
  proof -
    have "find (\<lambda>x. e_id x = e_id r0) (entries d1)
        = map_option (\<lambda>x. if e_id x = e_id r0 then set_row env now flds x else x)
            (find (\<lambda>x. e_id x = e_id r0) (entries d))"
      unfolding update_entries_Inr(1) [OF u] by (rule find_map_key) simp
    also have "find (\<lambda>x. e_id x = e_id r0) (entries d) = Some r0"
      using assms(2) mem by (auto simp: db_ok_def intro: find_by_id_member)
    finally show ?thesis using fr by (simp add: find_entry_by_id_def delete_fts_def)
  qed
  have d3: "d3 = d1\<lparr>entries_fts := filter (\<lambda>f. fts_rowid f \<noteq> e_id r0) (entries_fts d1)
      @ [fts_of r]\<rparr>"
    using f by (auto simp: insert_fts_def delete_fts_def fts_of_def r split: if_splits)
  note k = update_keys [OF u]
  have ok1: "db_ok d1" using update_entries_ok [OF u assms(2)] .
  have ok3: "db_ok d3" using insert_fts_ok [OF f] delete_fts_ok [OF ok1] by blast
  have fr4: "entries d4 = entries d3 \<and> entries_seq d4 = entries_seq d3 \<and>
     entry_stats d4 = entry_stats d3 \<and> entries_fts d4 = entries_fts d3 \<and> lock d4 = lock d3"
    using t by (auto simp: UpdateEntry_tags_def split: option.splits dest!: setTags_frame)
  show "entries d' = map (\<lambda>x. if x = r0 then set_row env now flds r0 else x) (entries d)"
    using fr4 by (simp add: b bump_frame d3 e1)
  show "entries_fts d' = filter (\<lambda>f. fts_rowid f \<noteq> e_id r0) (entries_fts d)
           @ [fts_of (set_row env now flds r0)]"
    using fr4 by (simp add: b bump_frame d3 k r)
  show "entry_stats d' = entry_stats (bump_updates now (e_id r0) d)"
    using fr4 by (simp add: b d3 k bump_updates_def)
  show "lock d' = lock d" using fr4 by (simp add: b bump_frame d3 k)
  show "entries_seq d' = entries_seq d" using fr4 by (simp add: b bump_updates_def d3 k)
  show "\<not> list_ex (col_unbindable env flds) update_cols" using update_entries_Inr(2) [OF u] .
  show "\<not> list_ex (col_null env flds) update_cols"
    using update_entries_Inr(3) [OF u] mem by (auto simp: list_ex_iff)
  show "tags d' = tags d \<and> entry_tags d' = entry_tags d" if "flds ''tags'' = None"
    using t that k(4,6) by (auto simp: UpdateEntry_tags_def b bump_frame d3)
  show "assoc d' j = (if j = e_id r0 then wanted env (tag_list_of v) else assoc d j)"
    if "flds ''tags'' = Some v"
  proof -
    have s: "setTags env flt 4 (e_id r0) (tag_list_of v) d3 = Inr (n, d4)"
      using t that by (simp add: UpdateEntry_tags_def)
    have "assoc d' j = assoc d4 j" by (simp add: b assoc_def bump_frame)
    also have "\<dots> = (if j = e_id r0 then wanted env (tag_list_of v) else assoc d3 j)"
      using setTags_assoc [OF s ok3] .
    also have "assoc d3 j = assoc d j" by (simp add: assoc_def d3 k)
    finally show ?thesis .
  qed
qed

lemma UpdateEntry_slug_found:
  assumes "db_ok d" and "UpdateEntry env flt now s flds d = (None, d')"
  shows "\<exists>r. find_entry_by_slug d s = Some r
     \<and> find_entry_by_slug d' s = Some (set_row env now flds r)"
proof -
  have tx: "UpdateEntry_tx env flt now s flds d = Inr d'"
    using assms(2) by (auto simp: UpdateEntry_def split: sum.splits)
  obtain r where r: "find_entry_by_slug d s = Some r"
    using UpdateEntry_tx_Inr [OF tx] by blast
  let ?r' = "set_row env now flds r"
  note tb = UpdateEntry_tx_tables [OF tx assms(1) r]
  have "find (\<lambda>x. e_slug x = s) (map (\<lambda>x. if x = r then ?r' else x) (entries d))
      = map_option (\<lambda>x. if x = r then ?r' else x) (find (\<lambda>x. e_slug x = s) (entries d))"
    by (rule find_map_key) simp
  then have "find_entry_by_slug d' s = Some ?r'"
    using r by (simp add: find_entry_by_slug_def tb(1))
  then show ?thesis using r by blast
qed

lemma find_append_id:
  "e_id r \<noteq> j \<Longrightarrow> find (\<lambda>x. e_id x = j) (xs @ [r]) = find (\<lambda>x. e_id x = j) xs"
  by (induction xs) auto

lemma find_filter_id:
  "i \<noteq> j \<Longrightarrow> find (\<lambda>x. e_id x = j) (filter (\<lambda>x. e_id x \<noteq> i) xs) = find (\<lambda>x. e_id x = j) xs"
  by (induction xs) auto

lemma find_filter_none: "find (\<lambda>x. e_id x = i) (filter (\<lambda>x. e_id x \<noteq> i) xs) = None"
  by (induction xs) auto

lemma find_map_other:
  "e_id r = i \<Longrightarrow> e_id r' = i \<Longrightarrow> i \<noteq> j \<Longrightarrow>
   find (\<lambda>x. e_id x = j) (map (\<lambda>x. if x = r then r' else x) xs) = find (\<lambda>x. e_id x = j) xs"
  by (induction xs) auto

lemma index_create:
  assumes "db_ok d" and "CreateEntry env flt now e d = (Inr e', d1)"
  shows "index_rows d1 (ID e') = [\<lparr>fts_rowid = ID e', fts_title = Title e,
             fts_description = Description e, fts_content = Content e\<rparr>]"
    and "mirrored d1 (ID e')"
    and "j \<noteq> ID e' \<Longrightarrow> mirrored d j \<Longrightarrow> mirrored d1 j"
proof -
  have tx: "CreateEntry_tx env flt now e d = Inr (ID e', d1)"
    using CreateEntry_Inr [OF assms(2)] by simp
  note tb = CreateEntry_tx_tables [OF tx] and fr = CreateEntry_tx_Inr [OF tx]
  have none: "filter (\<lambda>f. fts_rowid f = ID e') (entries_fts d) = []"
    using fr(4) by (force simp: filter_empty_conv)
  show 1: "index_rows d1 (ID e') = [\<lparr>fts_rowid = ID e', fts_title = Title e,
             fts_description = Description e, fts_content = Content e\<rparr>]"
    by (simp add: index_rows_def tb(3) none fts_of_def created_row_def)
  show "mirrored d1 (ID e')"
    using 1 CreateEntry_tx_found [OF tx] by (simp add: mirrored_def fts_of_def created_row_def)
  show "mirrored d1 j" if "j \<noteq> ID e'" "mirrored d j"
    using that
    by (simp add: mirrored_def index_rows_def tb(1,3) find_entry_by_id_def find_append_id
        fts_of_def created_row_def)
qed

lemma index_update:
  assumes "db_ok d" and "UpdateEntry env flt now s flds d = (None, d2)"
    and "find_entry_by_slug d2 s = Some r'"
  shows "index_rows d2 (e_id r') = [fts_of r']"
    and "mirrored d2 (e_id r')"
    and "j \<noteq> e_id r' \<Longrightarrow> mirrored d j \<Longrightarrow> mirrored d2 j"
    and "entries_fts d2 = filter (\<lambda>f. fts_rowid f \<noteq> e_id r') (entries_fts d2) @ [fts_of r']"
    and "r' \<in> set (entries d2)" and "e_slug r' = s"
proof -
  have tx: "UpdateEntry_tx env flt now s flds d = Inr d2"
    using assms(2) by (auto simp: UpdateEntry_def split: sum.splits)
  obtain r where r: "find_entry_by_slug d s = Some r"
    using UpdateEntry_tx_Inr [OF tx] by blast
  let ?r' = "set_row env now flds r"
  note tb = UpdateEntry_tx_tables [OF tx assms(1) r]
  have mem: "r \<in> set (entries d)" and slug: "e_slug r = s"
    using r by (auto simp: find_entry_by_slug_def dest: find_member)
  have "find (\<lambda>x. e_slug x = s) (map (\<lambda>x. if x = r then ?r' else x) (entries d))
      = map_option (\<lambda>x. if x = r then ?r' else x) (find (\<lambda>x. e_slug x = s) (entries d))"
    by (rule find_map_key) simp
  then have r': "r' = ?r'"
    using r assms(3) by (simp add: find_entry_by_slug_def tb(1))
  have id: "e_id r' = e_id r" by (simp add: r')
  show 1: "index_rows d2 (e_id r') = [fts_of r']"
    by (simp add: index_rows_def tb(2) id r' fts_of_def)
  show "r' \<in> set (entries d2)" using mem by (auto simp: tb(1) r')
  show "e_slug r' = s" using slug by (simp add: r')
  have "find (\<lambda>x. e_id x = e_id r) (map (\<lambda>x. if x = r then ?r' else x) (entries d))
      = map_option (\<lambda>x. if x = r then ?r' else x) (find (\<lambda>x. e_id x = e_id r) (entries d))"
    by (rule find_map_key) simp
  also have "find (\<lambda>x. e_id x = e_id r) (entries d) = Some r"
    using assms(1) mem by (auto simp: db_ok_def intro: find_by_id_member)
  finally have f: "find_entry_by_id d2 (e_id r') = Some r'"
    by (simp add: find_entry_by_id_def tb(1) id r')
  show "mirrored d2 (e_id r')" using 1 f by (simp add: mirrored_def)
  show "mirrored d2 j" if "j \<noteq> e_id r'" "mirrored d j"
  proof -
    have a: "index_rows d2 j = index_rows d j"
      using that(1) by (auto simp: index_rows_def tb(2) id fts_of_def intro: filter_cong)
    have b: "find_entry_by_id d2 j = find_entry_by_id d j"
      using that(1) find_map_other [of r "e_id r" ?r' j "entries d"]
      by (simp add: find_entry_by_id_def tb(1) id)
    show ?thesis using that(2) by (simp add: mirrored_def a b)
  qed
  show "entries_fts d2 = filter (\<lambda>f. fts_rowid f \<noteq> e_id r') (entries_fts d2) @ [fts_of r']"
    by (simp add: tb(2) id r' fts_of_def)
qed

lemma index_delete:
  assumes "DeleteEntry flt s d = (None, d3)"
  shows "\<exists>r. find_entry_by_slug d s = Some r \<and> index_rows d3 (e_id r) = []
      \<and> find_entry_by_id d3 (e_id r) = None \<and> mirrored d3 (e_id r)
      \<and> (\<forall>j. j \<noteq> e_id r \<longrightarrow> mirrored d j \<longrightarrow> mirrored d3 j)"
proof -
  from assms obtain r where r: "find_entry_by_slug d s = Some r"
    and d3: "d3 = delete_entries (foreign_keys flt) (e_id r) (delete_fts (e_id r) d)"
    by (auto simp: DeleteEntry_def exec_def split: option.splits if_splits)
  have 1: "index_rows d3 (e_id r) = []"
    by (auto simp: d3 index_rows_def delete_entries_frame delete_fts_def filter_empty_conv)
  have 2: "find_entry_by_id d3 (e_id r) = None"
    by (simp add: d3 find_entry_by_id_def delete_entries_frame delete_fts_def find_filter_none)
  have 3: "mirrored d3 j" if "j \<noteq> e_id r" "mirrored d j" for j
  proof -
    have a: "index_rows d3 j = index_rows d j"
      using that(1)
      by (auto simp: d3 index_rows_def delete_entries_frame delete_fts_def intro: filter_cong)
    have b: "find_entry_by_id d3 j = find_entry_by_id d j"
      using that(1)
      by (simp add: d3 find_entry_by_id_def delete_entries_frame delete_fts_def find_filter_id)
    show ?thesis using that(2) by (simp add: mirrored_def a b)
  qed
  show ?thesis using r 1 2 3 by (auto simp: mirrored_def)
qed

lemma search_rows_mem:
  "p \<in> set (search_rows env q d f) \<Longrightarrow>
     fst p \<in> set (entries_fts d) \<and>
     fts_match env q (fts_title (fst p)) (fts_description (fst p)) (fts_content (fst p)) \<and>
     snd p \<in> set (entries d) \<and> e_id (snd p) = fts_rowid (fst p) \<and> filter_ok f (snd p)"
  by (auto simp: search_rows_def split: if_splits)

lemma search_result_ids:
  assumes "fst (SearchEntries env flt now q f limit d) = Inr es" and "g \<in> set es"
  shows "\<exists>p \<in> set (search_rows env q d f). ID g = e_id (snd p)"
proof -
  from assms obtain p where "p \<in> set (take (nat (search_limit limit)) (search_hits env q d f))"
    and g: "g = search_entry env q d p"
    by (auto simp: SearchEntries_def Let_def split: if_splits)
  then have "p \<in> set (search_rows env q d f)"
    by (auto simp: search_hits_def dest: in_set_takeD)
  then show ?thesis using g by (auto simp: search_entry_def entry_of_row_def)
qed

lemma search_absent:
  assumes "index_rows d i = [fr]"
    and "\<not> fts_match env q (fts_title fr) (fts_description fr) (fts_content fr)"
    and "fst (SearchEntries env flt now q f limit d) = Inr es"
  shows "i \<notin> set (map ID es)"
proof
  assume "i \<in> set (map ID es)"
  then obtain g where g: "g \<in> set es" "ID g = i" by auto
  obtain p where p: "p \<in> set (search_rows env q d f)" "ID g = e_id (snd p)"
    using search_result_ids [OF assms(3) g(1)] by blast
  note m = search_rows_mem [OF p(1)]
  have "fst p \<in> set (index_rows d i)" using m g(2) p(2) by (simp add: index_rows_def)
  then have "fst p = fr" using assms(1) by simp
  then show False using m assms(2) by simp
qed

lemma concat_single:
  "distinct (map e_id xs) \<Longrightarrow> r \<in> set xs \<Longrightarrow>
   concat (map (\<lambda>x. if e_id x = e_id r then [F x] else []) xs) = [F r]"
proof (induction xs)
  case Nil
  then show ?case by simp
next
  case (Cons a xs)
  show ?case
  proof (cases "a = r")
    case True
    have "concat (map (\<lambda>x. if e_id x = e_id r then [F x] else []) xs) = []"
      using Cons.prems(1) True by (auto simp: image_iff)
    then show ?thesis using True by simp
  next
    case False
    then have "r \<in> set xs" using Cons.prems(2) by simp
    moreover have "e_id a \<noteq> e_id r" using Cons.prems(1) \<open>r \<in> set xs\<close> by (auto simp: image_iff)
    ultimately show ?thesis using Cons by simp
  qed
qed

lemma concat_map_empty: "(\<And>x. x \<in> set xs \<Longrightarrow> g x = []) \<Longrightarrow> concat (map g xs) = []"
  by (induction xs) auto

lemma search_only:
  assumes "db_ok d" and "r \<in> set (entries d)"
    and "entries_fts d = filter (\<lambda>f. fts_rowid f \<noteq> e_id r) (entries_fts d) @ [fts_of r]"
    and "fts_valid env q" and "fts_match env q (e_title r) (e_description r) (e_content r)"
    and "\<forall>x \<in> set (entries_fts d). fts_rowid x \<noteq> e_id r \<longrightarrow>
           \<not> fts_match env q (fts_title x) (fts_description x) (fts_content x)"
  shows "fst (SearchEntries env flt now q no_filter limit d)
      = Inr [search_entry env q d (fts_of r, r)]"
proof -
  let ?G = "\<lambda>fr. if fts_match env q (fts_title fr) (fts_description fr) (fts_content fr)
         then concat (map (\<lambda>x. if e_id x = fts_rowid fr \<and> filter_ok no_filter x
                                then (if fTag no_filter = [] then [(fr, x)]
                                      else map (\<lambda>u. (fr, x)) (tag_joins d (fTag no_filter) (e_id x)))
                                else [])
                (entries d))
         else []"
  let ?A = "filter (\<lambda>f. fts_rowid f \<noteq> e_id r) (entries_fts d)"
  have A: "concat (map ?G ?A) = []"
    using assms(6) by (intro concat_map_empty) auto
  have "?G (fts_of r) = concat (map (\<lambda>x. if e_id x = e_id r then [(fts_of r, x)] else [])
      (entries d))"
    using assms(5) by (simp add: fts_of_def no_filter_def filter_ok_def cong: if_cong)
  also have "\<dots> = [(fts_of r, r)]"
    using assms(1,2) by (intro concat_single) (simp_all add: db_ok_def)
  finally have G: "?G (fts_of r) = [(fts_of r, r)]" .
  have "search_rows env q d no_filter = concat (map ?G (?A @ [fts_of r]))"
    unfolding search_rows_def using assms(3) by simp
  then have "search_rows env q d no_filter = [(fts_of r, r)]"
    using A G by simp
  then have "search_hits env q d no_filter = [(fts_of r, r)]"
    by (simp add: search_hits_def)
  moreover have "0 < nat (search_limit limit)" by (simp add: search_limit_def)
  ultimately show ?thesis
    using assms(4) by (auto simp: SearchEntries_def Let_def take_Cons')
qed

section \<open>Reads do not look at the lock row\<close>

lemma lock_joins [simp]:
  "tag_joins (d\<lparr>lock := l\<rparr>) nm i = tag_joins d nm i"
  "tags_joins (d\<lparr>lock := l\<rparr>) tgs i = tags_joins d tgs i"
  by (simp_all add: tag_joins_def tags_joins_def)

lemma lock_reads [simp]:
  "find_entry_by_slug (d\<lparr>lock := l\<rparr>) s = find_entry_by_slug d s"
  "getTagsForEntry (d\<lparr>lock := l\<rparr>) i = getTagsForEntry d i"
  "bump_reads now i (d\<lparr>lock := l\<rparr>) = (bump_reads now i d)\<lparr>lock := l\<rparr>"
  "bump_searches now i (d\<lparr>lock := l\<rparr>) = (bump_searches now i d)\<lparr>lock := l\<rparr>"
  "search_hits env q (d\<lparr>lock := l\<rparr>) f = search_hits env q d f"
  "search_entry env q (d\<lparr>lock := l\<rparr>) = search_entry env q d"
  "context_rows (d\<lparr>lock := l\<rparr>) f = context_rows d f"
  "list_rows (d\<lparr>lock := l\<rparr>) f = list_rows d f"
  by (simp_all add: find_entry_by_slug_def getTagsForEntry_def tag_names_of_def bump_reads_def
      bump_searches_def search_hits_def search_rows_def
      search_entry_def context_rows_def list_rows_def fun_eq_iff cong: if_cong)

lemma bump_each_lock:
  "(\<And>i x. upd i (x\<lparr>lock := l\<rparr>) = (upd i x)\<lparr>lock := l\<rparr>) \<Longrightarrow>
   bump_each upd flt n is (d\<lparr>lock := l\<rparr>) = (bump_each upd flt n is d)\<lparr>lock := l\<rparr>"
  by (induction "is" arbitrary: n d) auto

lemma GetEntry_lock:
  "GetEntry flt now s (d\<lparr>lock := l\<rparr>)
     = (fst (GetEntry flt now s d), (snd (GetEntry flt now s d))\<lparr>lock := l\<rparr>)"
  by (simp add: GetEntry_def split: option.splits)

lemma SearchEntries_lock:
  "SearchEntries env flt now q f limit (d\<lparr>lock := l\<rparr>)
     = (fst (SearchEntries env flt now q f limit d),
        (snd (SearchEntries env flt now q f limit d))\<lparr>lock := l\<rparr>)"
  by (simp add: SearchEntries_def Let_def bump_each_lock)

lemma GetEntriesByContext_lock:
  "GetEntriesByContext flt now f limit (d\<lparr>lock := l\<rparr>)
     = (fst (GetEntriesByContext flt now f limit d),
        (snd (GetEntriesByContext flt now f limit d))\<lparr>lock := l\<rparr>)"
  by (simp add: GetEntriesByContext_def Let_def bump_each_lock)

lemma ListEntries_lock: "ListEntries (d\<lparr>lock := l\<rparr>) f = ListEntries d f"
  by (simp add: ListEntries_def)

lemma GetStats_lock: "GetStats (d\<lparr>lock := l\<rparr>) s = GetStats d s"
  by (simp add: GetStats_def cong: option.case_cong)

section \<open>Writes do not look at the lock row\<close>

lemma stmt_lock:
  "insert_entries env now e (d\<lparr>lock := l\<rparr>)
     = map_sum id (\<lambda>p. (fst p, (snd p)\<lparr>lock := l\<rparr>)) (insert_entries env now e d)"
  "insert_fts i t ds c (d\<lparr>lock := l\<rparr>) = map_sum id (\<lambda>x. x\<lparr>lock := l\<rparr>) (insert_fts i t ds c d)"
  "insert_stats fk i (d\<lparr>lock := l\<rparr>) = map_sum id (\<lambda>x. x\<lparr>lock := l\<rparr>) (insert_stats fk i d)"
  "delete_fts i (d\<lparr>lock := l\<rparr>) = (delete_fts i d)\<lparr>lock := l\<rparr>"
  "delete_entry_tags i (d\<lparr>lock := l\<rparr>) = (delete_entry_tags i d)\<lparr>lock := l\<rparr>"
  "upsert_tag nm (d\<lparr>lock := l\<rparr>) = (upsert_tag nm d)\<lparr>lock := l\<rparr>"
  "select_tag_id nm (d\<lparr>lock := l\<rparr>) = select_tag_id nm d"
  "insert_entry_tag fk i tid (d\<lparr>lock := l\<rparr>)
     = map_sum id (\<lambda>x. x\<lparr>lock := l\<rparr>) (insert_entry_tag fk i tid d)"
  "delete_entries fk i (d\<lparr>lock := l\<rparr>) = (delete_entries fk i d)\<lparr>lock := l\<rparr>"
  "bump_updates now i (d\<lparr>lock := l\<rparr>) = (bump_updates now i d)\<lparr>lock := l\<rparr>"
  "update_entries env now flds i (d\<lparr>lock := l\<rparr>)
     = map_sum id (\<lambda>x. x\<lparr>lock := l\<rparr>) (update_entries env now flds i d)"
  "find_entry_by_id (d\<lparr>lock := l\<rparr>) i = find_entry_by_id d i"
  by (auto simp: insert_entries_def insert_fts_def insert_stats_def delete_fts_def
      delete_entry_tags_def upsert_tag_def select_tag_id_def insert_entry_tag_def
      delete_entries_def bump_updates_def update_entries_def find_entry_by_id_def Let_def)

lemma exec_map: "exec flt n (map_sum id f r) = map_sum id f (exec flt n r)"
  by (simp add: exec_def)

lemma setTags_loop_lock:
  "setTags_loop env flt n i tgs (d\<lparr>lock := l\<rparr>)
     = map_sum id (\<lambda>p. (fst p, (snd p)\<lparr>lock := l\<rparr>)) (setTags_loop env flt n i tgs d)"
proof (induction tgs arbitrary: n d)
  case Nil
  then show ?case by simp
next
  case (Cons raw rest)
  show ?case
    by (simp add: stmt_lock exec_def Cons.IH split: option.splits sum.splits)
qed

lemma setTags_lock:
  "setTags env flt n i tgs (d\<lparr>lock := l\<rparr>)
     = map_sum id (\<lambda>p. (fst p, (snd p)\<lparr>lock := l\<rparr>)) (setTags env flt n i tgs d)"
  by (simp add: setTags_def stmt_lock exec_def setTags_loop_lock)

lemma CreateEntry_tx_lock:
  "CreateEntry_tx env flt now e (d\<lparr>lock := l\<rparr>)
     = map_sum id (\<lambda>p. (fst p, (snd p)\<lparr>lock := l\<rparr>)) (CreateEntry_tx env flt now e d)"
  by (simp add: CreateEntry_tx_def stmt_lock exec_def setTags_lock
      split: sum.splits prod.splits)

lemma CreateEntry_lock:
  "CreateEntry env flt now e (d\<lparr>lock := l\<rparr>)
     = (fst (CreateEntry env flt now e d), (snd (CreateEntry env flt now e d))\<lparr>lock := l\<rparr>)"
  by (simp add: CreateEntry_def CreateEntry_tx_lock stmt_lock
      split: sum.splits prod.splits option.splits)

lemma UpdateEntry_tags_lock:
  "UpdateEntry_tags env flt flds i (d\<lparr>lock := l\<rparr>)
     = map_sum id (\<lambda>p. (fst p, (snd p)\<lparr>lock := l\<rparr>)) (UpdateEntry_tags env flt flds i d)"
  by (simp add: UpdateEntry_tags_def setTags_lock split: option.split)

lemma UpdateEntry_tx_lock:
  "UpdateEntry_tx env flt now s flds (d\<lparr>lock := l\<rparr>)
     = map_sum id (\<lambda>x. x\<lparr>lock := l\<rparr>) (UpdateEntry_tx env flt now s flds d)"
  by (simp add: UpdateEntry_tx_def UpdateEntry_tags_lock stmt_lock exec_def Let_def
      split: sum.split prod.split option.split)

lemma UpdateEntry_lock:
  "UpdateEntry env flt now s flds (d\<lparr>lock := l\<rparr>)
     = (fst (UpdateEntry env flt now s flds d), (snd (UpdateEntry env flt now s flds d))\<lparr>lock := l\<rparr>)"
  by (simp add: UpdateEntry_def UpdateEntry_tx_lock split: sum.splits)

lemma DeleteEntry_lock:
  "DeleteEntry flt s (d\<lparr>lock := l\<rparr>)
     = (fst (DeleteEntry flt s d), (snd (DeleteEntry flt s d))\<lparr>lock := l\<rparr>)"
  by (simp add: DeleteEntry_def stmt_lock exec_def split: option.splits)


lemma tools_after_unlock:
  assumes "\<not> IsLocked d"
  shows "toolCreateEntry env fl now i args (unlocked d)
      = (fst (toolCreateEntry env fl now i args d),
         unlocked (snd (toolCreateEntry env fl now i args d)))"
    and "toolUpdateEntry env fl now i args (unlocked d)
      = (fst (toolUpdateEntry env fl now i args d),
         unlocked (snd (toolUpdateEntry env fl now i args d)))"
    and "toolDeleteEntry env fl i args (unlocked d)
      = (fst (toolDeleteEntry env fl i args d),
         unlocked (snd (toolDeleteEntry env fl i args d)))"
proof -
  have c: "checkLock d = None" "checkLock (d\<lparr>lock := \<lparr>lock_active = 0, lock_token = []\<rparr>\<rparr>) = None"
    using assms by (simp_all add: checkLock_def IsLocked_def)
  show "toolCreateEntry env fl now i args (unlocked d)
      = (fst (toolCreateEntry env fl now i args d),
         unlocked (snd (toolCreateEntry env fl now i args d)))"
    by (simp add: toolCreateEntry_def unlocked_def c CreateEntry_lock
        split: prod.split sum.split)
  show "toolUpdateEntry env fl now i args (unlocked d)
      = (fst (toolUpdateEntry env fl now i args d),
         unlocked (snd (toolUpdateEntry env fl now i args d)))"
    by (auto simp: toolUpdateEntry_def unlocked_def c UpdateEntry_lock GetEntry_lock
        split: prod.split sum.split option.split)
  show "toolDeleteEntry env fl i args (unlocked d)
      = (fst (toolDeleteEntry env fl i args d),
         unlocked (snd (toolDeleteEntry env fl i args d)))"
    by (simp add: toolDeleteEntry_def unlocked_def c DeleteEntry_lock
        split: prod.split option.split)
qed

section \<open>The full-text index mirrors the entries\<close>

text \<open>
  C1: on a store that satisfies the key constraints, after a successful create the
  index rows of the new handle are exactly one row with the entry's title, description
  and content; after a successful update the index rows of the entry's handle are
  exactly one row with the entry's current title, description and content, a query that
  does not match the current text returns no hit for that entry, and a valid query that
  matches the current text and no other index row returns exactly that entry; after a
  successful delete the handle has no index row and no entry. Each of the three leaves
  the index of every other handle mirroring its entry when it did before.
\<close>

theorem index_mirrors:
  assumes "db_ok d"
  shows "(CreateEntry env flt now e d = (Inr e', d1) \<longrightarrow>
            index_rows d1 (ID e') = [\<lparr>fts_rowid = ID e', fts_title = Title e,
               fts_description = Description e, fts_content = Content e\<rparr>]
          \<and> mirrored d1 (ID e')
          \<and> (\<forall>j. j \<noteq> ID e' \<and> mirrored d j \<longrightarrow> mirrored d1 j))
    \<and> (UpdateEntry env flt now s flds d = (None, d2) \<longrightarrow>
          (\<exists>r'. find_entry_by_slug d2 s = Some r'
             \<and> index_rows d2 (e_id r') = [fts_of r'] \<and> mirrored d2 (e_id r')
             \<and> (\<forall>j. j \<noteq> e_id r' \<and> mirrored d j \<longrightarrow> mirrored d2 j)
             \<and> (\<not> fts_match env q (e_title r') (e_description r') (e_content r') \<longrightarrow>
                  (\<forall>es. fst (SearchEntries env flt2 now2 q f limit d2) = Inr es \<longrightarrow>
                     e_id r' \<notin> set (map ID es)))
             \<and> (fts_valid env q \<and> fts_match env q (e_title r') (e_description r') (e_content r')
                  \<and> (\<forall>x \<in> set (entries_fts d2). fts_rowid x \<noteq> e_id r' \<longrightarrow>
                        \<not> fts_match env q (fts_title x) (fts_description x) (fts_content x))
                \<longrightarrow> (\<exists>g. fst (SearchEntries env flt2 now2 q no_filter limit d2) = Inr [g]
                       \<and> ID g = e_id r' \<and> Slug g = s))))
    \<and> (DeleteEntry flt s d = (None, d3) \<longrightarrow>
          (\<exists>r. find_entry_by_slug d s = Some r \<and> index_rows d3 (e_id r) = []
             \<and> find_entry_by_id d3 (e_id r) = None \<and> mirrored d3 (e_id r)
             \<and> (\<forall>j. j \<noteq> e_id r \<and> mirrored d j \<longrightarrow> mirrored d3 j)))"
proof (intro conjI impI)
  assume c: "CreateEntry env flt now e d = (Inr e', d1)"
  show "index_rows d1 (ID e') = [\<lparr>fts_rowid = ID e', fts_title = Title e,
               fts_description = Description e, fts_content = Content e\<rparr>]"
    using index_create(1) [OF assms c] .
  show "mirrored d1 (ID e')" using index_create(2) [OF assms c] .
  show "\<forall>j. j \<noteq> ID e' \<and> mirrored d j \<longrightarrow> mirrored d1 j"
    using index_create(3) [OF assms c] by blast
next
  assume u: "UpdateEntry env flt now s flds d = (None, d2)"
  obtain r' where r': "find_entry_by_slug d2 s = Some r'"
    using UpdateEntry_slug_found [OF assms u] by blast
  note iu = index_update [OF assms u r']
  have ok2: "db_ok d2" using UpdateEntry_ok [OF assms, of env flt now s flds] u by simp
  have a: "\<not> fts_match env q (e_title r') (e_description r') (e_content r') \<longrightarrow>
                  (\<forall>es. fst (SearchEntries env flt2 now2 q f limit d2) = Inr es \<longrightarrow>
                     e_id r' \<notin> set (map ID es))"
    using search_absent [OF iu(1), of env q flt2 now2 f limit] by (simp add: fts_of_def)
  have b: "fts_valid env q \<and> fts_match env q (e_title r') (e_description r') (e_content r')
                  \<and> (\<forall>x \<in> set (entries_fts d2). fts_rowid x \<noteq> e_id r' \<longrightarrow>
                        \<not> fts_match env q (fts_title x) (fts_description x) (fts_content x))
                \<longrightarrow> (\<exists>g. fst (SearchEntries env flt2 now2 q no_filter limit d2) = Inr [g]
                       \<and> ID g = e_id r' \<and> Slug g = s)"
    using search_only [OF ok2 iu(5) iu(4), of env q flt2 now2 limit] iu(6)
    by (auto simp: search_entry_def entry_of_row_def)
  show "\<exists>r'. find_entry_by_slug d2 s = Some r'
             \<and> index_rows d2 (e_id r') = [fts_of r'] \<and> mirrored d2 (e_id r')
             \<and> (\<forall>j. j \<noteq> e_id r' \<and> mirrored d j \<longrightarrow> mirrored d2 j)
             \<and> (\<not> fts_match env q (e_title r') (e_description r') (e_content r') \<longrightarrow>
                  (\<forall>es. fst (SearchEntries env flt2 now2 q f limit d2) = Inr es \<longrightarrow>
                     e_id r' \<notin> set (map ID es)))
             \<and> (fts_valid env q \<and> fts_match env q (e_title r') (e_description r') (e_content r')
                  \<and> (\<forall>x \<in> set (entries_fts d2). fts_rowid x \<noteq> e_id r' \<longrightarrow>
                        \<not> fts_match env q (fts_title x) (fts_description x) (fts_content x))
                \<longrightarrow> (\<exists>g. fst (SearchEntries env flt2 now2 q no_filter limit d2) = Inr [g]
                       \<and> ID g = e_id r' \<and> Slug g = s))"
    using r' iu(1,2,3) a b by (intro exI [of _ r']) blast
next
  assume x: "DeleteEntry flt s d = (None, d3)"
  show "\<exists>r. find_entry_by_slug d s = Some r \<and> index_rows d3 (e_id r) = []
             \<and> find_entry_by_id d3 (e_id r) = None \<and> mirrored d3 (e_id r)
             \<and> (\<forall>j. j \<noteq> e_id r \<and> mirrored d j \<longrightarrow> mirrored d3 j)"
    using index_delete [OF x] by blast
qed

theorem index_mirrors_witness:
  "db_ok db_a
   \<and> index_rows db_a 2 = []
   \<and> (case fst (CreateEntry sample_env no_faults ''t1''
          (new_entry ''b'' ''Birds'' ''kiwi'' []) db_a) of
        Inr e' \<Rightarrow> ID e' = 2 \<and> Slug e' = ''b'' | Inl err \<Rightarrow> False)
   \<and> index_rows (snd (CreateEntry sample_env no_faults ''t1''
        (new_entry ''b'' ''Birds'' ''kiwi'' []) db_a)) 2
       = [\<lparr>fts_rowid = 2, fts_title = ''Birds'', fts_description = [], fts_content = ''kiwi''\<rparr>]
   \<and> entries_fts (snd (CreateEntry sample_env no_faults ''t1''
        (new_entry ''b'' ''Birds'' ''kiwi'' []) db_a))
       = [\<lparr>fts_rowid = 1, fts_title = ''Animal Guide'', fts_description = [],
           fts_content = ''monotreme''\<rparr>,
          \<lparr>fts_rowid = 2, fts_title = ''Birds'', fts_description = [], fts_content = ''kiwi''\<rparr>]
   \<and> mirrored (snd (CreateEntry sample_env no_faults ''t1''
        (new_entry ''b'' ''Birds'' ''kiwi'' []) db_a)) 2
   \<and> (case fst (SearchEntries sample_env no_faults ''t3'' ''kiwi'' no_filter 10
          (snd (CreateEntry sample_env no_faults ''t1''
             (new_entry ''b'' ''Birds'' ''kiwi'' []) db_a))) of
        Inr es \<Rightarrow> map Slug es = [''b''] | Inl err \<Rightarrow> False)
   \<and> UpdateEntry sample_env no_faults ''t2'' ''a'' [''content'' \<mapsto> JStr ''echidna''] db_a
       = (None, db_b)
   \<and> index_rows db_b 1 = [\<lparr>fts_rowid = 1, fts_title = ''Animal Guide'', fts_description = [],
         fts_content = ''echidna''\<rparr>]
   \<and> fst (SearchEntries sample_env no_faults ''t3'' ''monotreme'' no_filter 10 db_b) = Inr []
   \<and> map Slug (projr (fst (SearchEntries sample_env no_faults ''t3'' ''echidna'' no_filter 10
        db_b))) = [''a'']
   \<and> DeleteEntry no_faults ''a'' db_a
       = (None, db_a\<lparr>entries := [], entry_tags := [], entry_stats := [], entries_fts := []\<rparr>)
   \<and> mirrored (db_a\<lparr>entries := [], entry_tags := [], entry_stats := [], entries_fts := []\<rparr>) 1"
proof -
  have ok: "db_ok db_a" by (simp add: db_ok_def db_a_def)
  obtain e' d1 where c: "CreateEntry sample_env no_faults ''t1''
        (new_entry ''b'' ''Birds'' ''kiwi'' []) db_a = (Inr e', d1)" and i: "ID e' = 2"
    and sl: "Slug e' = ''b''"
    and fts: "entries_fts d1
       = [\<lparr>fts_rowid = 1, fts_title = ''Animal Guide'', fts_description = [],
           fts_content = ''monotreme''\<rparr>,
          \<lparr>fts_rowid = 2, fts_title = ''Birds'', fts_description = [], fts_content = ''kiwi''\<rparr>]"
    and sk: "(case fst (SearchEntries sample_env no_faults ''t3'' ''kiwi'' no_filter 10 d1) of
        Inr es \<Rightarrow> map Slug es = [''b''] | Inl err \<Rightarrow> False)"
    by (simp add: stmt_defs op_defs sample_defs)
  have i0: "index_rows db_a 2 = []" by (simp add: index_rows_def db_a_def)
  have u: "UpdateEntry sample_env no_faults ''t2'' ''a'' [''content'' \<mapsto> JStr ''echidna''] db_a
       = (None, db_b)"
    by (simp add: stmt_defs op_defs sample_defs db_b_def)
  have x: "DeleteEntry no_faults ''a'' db_a
       = (None, db_a\<lparr>entries := [], entry_tags := [], entry_stats := [], entries_fts := []\<rparr>)"
    by (simp add: stmt_defs op_defs sample_defs)
  note T = index_mirrors [OF ok, where env = sample_env and flt = no_faults]
  have m1: "mirrored d1 2"
    "index_rows d1 2
       = [\<lparr>fts_rowid = 2, fts_title = ''Birds'', fts_description = [], fts_content = ''kiwi''\<rparr>]"
    using T [of "''t1''" "new_entry ''b'' ''Birds'' ''kiwi'' []" e' d1] c i
    by (simp_all add: new_entry_def)
  have f: "find_entry_by_slug db_b ''a''
       = Some \<lparr>e_id = 1, e_slug = ''a'', e_title = ''Animal Guide'', e_description = [],
               e_content = ''echidna'', e_kind = ''skill'', e_language = [], e_domain = [],
               e_project = [], e_version = 2, e_created_at = ''t0'', e_updated_at = ''t2''\<rparr>"
    by (simp add: find_entry_by_slug_def db_b_def)
  have ir: "index_rows db_b 1 = [\<lparr>fts_rowid = 1, fts_title = ''Animal Guide'',
         fts_description = [], fts_content = ''echidna''\<rparr>]"
    by (simp add: index_rows_def db_b_def)
  have s1: "fst (SearchEntries sample_env no_faults ''t3'' ''monotreme'' no_filter 10 db_b)
      = Inr []"
    by (simp add: stmt_defs op_defs sample_defs db_b_def)
  have s2: "map Slug (projr (fst (SearchEntries sample_env no_faults ''t3'' ''echidna''
      no_filter 10 db_b))) = [''a'']"
    by (simp add: stmt_defs op_defs sample_defs db_b_def)
  have m3: "mirrored (db_a\<lparr>entries := [], entry_tags := [], entry_stats := [],
      entries_fts := []\<rparr>) 1"
    by (simp add: mirrored_def index_rows_def find_entry_by_id_def)
  show ?thesis using ok i0 c i sl fts sk m1 u ir s1 s2 x m3 by simp
qed

section \<open>Creating an entry\<close>



section \<open>Deleting an entry\<close>

text \<open>
  What a deletion that went through leaves behind, for both versions of \<open>DeleteEntry\<close>: the
  entry is not found by slug, by \<open>GetEntry\<close> or by \<open>GetStats\<close>, no search returns it, and it
  has no row left in the index; on a connection that enforces foreign keys it has no row
  left in \<open>entry_tags\<close> and \<open>entry_stats\<close> either. The version with a transaction either
  does all of this or leaves the store as it was.
\<close>

lemma DeleteEntry_not_found:
  "find_entry_by_slug d s = None \<Longrightarrow>
     DeleteEntry flt s d = (Some (Errorf (''entry not found: '' @ s)), d)"
  by (simp add: DeleteEntry_def)

lemma find_slug_filter_none:
  "distinct (map e_slug xs) \<Longrightarrow> r \<in> set xs \<Longrightarrow>
   find (\<lambda>x. e_slug x = e_slug r) (filter (\<lambda>x. e_id x \<noteq> e_id r) xs) = None"
  by (induction xs) (auto simp: image_iff find_None_iff)

lemma deleted_state:
  assumes "db_ok d" and "find_entry_by_slug d s = Some r"
    and "d' = delete_entries fk (e_id r) (delete_fts (e_id r) d)"
  shows "find_entry_by_slug d' s = None"
    and "fst (GetEntry flt2 now s d') = Inl (Errorf (''entry not found: '' @ s))"
    and "GetStats d' s = Inl (Errorf (''entry not found: '' @ s))"
    and "fst (SearchEntries env flt2 now q f limit d') = Inr es \<Longrightarrow> e_id r \<notin> set (map ID es)"
    and "index_rows d' (e_id r) = []"
    and "fk \<Longrightarrow> \<forall>x \<in> set (entry_tags d'). et_entry_id x \<noteq> e_id r"
    and "fk \<Longrightarrow> \<forall>x \<in> set (entry_stats d'). es_entry_id x \<noteq> e_id r"
    and "fk \<Longrightarrow> assoc d' (e_id r) = {}"
proof -
  have mem: "r \<in> set (entries d)" and slug: "e_slug r = s"
    using assms(2) by (auto simp: find_entry_by_slug_def dest: find_member)
  show 1: "find_entry_by_slug d' s = None"
    using find_slug_filter_none [of "entries d" r] assms(1) mem slug
    by (simp add: assms(3) find_entry_by_slug_def delete_entries_frame delete_fts_def db_ok_def)
  show "fst (GetEntry flt2 now s d') = Inl (Errorf (''entry not found: '' @ s))"
    by (simp add: GetEntry_def 1)
  show "GetStats d' s = Inl (Errorf (''entry not found: '' @ s))"
    by (simp add: GetStats_def 1)
  show "e_id r \<notin> set (map ID es)"
    if h: "fst (SearchEntries env flt2 now q f limit d') = Inr es"
  proof
    assume "e_id r \<in> set (map ID es)"
    then obtain g where g: "g \<in> set es" "ID g = e_id r" by auto
    obtain p where p: "p \<in> set (search_rows env q d' f)" "ID g = e_id (snd p)"
      using search_result_ids [OF h g(1)] by blast
    have "snd p \<in> set (entries d')" using search_rows_mem [OF p(1)] by simp
    then show False using p(2) g(2) by (auto simp: assms(3) delete_entries_frame delete_fts_def)
  qed
  show "index_rows d' (e_id r) = []"
    by (auto simp: assms(3) index_rows_def delete_entries_frame delete_fts_def filter_empty_conv)
  show "\<forall>x \<in> set (entry_tags d'). et_entry_id x \<noteq> e_id r" if fk
    using that by (simp add: assms(3) delete_entries_def delete_fts_def)
  show "\<forall>x \<in> set (entry_stats d'). es_entry_id x \<noteq> e_id r" if fk
    using that by (simp add: assms(3) delete_entries_def delete_fts_def)
  show "assoc d' (e_id r) = {}" if fk
    using that by (auto simp: assms(3) assoc_def delete_entries_def delete_fts_def)
qed

lemma DeleteEntry_done:
  assumes "DeleteEntry flt s d = (None, d')"
  shows "\<exists>r. find_entry_by_slug d s = Some r
     \<and> d' = delete_entries (foreign_keys flt) (e_id r) (delete_fts (e_id r) d)"
  using assms by (auto simp: DeleteEntry_def exec_def split: option.splits if_splits)

lemma DeleteEntry_ctx_all_or_nothing:
  "DeleteEntry_ctx flt s d = (res, d') \<Longrightarrow>
     (res \<noteq> None \<and> d' = d) \<or>
     (res = None \<and> (\<exists>r. find_entry_by_slug d s = Some r
        \<and> d' = delete_entries (foreign_keys flt) (e_id r) (delete_fts (e_id r) d)))"
  by (auto simp: DeleteEntry_ctx_def exec_def split: option.splits if_splits)

text \<open>
  Claim C3. Deleting removes the index row, the entry row and, by the cascade, the tag
  associations and the statistics row as one atomic unit. The \<open>DeleteEntry\<close> of
  \<open>part_018\<close> runs its two \<open>DELETE\<close> statements on the connection, outside a transaction:
  when the second one is refused, the call returns \<open>delete entry: ...\<close> and the index row
  is gone while the entry, its tags and its statistics are still there; the entry is then
  read by slug and no longer found by a search that found it before. The \<open>DeleteEntry\<close> of
  \<open>part_017\<close>, which runs the same statements in one transaction, leaves the store
  unchanged on the same refusal. And the cascade is an action of the foreign keys, which
  \<open>Open\<close> switches on for one connection of the pool: a delete that another connection
  serves succeeds and leaves the tag associations and the statistics row of the entry in
  the store, where \<open>ListTags\<close> still counts them.
\<close>

theorem delete_not_atomic:
  "DeleteEntry (fault_at 1) ''a'' db_a
     = (Some (Wrapf ''delete entry'' StorageFault), db_a\<lparr>entries_fts := []\<rparr>)
   \<and> db_a\<lparr>entries_fts := []\<rparr> \<noteq> db_a
   \<and> map e_slug (entries (db_a\<lparr>entries_fts := []\<rparr>)) = [''a'']
   \<and> (case fst (SearchEntries sample_env no_faults ''t1'' ''monotreme'' no_filter 10 db_a) of
         Inr es \<Rightarrow> map Slug es = [''a''] | Inl c \<Rightarrow> False)
   \<and> fst (SearchEntries sample_env no_faults ''t1'' ''monotreme'' no_filter 10
        (db_a\<lparr>entries_fts := []\<rparr>)) = Inr []
   \<and> (case fst (GetEntry no_faults ''t1'' ''a'' (db_a\<lparr>entries_fts := []\<rparr>)) of
         Inr e \<Rightarrow> Slug e = ''a'' \<and> Tags e = Some [''egg'', ''zoo''] | Inl c \<Rightarrow> False)
   \<and> (case GetStats (db_a\<lparr>entries_fts := []\<rparr>) ''a'' of
         Inr st \<Rightarrow> True | Inl c \<Rightarrow> False)
   \<and> DeleteEntry_ctx (fault_at 2) ''a'' db_a = (Some (Wrapf ''delete entry'' StorageFault), db_a)
   \<and> DeleteEntry second_conn ''a'' db_a = (None, db_a\<lparr>entries := [], entries_fts := []\<rparr>)
   \<and> entry_tags (db_a\<lparr>entries := [], entries_fts := []\<rparr>)
       = [\<lparr>et_entry_id = 1, et_tag_id = 1\<rparr>, \<lparr>et_entry_id = 1, et_tag_id = 2\<rparr>]
   \<and> map es_entry_id (entry_stats (db_a\<lparr>entries := [], entries_fts := []\<rparr>)) = [1]
   \<and> ListTags (db_a\<lparr>entries := [], entries_fts := []\<rparr>)
       = [\<lparr>Name = ''egg'', Count = 1\<rparr>, \<lparr>Name = ''zoo'', Count = 1\<rparr>]
   \<and> DeleteEntry no_faults ''a'' db_a
       = (None, db_a\<lparr>entries := [], entry_tags := [], entry_stats := [], entries_fts := []\<rparr>)
   \<and> ListTags (db_a\<lparr>entries := [], entry_tags := [], entry_stats := [], entries_fts := []\<rparr>)
       = []"
  by (simp add: stmt_defs op_defs sample_defs)

section \<open>The write lock\<close>

text \<open>
  C4, as stated: while the lock is active, every create, update and delete fails with the
  locked error. \<open>CreateEntry\<close>, \<open>UpdateEntry\<close> and \<open>DeleteEntry\<close> do not read the lock row:
  on a locked store each of them goes through. (They are what the commands \<open>add\<close> and
  \<open>edit\<close> of the command line call; the lock stops the write tools of the dispatcher.)
\<close>

theorem locked_write_counterexample:
  "IsLocked (locked_by sample_env ''secret'' db_a)
   \<and> CreateEntry sample_env no_faults ''t1'' (new_entry ''b'' ''Birds'' ''kiwi'' [])
        (locked_by sample_env ''secret'' db_a)
       = (Inr \<lparr>ID = 2, Slug = ''b'', Title = ''Birds'', Description = [], Content = ''kiwi'',
               Kind = [], Language = [], Domain = [], Project = [], Version = 1,
               CreatedAt = ''t1'', UpdatedAt = ''t1'', Tags = Some [], Snippet = []\<rparr>,
          snd (CreateEntry sample_env no_faults ''t1'' (new_entry ''b'' ''Birds'' ''kiwi'' [])
            (locked_by sample_env ''secret'' db_a)))
   \<and> map e_slug (entries (snd (CreateEntry sample_env no_faults ''t1''
        (new_entry ''b'' ''Birds'' ''kiwi'' []) (locked_by sample_env ''secret'' db_a))))
       = [''a'', ''b'']
   \<and> UpdateEntry sample_env no_faults ''t2'' ''a'' [''content'' \<mapsto> JStr ''echidna'']
        (locked_by sample_env ''secret'' db_a)
       = (None, locked_by sample_env ''secret'' db_b)
   \<and> DeleteEntry no_faults ''a'' (locked_by sample_env ''secret'' db_a)
       = (None, (locked_by sample_env ''secret'' db_a)
            \<lparr>entries := [], entry_tags := [], entry_stats := [], entries_fts := []\<rparr>)"
  by (simp add: stmt_defs op_defs sample_defs db_b_def locked_by_def)

text \<open>
  C4, amended: \<open>Lock\<close> and \<open>Unlock\<close> fail on an empty secret; \<open>Lock\<close> with a non-empty
  secret fails when the lock is active and otherwise (when the storage engine accepts the
  update) activates it with the hash of the secret. While the lock is active the tools
  \<open>create_entry\<close>, \<open>update_entry\<close> and \<open>delete_entry\<close>, which call \<open>checkLock\<close> first,
  answer with the locked failure and leave the store untouched; \<open>CreateEntry\<close>,
  \<open>UpdateEntry\<close> and \<open>DeleteEntry\<close> themselves do on the locked store what they do on the
  unlocked one; and get, list, search, getByContext and getStats return what they return
  without the lock. \<open>Unlock\<close> with a non-empty secret fails with the not-locked error
  when the lock is inactive, with the invalid-token error when the hash of the secret
  differs from the stored hash, and with the original secret (when the storage engine
  accepts the update) clears the lock, after which the write tools answer as they did
  before the store was locked.
\<close>

theorem lock_semantics:
  assumes "token \<noteq> []" and "\<not> IsLocked d" and "\<not> refused flt 0"
    and "other \<noteq> []" and "hashToken env other \<noteq> hashToken env token"
  shows "Lock env flt [] d = (Some (Errorf ''token must not be empty''), d)
    \<and> Unlock env flt [] d = (Some (Errorf ''token must not be empty''), d)
    \<and> Unlock env flt [] (locked_by env token d)
        = (Some (Errorf ''token must not be empty''), locked_by env token d)
    \<and> Unlock env flt token d = (Some (Errorf ''database is not locked''), d)
    \<and> Lock env flt token d = (None, locked_by env token d)
    \<and> IsLocked (locked_by env token d)
    \<and> Lock env flt2 other (locked_by env token d)
        = (Some (Errorf ''database is already locked''), locked_by env token d)
    \<and> Lock env flt2 token (locked_by env token d)
        = (Some (Errorf ''database is already locked''), locked_by env token d)
    \<and> toolCreateEntry env fl now i args (locked_by env token d)
        = (locked_error i, locked_by env token d)
    \<and> toolUpdateEntry env fl now i args (locked_by env token d)
        = (locked_error i, locked_by env token d)
    \<and> toolDeleteEntry env fl i args (locked_by env token d)
        = (locked_error i, locked_by env token d)
    \<and> fst (GetEntry flt2 now s (locked_by env token d)) = fst (GetEntry flt2 now s d)
    \<and> ListEntries (locked_by env token d) f = ListEntries d f
    \<and> fst (SearchEntries env flt2 now q f limit (locked_by env token d))
        = fst (SearchEntries env flt2 now q f limit d)
    \<and> fst (GetEntriesByContext flt2 now f limit (locked_by env token d))
        = fst (GetEntriesByContext flt2 now f limit d)
    \<and> GetStats (locked_by env token d) s = GetStats d s
    \<and> fst (toolGetEntry env fl now i args (locked_by env token d))
        = fst (toolGetEntry env fl now i args d)
    \<and> toolListEntries i args (locked_by env token d) = toolListEntries i args d
    \<and> fst (toolSearchEntries env fl now i args (locked_by env token d))
        = fst (toolSearchEntries env fl now i args d)
    \<and> fst (toolGetEntriesByContext env fl now i args (locked_by env token d))
        = fst (toolGetEntriesByContext env fl now i args d)
    \<and> Unlock env flt2 other (locked_by env token d)
        = (Some (Errorf ''invalid token''), locked_by env token d)
    \<and> Unlock env flt token (locked_by env token d) = (None, unlocked d)
    \<and> \<not> IsLocked (unlocked d) \<and> checkLock (unlocked d) = None
    \<and> toolCreateEntry env fl now i args (unlocked d)
        = (fst (toolCreateEntry env fl now i args d),
           unlocked (snd (toolCreateEntry env fl now i args d)))
    \<and> toolUpdateEntry env fl now i args (unlocked d)
        = (fst (toolUpdateEntry env fl now i args d),
           unlocked (snd (toolUpdateEntry env fl now i args d)))
    \<and> toolDeleteEntry env fl i args (unlocked d)
        = (fst (toolDeleteEntry env fl i args d),
           unlocked (snd (toolDeleteEntry env fl i args d)))
    \<and> CreateEntry env flt2 now e (locked_by env token d)
        = (fst (CreateEntry env flt2 now e d),
           locked_by env token (snd (CreateEntry env flt2 now e d)))
    \<and> UpdateEntry env flt2 now s flds (locked_by env token d)
        = (fst (UpdateEntry env flt2 now s flds d),
           locked_by env token (snd (UpdateEntry env flt2 now s flds d)))
    \<and> DeleteEntry flt2 s (locked_by env token d)
        = (fst (DeleteEntry flt2 s d), locked_by env token (snd (DeleteEntry flt2 s d)))"
proof -
  let ?L = "locked_by env token d"
  have L: "IsLocked ?L" by (simp add: locked_by_def IsLocked_def)
  have lk: "?L = d\<lparr>lock := \<lparr>lock_active = 1, lock_token = hashToken env token\<rparr>\<rparr>"
    by (simp add: locked_by_def)
  have w: "toolCreateEntry env fl now i args ?L = (locked_error i, ?L)"
    "toolUpdateEntry env fl now i args ?L = (locked_error i, ?L)"
    "toolDeleteEntry env fl i args ?L = (locked_error i, ?L)"
    using L by (simp_all add: toolCreateEntry_def toolUpdateEntry_def toolDeleteEntry_def
        checkLock_def locked_error_def error_text_def)
  have r: "fst (GetEntry flt2 now s ?L) = fst (GetEntry flt2 now s d)"
    "ListEntries ?L f = ListEntries d f"
    "fst (SearchEntries env flt2 now q f limit ?L) = fst (SearchEntries env flt2 now q f limit d)"
    "fst (GetEntriesByContext flt2 now f limit ?L) = fst (GetEntriesByContext flt2 now f limit d)"
    "GetStats ?L s = GetStats d s"
    by (simp_all add: lk GetEntry_lock ListEntries_lock SearchEntries_lock
        GetEntriesByContext_lock GetStats_lock)
  have t: "fst (toolGetEntry env fl now i args ?L) = fst (toolGetEntry env fl now i args d)"
    "toolListEntries i args ?L = toolListEntries i args d"
    "fst (toolSearchEntries env fl now i args ?L) = fst (toolSearchEntries env fl now i args d)"
    "fst (toolGetEntriesByContext env fl now i args ?L)
       = fst (toolGetEntriesByContext env fl now i args d)"
    by (simp_all add: lk toolGetEntry_def toolListEntries_def toolSearchEntries_def
        toolGetEntriesByContext_def GetEntry_lock ListEntries_lock SearchEntries_lock
        GetEntriesByContext_lock split: prod.splits sum.splits)
  have u: "\<not> IsLocked (unlocked d)" "checkLock (unlocked d) = None"
    by (simp_all add: unlocked_def IsLocked_def checkLock_def)
  have l1: "Lock env flt [] d = (Some (Errorf ''token must not be empty''), d)"
    "Unlock env flt [] d = (Some (Errorf ''token must not be empty''), d)"
    "Unlock env flt [] ?L = (Some (Errorf ''token must not be empty''), ?L)"
    by (simp_all add: Lock_def Unlock_def)
  have l2: "Unlock env flt token d = (Some (Errorf ''database is not locked''), d)"
    "Lock env flt token d = (None, ?L)"
    using assms(1,2,3) by (simp_all add: Lock_def Unlock_def locked_by_def)
  have l3: "Lock env flt2 other ?L = (Some (Errorf ''database is already locked''), ?L)"
    "Lock env flt2 token ?L = (Some (Errorf ''database is already locked''), ?L)"
    using assms(1,4) L by (simp_all add: Lock_def)
  have l4: "Unlock env flt2 other ?L = (Some (Errorf ''invalid token''), ?L)"
    using assms(4,5) L by (auto simp: Unlock_def locked_by_def)
  have l5: "Unlock env flt token ?L = (None, unlocked d)"
    using assms(1,3) L by (simp add: Unlock_def locked_by_def unlocked_def)
  note v = tools_after_unlock [OF assms(2)]
  have g: "CreateEntry env flt2 now e ?L
        = (fst (CreateEntry env flt2 now e d), locked_by env token (snd (CreateEntry env flt2 now e d)))"
    "UpdateEntry env flt2 now s flds ?L
        = (fst (UpdateEntry env flt2 now s flds d),
           locked_by env token (snd (UpdateEntry env flt2 now s flds d)))"
    "DeleteEntry flt2 s ?L
        = (fst (DeleteEntry flt2 s d), locked_by env token (snd (DeleteEntry flt2 s d)))"
    by (simp_all add: locked_by_def CreateEntry_lock UpdateEntry_lock DeleteEntry_lock)
  show ?thesis
    by (intro conjI l1 l2 L l3 w r t l4 l5 u v g)
qed

theorem lock_semantics_witness:
  "\<not> IsLocked db_a
   \<and> hashToken sample_env ''wrong'' \<noteq> hashToken sample_env ''secret''
   \<and> Lock sample_env no_faults ''secret'' db_a = (None, locked_by sample_env ''secret'' db_a)
   \<and> toolDeleteEntry sample_env (\<lambda>k. no_faults) None [''slug'' \<mapsto> JStr ''a'']
        (locked_by sample_env ''secret'' db_a)
       = (locked_error None, locked_by sample_env ''secret'' db_a)
   \<and> toolCreateEntry sample_env (\<lambda>k. no_faults) ''t1'' None
        [''slug'' \<mapsto> JStr ''b'', ''title'' \<mapsto> JStr ''Birds'', ''content'' \<mapsto> JStr ''kiwi'']
        (locked_by sample_env ''secret'' db_a)
       = (toolError None ''database is locked. Write operations are disabled'',
          locked_by sample_env ''secret'' db_a)
   \<and> toolUpdateEntry sample_env (\<lambda>k. no_faults) ''t1'' None
        [''slug'' \<mapsto> JStr ''a'', ''content'' \<mapsto> JStr ''echidna'']
        (locked_by sample_env ''secret'' db_a)
       = (toolError None ''database is locked. Write operations are disabled'',
          locked_by sample_env ''secret'' db_a)
   \<and> fst (GetEntry no_faults ''t1'' ''a'' (locked_by sample_env ''secret'' db_a))
       = fst (GetEntry no_faults ''t1'' ''a'' db_a)
   \<and> Unlock sample_env no_faults ''wrong'' (locked_by sample_env ''secret'' db_a)
       = (Some (Errorf ''invalid token''), locked_by sample_env ''secret'' db_a)
   \<and> Unlock sample_env no_faults ''secret'' (locked_by sample_env ''secret'' db_a)
       = (None, db_a)
   \<and> Unlock sample_env no_faults ''secret'' db_a
       = (Some (Errorf ''database is not locked''), db_a)
   \<and> toolDeleteEntry sample_env (\<lambda>k. no_faults) None [''slug'' \<mapsto> JStr ''a'']
        (snd (Unlock sample_env no_faults ''secret'' (locked_by sample_env ''secret'' db_a)))
       = (toolResult None (DDeleted ''a''),
          db_a\<lparr>entries := [], entry_tags := [], entry_stats := [], entries_fts := []\<rparr>)"
proof -
  have h1: "''secret'' \<noteq> []" by simp
  have h2: "\<not> IsLocked db_a" by (simp add: IsLocked_def db_a_def)
  have h3: "\<not> refused no_faults 0" by (simp add: no_faults_def)
  have h4: "''wrong'' \<noteq> []" by simp
  have h5: "hashToken sample_env ''wrong'' \<noteq> hashToken sample_env ''secret''"
    by (simp add: hashToken_def sample_env_def)
  have u: "unlocked db_a = db_a" by (simp add: unlocked_def db_a_def)
  have tc: "toolCreateEntry sample_env (\<lambda>k. no_faults) ''t1'' None
        [''slug'' \<mapsto> JStr ''b'', ''title'' \<mapsto> JStr ''Birds'', ''content'' \<mapsto> JStr ''kiwi'']
        (locked_by sample_env ''secret'' db_a)
       = (toolError None ''database is locked. Write operations are disabled'',
          locked_by sample_env ''secret'' db_a)"
    by (simp add: toolCreateEntry_def checkLock_def IsLocked_def locked_by_def error_text_def)
  have tu: "toolUpdateEntry sample_env (\<lambda>k. no_faults) ''t1'' None
        [''slug'' \<mapsto> JStr ''a'', ''content'' \<mapsto> JStr ''echidna'']
        (locked_by sample_env ''secret'' db_a)
       = (toolError None ''database is locked. Write operations are disabled'',
          locked_by sample_env ''secret'' db_a)"
    by (simp add: toolUpdateEntry_def checkLock_def IsLocked_def locked_by_def error_text_def)
  have td: "toolDeleteEntry sample_env (\<lambda>k. no_faults) None [''slug'' \<mapsto> JStr ''a''] db_a
       = (toolResult None (DDeleted ''a''),
          db_a\<lparr>entries := [], entry_tags := [], entry_stats := [], entries_fts := []\<rparr>)"
    by (simp add: stmt_defs op_defs mcp_defs sample_defs)
  show ?thesis
    using lock_semantics [where flt = no_faults and env = sample_env and ?flt2.0 = no_faults
        and fl = "\<lambda>k. no_faults" and i = None and args = "[''slug'' \<mapsto> JStr ''a'']"
        and now = "''t1''" and s = "''a''", OF h1 h2 h3 h4 h5] h2 h5 td tc tu
    by (simp add: u)
qed

section \<open>Result limits\<close>

text \<open>
  C5, as stated: the limit of search and of getByContext is the requested value clamped
  to [1,50]. The code does not clamp: a request for 100 search results is served with
  the default 10 where clamping gives 50, and a request for 0 context entries is served
  with the default 20 where clamping gives 1.
\<close>

theorem limit_clamp_counterexample:
  "search_limit 100 = 10 \<and> spec_clamp_limit 100 = 50 \<and>
   context_limit 0 = 20 \<and> spec_clamp_limit 0 = 1"
  by (simp add: search_limit_def context_limit_def spec_clamp_limit_def)

text \<open>
  C5, amended: the effective limit is the requested value when it lies in [1,50] and the
  default otherwise (10 for search, 20 for getByContext), so it always lies in [1,50];
  a tool call without a limit argument uses the default; the number of returned entries
  never exceeds the effective limit.
\<close>

theorem result_limits:
  assumes "SearchEntries env flt now q f limit d = (Inr es, d')"
    and "GetEntriesByContext flt2 now2 f2 limit2 d2 = (es2, d2')"
    and "args ''limit'' = None"
  shows "search_limit limit = (if 1 \<le> limit \<and> limit \<le> 50 then limit else 10)
    \<and> context_limit limit2 = (if 1 \<le> limit2 \<and> limit2 \<le> 50 then limit2 else 20)
    \<and> 1 \<le> search_limit limit \<and> search_limit limit \<le> 50
    \<and> 1 \<le> context_limit limit2 \<and> context_limit limit2 \<le> 50
    \<and> int (length es) \<le> search_limit limit
    \<and> int (length es2) \<le> context_limit limit2
    \<and> search_limit (intVal args ''limit'' 10) = 10
    \<and> context_limit (intVal args ''limit'' 20) = 20
    \<and> length (tool_entries (fst (toolSearchEntries env fl now i args d))) \<le> 10
    \<and> length (tool_entries (fst (toolGetEntriesByContext env fl now i args d))) \<le> 20"
proof -
  have a: "search_limit limit = (if 1 \<le> limit \<and> limit \<le> 50 then limit else 10)"
    by (auto simp: search_limit_def)
  have b: "context_limit limit2 = (if 1 \<le> limit2 \<and> limit2 \<le> 50 then limit2 else 20)"
    by (auto simp: context_limit_def)
  have c: "int (length es) \<le> search_limit limit"
    using assms(1) a by (auto simp: SearchEntries_def Let_def split: if_splits)
  have d: "int (length es2) \<le> context_limit limit2"
    using assms(2) b by (auto simp: GetEntriesByContext_def Let_def split: if_splits)
  have e: "intVal args ''limit'' 10 = 10" "intVal args ''limit'' 20 = 20"
    using assms(3) by (simp_all add: intVal_def)
  have f: "length (tool_entries (fst (toolSearchEntries env fl now i args d))) \<le> 10"
    by (simp add: toolSearchEntries_def SearchEntries_def e search_limit_def tool_entries_def
        toolError_def toolResult_def rpcResult_def Let_def)
  have g: "length (tool_entries (fst (toolGetEntriesByContext env fl now i args d))) \<le> 20"
    by (simp add: toolGetEntriesByContext_def GetEntriesByContext_def e context_limit_def
        tool_entries_def toolResult_def rpcResult_def Let_def)
  show ?thesis using a b c d e f g by (simp add: search_limit_def context_limit_def)
qed

theorem result_limits_witness:
  "fst (SearchEntries sample_env no_faults ''t1'' ''mono'' no_filter 100 db_a)
     = Inr [\<lparr>ID = 1, Slug = ''a'', Title = ''Animal Guide'', Description = [], Content = [],
             Kind = ''skill'', Language = [], Domain = [], Project = [], Version = 1,
             CreatedAt = ''t0'', UpdatedAt = ''t0'', Tags = Some [''egg'', ''zoo''],
             Snippet = ''monotreme''\<rparr>]
   \<and> search_limit 100 = 10
   \<and> length (fst (GetEntriesByContext no_faults ''t1'' no_filter 0 db_a)) = 1
   \<and> context_limit 0 = 20
   \<and> length (tool_entries (fst (toolSearchEntries sample_env (\<lambda>k. no_faults) ''t1'' None
        [''query'' \<mapsto> JStr ''mono''] db_a))) \<le> 10"
proof -
  obtain es d' where h1:
    "SearchEntries sample_env no_faults ''t1'' ''mono'' no_filter 100 db_a = (Inr es, d')"
    by (simp add: stmt_defs op_defs sample_defs)
  obtain es2 d2' where h2: "GetEntriesByContext no_faults ''t1'' no_filter 0 db_a = (es2, d2')"
    by (cases "GetEntriesByContext no_faults ''t1'' no_filter 0 db_a")
  have h3: "[''query'' \<mapsto> JStr ''mono''] ''limit'' = None" by simp
  have e1: "fst (SearchEntries sample_env no_faults ''t1'' ''mono'' no_filter 100 db_a)
     = Inr [\<lparr>ID = 1, Slug = ''a'', Title = ''Animal Guide'', Description = [], Content = [],
             Kind = ''skill'', Language = [], Domain = [], Project = [], Version = 1,
             CreatedAt = ''t0'', UpdatedAt = ''t0'', Tags = Some [''egg'', ''zoo''],
             Snippet = ''monotreme''\<rparr>]"
    by (simp add: stmt_defs op_defs sample_defs)
  have e2: "length (fst (GetEntriesByContext no_faults ''t1'' no_filter 0 db_a)) = 1"
    by (simp add: stmt_defs op_defs sample_defs)
  show ?thesis
    using result_limits [where args = "[''query'' \<mapsto> JStr ''mono'']"
        and fl = "\<lambda>k. no_faults" and i = None, OF h1 h2 h3] e1 e2
    by (simp add: search_limit_def context_limit_def)
qed

section \<open>Updating an entry\<close>






section \<open>Replacing the tags of an entry\<close>

text \<open>
  C7: \<open>setTags\<close> on a store that satisfies the key constraints. After a successful
  replacement the entry is associated with exactly the trimmed, non-blank names of the
  list: the former associations are gone, the tag rows that existed are kept, and the tag
  rows that were added are those of the names that had none; the associations of every
  other entry and every other table are untouched, and no key is duplicated. Blank names
  are dropped: for every connection and store the call does what it does on the list
  without them, and on a connection that refuses nothing it succeeds for every list of
  names (on one that enforces foreign keys, when the entry exists). Applying the same
  list again leaves every table as it is; only the counter of tag ids goes on, because
  an ignored insert uses up an id. \<open>CreateEntry\<close> hands the tags of the new entry to
  \<open>setTags\<close>, and \<open>UpdateEntry\<close> the list under the key tags, inside their transaction:
  after a successful create or update the entry has exactly the names asked for, and
  when either returns an error, also one from \<open>setTags\<close>, the store is unchanged.
\<close>

theorem setTags_replaces:
  assumes "db_ok d" and "setTags env flt n i tgs d = Inr (m, d1)"
  shows "assoc d1 i = set (filter (\<lambda>nm. nm \<noteq> []) (map (trimSpace env) tgs))
    \<and> (\<forall>j. j \<noteq> i \<longrightarrow> assoc d1 j = assoc d j)
    \<and> filter (\<lambda>r. et_entry_id r \<noteq> i) (entry_tags d1)
        = filter (\<lambda>r. et_entry_id r \<noteq> i) (entry_tags d)
    \<and> (\<exists>ys. tags d1 = tags d @ ys)
    \<and> set (map t_name (tags d1)) = set (map t_name (tags d)) \<union> wanted env tgs
    \<and> entries d1 = entries d \<and> entry_stats d1 = entry_stats d
    \<and> entries_fts d1 = entries_fts d \<and> lock d1 = lock d
    \<and> db_ok d1
    \<and> (\<forall>flt' n' j d'. setTags env flt' n' j tgs d'
          = setTags env flt' n' j (filter (\<lambda>t. trimSpace env t \<noteq> []) tgs) d')
    \<and> (\<forall>flt' n' j d'. (\<forall>k. \<not> refused flt' k)
          \<and> (foreign_keys flt' \<longrightarrow> j \<in> set (map e_id (entries d')))
          \<longrightarrow> (\<exists>m' d2. setTags env flt' n' j tgs d' = Inr (m', d2)))
    \<and> (\<forall>flt' n' m' d2. setTags env flt' n' i tgs d1 = Inr (m', d2) \<longrightarrow>
          d2 = d1\<lparr>tags_seq := tags_seq d2\<rparr> \<and> assoc d2 i = assoc d1 i)
    \<and> (\<forall>flt' now e e' d'. CreateEntry env flt' now e d = (Inr e', d') \<longrightarrow>
          (\<forall>ts. Tags e = Some ts \<longrightarrow> assoc d' (ID e') = wanted env ts)
          \<and> (Tags e = None \<longrightarrow> assoc d' (ID e') = {})
          \<and> (\<forall>j. j \<noteq> ID e' \<longrightarrow> assoc d' j = assoc d j))
    \<and> (\<forall>flt' now s flds r d'. UpdateEntry env flt' now s flds d = (None, d')
          \<and> find_entry_by_slug d s = Some r \<longrightarrow>
          (\<forall>ts. flds ''tags'' = Some (JArr (map JStr ts)) \<longrightarrow> assoc d' (e_id r) = wanted env ts)
          \<and> (flds ''tags'' = None \<longrightarrow> assoc d' (e_id r) = assoc d (e_id r))
          \<and> (\<forall>j. j \<noteq> e_id r \<longrightarrow> assoc d' j = assoc d j))
    \<and> (\<forall>flt' e now err d'. CreateEntry env flt' now e d = (Inl err, d') \<longrightarrow> d' = d)
    \<and> (\<forall>flt' s flds now err d'. UpdateEntry env flt' now s flds d = (Some err, d') \<longrightarrow> d' = d)"
proof -
  have a: "assoc d1 i = set (filter (\<lambda>nm. nm \<noteq> []) (map (trimSpace env) tgs))"
    "\<forall>j. j \<noteq> i \<longrightarrow> assoc d1 j = assoc d j"
    using setTags_assoc [OF assms(2) assms(1)] by (simp_all add: wanted_def del: set_filter)
  have l: "setTags_loop env flt (n + 1) i tgs (delete_entry_tags i d) = Inr (m, d1)"
    using assms(2) by (auto simp: setTags_def exec_def split: if_splits)
  have b: "filter (\<lambda>r. et_entry_id r \<noteq> i) (entry_tags d1)
        = filter (\<lambda>r. et_entry_id r \<noteq> i) (entry_tags d)"
    using setTags_loop_others [OF l] by (simp add: delete_entry_tags_def)
  have e: "\<exists>ys. tags d1 = tags d @ ys"
    using setTags_loop_tags_prefix [OF l] by (simp add: delete_entry_tags_def)
  have c: "set (map t_name (tags d1)) = set (map t_name (tags d)) \<union> wanted env tgs"
    using setTags_names [OF assms(2)] .
  have fr: "entries d1 = entries d" "entry_stats d1 = entry_stats d"
    "entries_fts d1 = entries_fts d" "lock d1 = lock d"
    using setTags_frame [OF assms(2)] by simp_all
  have f: "db_ok d1" using setTags_ok [OF assms(2) assms(1)] .
  have g: "\<forall>flt' n' j d'. setTags env flt' n' j tgs d'
          = setTags env flt' n' j (filter (\<lambda>t. trimSpace env t \<noteq> []) tgs) d'"
    using setTags_blank by blast
  have h: "\<forall>flt' n' j d'. (\<forall>k. \<not> refused flt' k)
          \<and> (foreign_keys flt' \<longrightarrow> j \<in> set (map e_id (entries d')))
          \<longrightarrow> (\<exists>m' d2. setTags env flt' n' j tgs d' = Inr (m', d2))"
    using setTags_succeeds by blast
  have k: "\<forall>flt' n' m' d2. setTags env flt' n' i tgs d1 = Inr (m', d2) \<longrightarrow>
          d2 = d1\<lparr>tags_seq := tags_seq d2\<rparr> \<and> assoc d2 i = assoc d1 i"
  proof (intro allI impI)
    fix flt' n' m' d2
    assume s: "setTags env flt' n' i tgs d1 = Inr (m', d2)"
    have 1: "d2 = d1\<lparr>tags_seq := tags_seq d2\<rparr>" using setTags_idem [OF assms(2) s] .
    have "assoc d2 i = assoc (d1\<lparr>tags_seq := tags_seq d2\<rparr>) i" using 1 by simp
    then have 2: "assoc d2 i = assoc d1 i" by (simp add: assoc_def)
    show "d2 = d1\<lparr>tags_seq := tags_seq d2\<rparr> \<and> assoc d2 i = assoc d1 i" using 1 2 by simp
  qed
  have cr: "\<forall>flt' now e e' d'. CreateEntry env flt' now e d = (Inr e', d') \<longrightarrow>
          (\<forall>ts. Tags e = Some ts \<longrightarrow> assoc d' (ID e') = wanted env ts)
          \<and> (Tags e = None \<longrightarrow> assoc d' (ID e') = {})
          \<and> (\<forall>j. j \<noteq> ID e' \<longrightarrow> assoc d' j = assoc d j)"
  proof (intro allI impI)
    fix flt' now e e' d'
    assume s: "CreateEntry env flt' now e d = (Inr e', d')"
    note t = CreateEntry_tx_assoc [OF CreateEntry_Inr(1) [OF s] assms(1)]
    show "(\<forall>ts. Tags e = Some ts \<longrightarrow> assoc d' (ID e') = wanted env ts)
          \<and> (Tags e = None \<longrightarrow> assoc d' (ID e') = {})
          \<and> (\<forall>j. j \<noteq> ID e' \<longrightarrow> assoc d' j = assoc d j)"
      using t [of "ID e'"] t by (auto simp: slice_items_def wanted_def)
  qed
  have up: "\<forall>flt' now s flds r d'. UpdateEntry env flt' now s flds d = (None, d')
          \<and> find_entry_by_slug d s = Some r \<longrightarrow>
          (\<forall>ts. flds ''tags'' = Some (JArr (map JStr ts)) \<longrightarrow> assoc d' (e_id r) = wanted env ts)
          \<and> (flds ''tags'' = None \<longrightarrow> assoc d' (e_id r) = assoc d (e_id r))
          \<and> (\<forall>j. j \<noteq> e_id r \<longrightarrow> assoc d' j = assoc d j)"
  proof (intro allI impI, elim conjE)
    fix flt' now s flds r d'
    assume s: "UpdateEntry env flt' now s flds d = (None, d')"
      and r: "find_entry_by_slug d s = Some r"
    have tx: "UpdateEntry_tx env flt' now s flds d = Inr d'"
      using s by (auto simp: UpdateEntry_def split: sum.splits)
    note tb = UpdateEntry_tx_tables [OF tx assms(1) r]
    have 1: "\<forall>ts. flds ''tags'' = Some (JArr (map JStr ts)) \<longrightarrow> assoc d' (e_id r) = wanted env ts"
      using tb(9) by (auto simp: tag_list_of_def o_def)
    have 2: "flds ''tags'' = None \<longrightarrow> assoc d' (e_id r) = assoc d (e_id r)"
      using tb(8) by (auto simp: assoc_def)
    have 3: "\<forall>j. j \<noteq> e_id r \<longrightarrow> assoc d' j = assoc d j"
    proof (cases "flds ''tags''")
      case None
      then show ?thesis using tb(8) by (simp add: assoc_def)
    next
      case (Some v)
      then show ?thesis using tb(9) by simp
    qed
    show "(\<forall>ts. flds ''tags'' = Some (JArr (map JStr ts)) \<longrightarrow> assoc d' (e_id r) = wanted env ts)
          \<and> (flds ''tags'' = None \<longrightarrow> assoc d' (e_id r) = assoc d (e_id r))
          \<and> (\<forall>j. j \<noteq> e_id r \<longrightarrow> assoc d' j = assoc d j)"
      using 1 2 3 by blast
  qed
  have p: "\<forall>flt' e now err d'. CreateEntry env flt' now e d = (Inl err, d') \<longrightarrow> d' = d"
    using CreateEntry_Inl by blast
  have q: "\<forall>flt' s flds now err d'. UpdateEntry env flt' now s flds d = (Some err, d') \<longrightarrow> d' = d"
    by (auto simp: UpdateEntry_def split: sum.splits)
  show ?thesis by (intro conjI a b e c fr f g h k cr up p q)
qed

theorem setTags_replaces_witness:
  "db_ok db_a
   \<and> setTags sample_env no_faults 4 1 [''new'', ''  '', '' egg '', ''new''] db_a = Inr (11, db_c)
   \<and> assoc db_c 1 = {''new'', ''egg''}
   \<and> setTags sample_env no_faults 4 1 [''new'', ''  '', '' egg '', ''new''] db_c
       = Inr (11, db_c\<lparr>tags_seq := 9\<rparr>)
   \<and> setTags sample_env no_faults 4 1 [''  '', []] db_a = Inr (5, db_a\<lparr>entry_tags := []\<rparr>)
   \<and> snd (CreateEntry sample_env no_faults ''t0''
        (new_entry ''a'' ''Animal Guide'' ''monotreme'' [''zoo'', '' '', ''egg '', ''zoo''])
        empty_db) = db_a
   \<and> assoc db_a 1 = {''zoo'', ''egg''}
   \<and> assoc (snd (UpdateEntry sample_env no_faults ''t4'' ''a''
        [''tags'' \<mapsto> JArr [JStr '' new '', JStr ''egg'']] db_a)) 1 = {''new'', ''egg''}
   \<and> CreateEntry sample_env (fault_at 5) ''t1'' (new_entry ''b'' ''Birds'' ''kiwi'' [''x'']) db_a
       = (Inl (Wrapf ''set tags'' StorageFault), db_a)"
proof -
  have ok: "db_ok db_a" by (simp add: db_ok_def db_a_def)
  have r: "setTags sample_env no_faults 4 1 [''new'', ''  '', '' egg '', ''new''] db_a
      = Inr (11, db_c)"
    by (simp add: stmt_defs op_defs sample_defs db_c_def)
  note T = setTags_replaces [OF ok r]
  have a: "assoc db_c 1 = {''new'', ''egg''}"
    using T by (simp add: sample_env_def trim_blanks_def insert_commute)
  have r2: "setTags sample_env no_faults 4 1 [''new'', ''  '', '' egg '', ''new''] db_c
       = Inr (11, db_c\<lparr>tags_seq := 9\<rparr>)"
    by (simp add: stmt_defs op_defs sample_defs db_c_def)
  have bl: "setTags sample_env no_faults 4 1 [''  '', []] db_a = Inr (5, db_a\<lparr>entry_tags := []\<rparr>)"
    by (simp add: stmt_defs op_defs sample_defs)
  have c: "snd (CreateEntry sample_env no_faults ''t0''
        (new_entry ''a'' ''Animal Guide'' ''monotreme'' [''zoo'', '' '', ''egg '', ''zoo''])
        empty_db) = db_a"
    by (simp add: stmt_defs op_defs sample_defs)
  have ca: "assoc db_a 1 = {''zoo'', ''egg''}"
    by (simp add: assoc_def db_a_def)
  have u: "assoc (snd (UpdateEntry sample_env no_faults ''t4'' ''a''
        [''tags'' \<mapsto> JArr [JStr '' new '', JStr ''egg'']] db_a)) 1 = {''new'', ''egg''}"
    by (simp add: stmt_defs op_defs sample_defs assoc_def insert_commute)
  have x: "CreateEntry sample_env (fault_at 5) ''t1'' (new_entry ''b'' ''Birds'' ''kiwi'' [''x'']) db_a
       = (Inl (Wrapf ''set tags'' StorageFault), db_a)"
    by (simp add: stmt_defs op_defs sample_defs)
  show ?thesis using ok r a r2 bl c ca u x by simp
qed

section \<open>Unknown methods, tools and prompts\<close>

text \<open>
  C8, as stated: a tools/call that names an unknown tool is answered with a successful
  result marked as a tool-level failure. In the code the answer carries no result: it is
  the protocol error -32602.
\<close>

theorem unknown_tool_counterexample:
  "fst (dispatch sample_env (\<lambda>k. no_faults) ''t''
     \<lparr>ReqID = Some (JNum 1), Method = ''tools/call'',
      Params = Some (JObj [(''name'', JStr ''bogus_tool'')])\<rparr>
     \<lparr>DB = empty_db, sessions = []\<rparr>)
   = Some \<lparr>RespID = Some (JNum 1), Result = None,
            Error = Some \<lparr>Code = - 32602, Message = ''Unknown tool: bogus_tool''\<rparr>\<rparr>"
  by (simp add: dispatch_def with_db_def handleToolsCall_def sample_env_def decode_call_def
      rpcErr_def)

text \<open>
  C8, amended: a request whose method is not in the method table is answered with the
  protocol error -32601 (method not found); a tools/call naming a tool outside the eight
  tools and a prompts/get naming a prompt outside the three prompts are answered with
  the protocol error -32602, whose message carries the unknown name; none of the three
  changes the server.
\<close>

theorem unknown_names:
  assumes "Method r1 \<notin> set method_table"
    and "Method r2 = ''tools/call''" and "unmarshal_call env (Params r2) = Inr (nm, args)"
    and "nm \<notin> set toolDefinitions"
    and "Method r3 = ''prompts/get''" and "unmarshal_prompt env (Params r3) = Some (pn, pargs)"
    and "pn \<notin> set prompt_names"
  shows "dispatch env fl now r1 sv =
           (Some (rpcErr (ReqID r1) (- 32601) (''Method not found: '' @ Method r1)), sv)
    \<and> dispatch env fl now r2 sv =
           (Some (rpcErr (ReqID r2) (- 32602) (''Unknown tool: '' @ nm)), sv)
    \<and> dispatch env fl now r3 sv =
           (Some (rpcErr (ReqID r3) (- 32602) (''Unknown prompt: '' @ pn)), sv)"
proof -
  have 1: "dispatch env fl now r1 sv =
           (Some (rpcErr (ReqID r1) (- 32601) (''Method not found: '' @ Method r1)), sv)"
    using assms(1) by (simp add: dispatch_def method_table_def)
  have 2: "dispatch env fl now r2 sv =
           (Some (rpcErr (ReqID r2) (- 32602) (''Unknown tool: '' @ nm)), sv)"
    using assms(2,3,4)
    by (simp add: dispatch_def with_db_def handleToolsCall_def toolDefinitions_def)
  have 3: "dispatch env fl now r3 sv =
           (Some (rpcErr (ReqID r3) (- 32602) (''Unknown prompt: '' @ pn)), sv)"
    using assms(5,6,7)
    by (simp add: dispatch_def with_db_def handlePromptsGet_def prompt_names_def Let_def)
  show ?thesis using 1 2 3 by simp
qed

theorem unknown_names_witness:
  "dispatch sample_env (\<lambda>k. no_faults) ''t''
      \<lparr>ReqID = Some (JNum 1), Method = ''bogus/method'', Params = None\<rparr>
      \<lparr>DB = db_a, sessions = []\<rparr>
    = (Some (rpcErr (Some (JNum 1)) (- 32601) ''Method not found: bogus/method''),
       \<lparr>DB = db_a, sessions = []\<rparr>)
   \<and> dispatch sample_env (\<lambda>k. no_faults) ''t''
      \<lparr>ReqID = Some (JNum 2), Method = ''tools/call'',
       Params = Some (JObj [(''name'', JStr ''bogus_tool'')])\<rparr>
      \<lparr>DB = db_a, sessions = []\<rparr>
    = (Some (rpcErr (Some (JNum 2)) (- 32602) ''Unknown tool: bogus_tool''),
       \<lparr>DB = db_a, sessions = []\<rparr>)
   \<and> dispatch sample_env (\<lambda>k. no_faults) ''t''
      \<lparr>ReqID = Some (JNum 3), Method = ''prompts/get'',
       Params = Some (JObj [(''name'', JStr ''nonexistent'')])\<rparr>
      \<lparr>DB = db_a, sessions = []\<rparr>
    = (Some (rpcErr (Some (JNum 3)) (- 32602) ''Unknown prompt: nonexistent''),
       \<lparr>DB = db_a, sessions = []\<rparr>)"
proof -
  have h1: "Method \<lparr>ReqID = Some (JNum 1), Method = ''bogus/method'', Params = None\<rparr>
      \<notin> set method_table"
    by (simp add: method_table_def)
  have h2: "Method \<lparr>ReqID = Some (JNum 2), Method = ''tools/call'',
       Params = Some (JObj [(''name'', JStr ''bogus_tool'')])\<rparr> = ''tools/call''"
    by simp
  have h3: "unmarshal_call sample_env (Params \<lparr>ReqID = Some (JNum 2), Method = ''tools/call'',
       Params = Some (JObj [(''name'', JStr ''bogus_tool'')])\<rparr>) = Inr (''bogus_tool'', Map.empty)"
    by (simp add: sample_env_def decode_call_def)
  have h4: "''bogus_tool'' \<notin> set toolDefinitions"
    by (simp add: toolDefinitions_def)
  have h5: "Method \<lparr>ReqID = Some (JNum 3), Method = ''prompts/get'',
       Params = Some (JObj [(''name'', JStr ''nonexistent'')])\<rparr> = ''prompts/get''"
    by simp
  have h6: "unmarshal_prompt sample_env (Params \<lparr>ReqID = Some (JNum 3), Method = ''prompts/get'',
       Params = Some (JObj [(''name'', JStr ''nonexistent'')])\<rparr>) = Some (''nonexistent'', Map.empty)"
    by (simp add: sample_env_def decode_prompt_def)
  have h7: "''nonexistent'' \<notin> set prompt_names"
    by (simp add: prompt_names_def)
  show ?thesis
    using unknown_names [OF h1 h2 h3 h4 h5 h6 h7, where fl = "\<lambda>k. no_faults"
        and now = "''t''" and sv = "\<lparr>DB = db_a, sessions = []\<rparr>"]
    by simp
qed

section \<open>The usage guide\<close>

text \<open>
  Claim C9. The usage guide is read at \<open>mcpedia://how-to-use\<close>, with a built-in body when
  no entry has the slug \<open>how-to-use\<close> and the content of that entry when there is one, and
  it is not in the resource listing. \<open>handleResourcesRead\<close> takes the slug from the prefix
  \<open>mcpedia://entries/\<close> only: the guide's own URI is an invalid resource URI, whether an
  entry \<open>how-to-use\<close> exists or not, \<open>mcpedia://entries/how-to-use\<close> on an empty store is
  \<open>entry not found\<close>, and \<open>handleResourcesList\<close> lists an entry \<open>how-to-use\<close> like any
  other.
\<close>

theorem usage_guide_unserved:
  "fst (dispatch sample_env (\<lambda>k. no_faults) ''t1''
        \<lparr>ReqID = Some (JNum 1), Method = ''resources/read'',
         Params = Some (JObj [(''uri'', JStr ''mcpedia://how-to-use'')])\<rparr>
        \<lparr>DB = empty_db, sessions = []\<rparr>)
     = Some (rpcErr (Some (JNum 1)) (- 32002) ''Invalid resource URI: mcpedia://how-to-use'')
   \<and> fst (dispatch sample_env (\<lambda>k. no_faults) ''t1''
        \<lparr>ReqID = Some (JNum 2), Method = ''resources/read'',
         Params = Some (JObj [(''uri'', JStr ''mcpedia://entries/how-to-use'')])\<rparr>
        \<lparr>DB = empty_db, sessions = []\<rparr>)
     = Some (rpcErr (Some (JNum 2)) (- 32002) ''entry not found: how-to-use'')
   \<and> fst (dispatch sample_env (\<lambda>k. no_faults) ''t1''
        \<lparr>ReqID = Some (JNum 3), Method = ''resources/read'',
         Params = Some (JObj [(''uri'', JStr ''mcpedia://how-to-use'')])\<rparr>
        \<lparr>DB = snd (CreateEntry sample_env no_faults ''t0''
                 (new_entry ''how-to-use'' ''Custom'' ''My custom guide.'' []) empty_db),
         sessions = []\<rparr>)
     = Some (rpcErr (Some (JNum 3)) (- 32002) ''Invalid resource URI: mcpedia://how-to-use'')
   \<and> fst (dispatch sample_env (\<lambda>k. no_faults) ''t1''
        \<lparr>ReqID = Some (JNum 4), Method = ''resources/list'', Params = None\<rparr>
        \<lparr>DB = snd (CreateEntry sample_env no_faults ''t0''
                 (new_entry ''how-to-use'' ''Custom'' ''My custom guide.'' []) empty_db),
         sessions = []\<rparr>)
     = Some (rpcResult (Some (JNum 4))
         (ResourcesListResult
            [\<lparr>res_uri = ''mcpedia://entries/how-to-use'', res_name = ''how-to-use'',
              res_title = ''Custom'', res_description = []\<rparr>] None))"
  by (simp add: stmt_defs op_defs mcp_defs sample_defs)

section \<open>Tags of returned entries\<close>

text \<open>
  C10: in every store that the operations can reach, every entry returned by get, list,
  search, getByContext or getAll carries a tags list that is sorted in ascending order,
  has no duplicate name and holds the names associated with the entry; an entry without
  associations carries the empty, non-nil list.
\<close>

theorem returned_tags:
  assumes "reach env d"
  shows "(\<forall>e. fst (GetEntry flt now s d) = Inr e \<longrightarrow> tags_listed d e)
    \<and> (\<forall>e \<in> set (ListEntries d f). tags_listed d e)
    \<and> (\<forall>es. fst (SearchEntries env flt now q f limit d) = Inr es \<longrightarrow>
          (\<forall>e \<in> set es. tags_listed d e))
    \<and> (\<forall>e \<in> set (fst (GetEntriesByContext flt now f limit d)). tags_listed d e)
    \<and> (\<forall>e \<in> set (AllEntries d). tags_listed d e)
    \<and> (\<forall>e. tags_listed d e \<and> assoc d (ID e) = {} \<longrightarrow> Tags e = Some [])"
proof -
  have ok: "db_ok d" using assms by (rule reach_ok)
  have 1: "\<forall>e. fst (GetEntry flt now s d) = Inr e \<longrightarrow> tags_listed d e"
    using ok by (auto simp: GetEntry_def tags_listed_row split: option.splits)
  have 2: "\<forall>e \<in> set (ListEntries d f). tags_listed d e"
    using ok by (auto simp: ListEntries_def tags_listed_upd tags_listed_row)
  have 3: "\<forall>es. fst (SearchEntries env flt now q f limit d) = Inr es \<longrightarrow>
          (\<forall>e \<in> set es. tags_listed d e)"
    using ok
    by (auto simp: SearchEntries_def Let_def search_entry_def tags_listed_upd tags_listed_row
        split: if_splits)
  have 4: "\<forall>e \<in> set (fst (GetEntriesByContext flt now f limit d)). tags_listed d e"
    using ok by (auto simp: GetEntriesByContext_def Let_def tags_listed_row)
  have 5: "\<forall>e \<in> set (AllEntries d). tags_listed d e"
    using ok by (auto simp: AllEntries_def tags_listed_row)
  have 6: "\<forall>e. tags_listed d e \<and> assoc d (ID e) = {} \<longrightarrow> Tags e = Some []"
    by (auto dest: no_assoc_empty)
  show ?thesis using 1 2 3 4 5 6 by blast
qed

theorem returned_tags_witness:
  "reach sample_env db_a
   \<and> fst (GetEntry no_faults ''t1'' ''a'' db_a)
       = Inr \<lparr>ID = 1, Slug = ''a'', Title = ''Animal Guide'', Description = [],
              Content = ''monotreme'', Kind = ''skill'', Language = [], Domain = [],
              Project = [], Version = 1, CreatedAt = ''t0'', UpdatedAt = ''t0'',
              Tags = Some [''egg'', ''zoo''], Snippet = []\<rparr>
   \<and> tags_listed db_a \<lparr>ID = 1, Slug = ''a'', Title = ''Animal Guide'', Description = [],
              Content = ''monotreme'', Kind = ''skill'', Language = [], Domain = [],
              Project = [], Version = 1, CreatedAt = ''t0'', UpdatedAt = ''t0'',
              Tags = Some [''egg'', ''zoo''], Snippet = []\<rparr>"
proof -
  have c: "snd (CreateEntry sample_env no_faults ''t0''
      (new_entry ''a'' ''Animal Guide'' ''monotreme'' [''zoo'', '' '', ''egg '', ''zoo''])
      empty_db) = db_a"
    by (simp add: stmt_defs op_defs sample_defs)
  have r: "reach sample_env db_a"
    using reach_create [OF reach_open, of sample_env no_faults "''t0''"
        "new_entry ''a'' ''Animal Guide'' ''monotreme'' [''zoo'', '' '', ''egg '', ''zoo'']"]
    by (simp only: c)
  have g: "fst (GetEntry no_faults ''t1'' ''a'' db_a)
       = Inr \<lparr>ID = 1, Slug = ''a'', Title = ''Animal Guide'', Description = [],
              Content = ''monotreme'', Kind = ''skill'', Language = [], Domain = [],
              Project = [], Version = 1, CreatedAt = ''t0'', UpdatedAt = ''t0'',
              Tags = Some [''egg'', ''zoo''], Snippet = []\<rparr>"
    by (simp add: stmt_defs op_defs sample_defs)
  show ?thesis
    using returned_tags [OF r, of no_faults "''t1''" "''a''"] r g by simp
qed


end
